(* ===== verification/Ob_Prelude.thy ===== *)
theory Ob_Prelude
  imports Main "HOL-Library.AList"
begin

text \<open>
  Shared vocabulary of the development: the collections of simplification rules the
  components add to, Go maps as association lists, the error and result types of
  fallible Go functions, and two interfaces stated once as locales. A \<open>codec\<close> is a
  printer with a parser that reads it back; a \<open>inductive_system\<close> is a transition
  system with an inductive invariant.
\<close>

named_theorems golib_simps \<open>unfolding rules for the modelled Go library functions\<close>
named_theorems sandbox_defs \<open>unfolding rules for the sandbox contract\<close>
named_theorems docker_defs \<open>unfolding rules for the Docker backend\<close>
named_theorems daemon_defs \<open>unfolding rules for the daemon\<close>
named_theorems preview_defs \<open>unfolding rules for previews\<close>

section \<open>Go maps\<close>

text \<open>
  A Go map with string keys is an association list with distinct keys. The list order
  stands for the order one \<^verbatim>\<open>range\<close> loop happens to visit: every statement quantifies
  over the list, hence over every iteration order. Go's zero value on a missing key
  is \<open>mget\<close>.
\<close>

type_synonym gomap = "(string \<times> string) list"

definition wf_map :: "('k \<times> 'v) list \<Rightarrow> bool" where
  "wf_map m \<longleftrightarrow> distinct (map fst m)"

definition mget :: "gomap \<Rightarrow> string \<Rightarrow> string" where
  "mget m k = (case map_of m k of None \<Rightarrow> [] | Some v \<Rightarrow> v)"

definition mput :: "'k \<Rightarrow> 'v \<Rightarrow> ('k \<times> 'v) list \<Rightarrow> ('k \<times> 'v) list" where
  "mput k v m = AList.update k v m"

definition mdel :: "'k \<Rightarrow> ('k \<times> 'v) list \<Rightarrow> ('k \<times> 'v) list" where
  "mdel k m = filter (\<lambda>(k', _). k' \<noteq> k) m"

lemma map_of_mput [simp]: "map_of (mput k v m) = (map_of m)(k \<mapsto> v)"
  by (simp add: mput_def update_conv')

lemma map_of_mdel [simp]: "map_of (mdel k m) = (map_of m)(k := None)"
  by (induction m) (auto simp: mdel_def fun_eq_iff)

lemma wf_map_Nil [simp, intro]: "wf_map []"
  by (simp add: wf_map_def)

lemma wf_map_mput [simp, intro]: "wf_map m \<Longrightarrow> wf_map (mput k v m)"
  by (simp add: wf_map_def mput_def distinct_update)

lemma wf_map_mdel [simp, intro]: "wf_map m \<Longrightarrow> wf_map (mdel k m)"
  by (induction m) (auto simp: wf_map_def mdel_def)

lemma mget_mput [simp]: "mget (mput k v m) k' = (if k' = k then v else mget m k')"
  by (simp add: mget_def)

lemma fst_set_mput: "fst ` set (mput k v m) = insert k (fst ` set m)"
  by (metis dom_map_of_conv_image_fst dom_fun_upd map_of_mput option.distinct(1))

lemma map_of_filter_keys:
  "map_of (filter (\<lambda>(k, _). P k) m) k = (if P k then map_of m k else None)"
  by (induction m) auto

section \<open>Lists\<close>

lemma takeWhile_neq_append_Cons:
  "c \<notin> set xs \<Longrightarrow> takeWhile (\<lambda>x. x \<noteq> c) (xs @ c # ys) = xs"
  by (induction xs) auto

lemma dropWhile_neq_append_Cons:
  "c \<notin> set xs \<Longrightarrow> dropWhile (\<lambda>x. x \<noteq> c) (xs @ c # ys) = c # ys"
  by (induction xs) auto

text \<open>A separator that occurs in neither first half determines where a list was joined.\<close>

lemma sep_append_unique:
  "c \<notin> set xs \<Longrightarrow> c \<notin> set xs' \<Longrightarrow> xs @ c # ys = xs' @ c # ys' \<Longrightarrow> xs = xs' \<and> ys = ys'"
  by (metis takeWhile_neq_append_Cons same_append_eq list.inject)

section \<open>Printers and parsers\<close>

locale codec =
  fixes enc :: "'a \<Rightarrow> string"
    and dec :: "string \<Rightarrow> 'a option"
    and valid :: "'a \<Rightarrow> bool"
  assumes dec_enc: "valid x \<Longrightarrow> dec (enc x) = Some x"
begin

lemma enc_inject: "valid x \<Longrightarrow> valid y \<Longrightarrow> enc x = enc y \<Longrightarrow> x = y"
  by (metis dec_enc option.inject)

lemma inj_on_enc: "inj_on enc {x. valid x}"
  by (rule inj_onI) (auto dest: enc_inject)

end

text \<open>A codec whose output never contains a separator can be joined with it.\<close>

locale sep_codec = codec +
  fixes sep :: char
  assumes sep_notin: "valid x \<Longrightarrow> sep \<notin> set (enc x)"
begin

lemma enc_sep_inject:
  "valid x \<Longrightarrow> valid y \<Longrightarrow> enc x @ sep # r = enc y @ sep # s \<Longrightarrow> x = y \<and> r = s"
  by (metis enc_inject sep_append_unique sep_notin)

lemma takeWhile_enc: "valid x \<Longrightarrow> takeWhile (\<lambda>c. c \<noteq> sep) (enc x @ sep # r) = enc x"
  by (simp add: sep_notin takeWhile_neq_append_Cons)

end

section \<open>Transition systems\<close>

inductive reach :: "('s \<Rightarrow> bool) \<Rightarrow> ('s \<Rightarrow> 's \<Rightarrow> bool) \<Rightarrow> 's \<Rightarrow> bool"
  for init :: "'s \<Rightarrow> bool" and step :: "'s \<Rightarrow> 's \<Rightarrow> bool" where
  reach_init: "init s \<Longrightarrow> reach init step s"
| reach_step: "reach init step s \<Longrightarrow> step s t \<Longrightarrow> reach init step t"

locale inductive_system =
  fixes init :: "'s \<Rightarrow> bool" and step :: "'s \<Rightarrow> 's \<Rightarrow> bool" and inv :: "'s \<Rightarrow> bool"
  assumes inv_init: "init s \<Longrightarrow> inv s"
    and inv_step: "inv s \<Longrightarrow> step s t \<Longrightarrow> inv t"
begin

lemma reach_inv: "reach init step s \<Longrightarrow> inv s"
  by (induction rule: reach.induct) (blast intro: inv_init inv_step)+

end

end
