(* ===== verification/Go_Strings.thy ===== *)
theory Go_Strings
  imports Ob_Prelude "HOL-Library.Char_ord" "HOL-Library.List_Lexorder"
begin

text \<open>
  The parts of Go's \<^verbatim>\<open>strings\<close>, \<^verbatim>\<open>strconv\<close>, \<^verbatim>\<open>path\<close> and \<^verbatim>\<open>net\<close> packages the program
  uses, on byte strings (a Go string is a list of bytes, here \<^typ>\<open>string\<close>). Machine
  integers are \<^typ>\<open>int\<close> with the 64-bit wrap-around written out as \<open>wrap64\<close>.
\<close>

section \<open>64-bit integers\<close>

definition wrap64 :: "int \<Rightarrow> int" where
  "wrap64 x = (x + 2 ^ 63) mod 2 ^ 64 - 2 ^ 63"

definition in_int64 :: "int \<Rightarrow> bool" where
  "in_int64 x \<longleftrightarrow> - (2 ^ 63) \<le> x \<and> x < 2 ^ 63"

lemma wrap64_id [simp]: "in_int64 x \<Longrightarrow> wrap64 x = x"
  by (simp add: wrap64_def in_int64_def)

lemma in_int64_wrap64 [simp]: "in_int64 (wrap64 x)"
proof -
  have "(x + 2 ^ 63) mod 2 ^ 64 < (2 ^ 64 :: int)" "0 \<le> (x + 2 ^ 63) mod (2 ^ 64 :: int)"
    by simp_all
  then show ?thesis by (simp add: wrap64_def in_int64_def)
qed

section \<open>Package strings\<close>

definition hasPrefix :: "string \<Rightarrow> string \<Rightarrow> bool" where
  "hasPrefix s p \<longleftrightarrow> take (length p) s = p"

definition cutPrefix :: "string \<Rightarrow> string \<Rightarrow> string option" where
  "cutPrefix s p = (if hasPrefix s p then Some (drop (length p) s) else None)"

definition trimSuffix :: "string \<Rightarrow> string \<Rightarrow> string" where
  "trimSuffix s p =
     (if length p \<le> length s \<and> drop (length s - length p) s = p
      then take (length s - length p) s else s)"

text \<open>\<^verbatim>\<open>strings.Cut\<close> around a one-byte separator.\<close>

definition cut :: "string \<Rightarrow> char \<Rightarrow> (string \<times> string) option" where
  "cut s c = (if c \<in> set s
     then Some (takeWhile (\<lambda>x. x \<noteq> c) s, tl (dropWhile (\<lambda>x. x \<noteq> c) s)) else None)"

text \<open>\<^verbatim>\<open>strings.Split\<close> and \<^verbatim>\<open>strings.SplitN\<close> at a one-byte separator.\<close>

fun split_on :: "char \<Rightarrow> string \<Rightarrow> string list" where
  "split_on c [] = [[]]"
| "split_on c (x # xs) =
     (if x = c then [] # split_on c xs
      else (case split_on c xs of [] \<Rightarrow> [[x]] | h # t \<Rightarrow> (x # h) # t))"

fun splitN_on :: "nat \<Rightarrow> char \<Rightarrow> string \<Rightarrow> string list" where
  "splitN_on 0 c s = []"
| "splitN_on (Suc 0) c s = [s]"
| "splitN_on (Suc (Suc n)) c s =
     (case cut s c of None \<Rightarrow> [s] | Some (a, b) \<Rightarrow> a # splitN_on (Suc n) c b)"

lemma split_on_not_Nil [simp]: "split_on c s \<noteq> []"
  by (induction s) (auto split: list.splits)

lemma split_on_notin: "c \<notin> set s \<Longrightarrow> split_on c s = [s]"
  by (induction s) auto

lemma split_on_append: "c \<notin> set s \<Longrightarrow> split_on c (s @ c # t) = s # split_on c t"
  by (induction s) (simp_all add: eq_commute [of _ c])

lemma length_split_on: "length (split_on c s) = Suc (count_list s c)"
  by (induction s) (auto split: list.splits)

fun unsplit :: "char \<Rightarrow> string list \<Rightarrow> string" where
  "unsplit c [] = []"
| "unsplit c [x] = x"
| "unsplit c (x # y # xs) = x @ c # unsplit c (y # xs)"

lemma unsplit_split_on: "split_on c s = xs \<Longrightarrow> unsplit c xs = s"
proof (induction s arbitrary: xs)
  case Nil
  then show ?case by auto
next
  case (Cons x s)
  obtain h t where ht: "split_on c s = h # t"
    by (cases "split_on c s") auto
  from Cons.IH [OF ht] have "unsplit c (h # t) = s" .
  with Cons.prems ht show ?case by (cases t) auto
qed

lemma split_on_elem_notin: "p \<in> set (split_on c s) \<Longrightarrow> c \<notin> set p"
  by (induction s arbitrary: p) (auto split: list.splits if_splits)

lemma cut_append: "c \<notin> set s \<Longrightarrow> cut (s @ c # t) c = Some (s, t)"
  using takeWhile_neq_append_Cons [of c s t] dropWhile_neq_append_Cons [of c s t]
  by (simp add: cut_def)

lemma cut_notin: "c \<notin> set s \<Longrightarrow> cut s c = None"
  by (simp add: cut_def)

lemma cut_Some:
  assumes "cut s c = Some (a, b)"
  shows "s = a @ c # b \<and> c \<notin> set a"
proof -
  have c: "c \<in> set s" and a: "a = takeWhile (\<lambda>x. x \<noteq> c) s"
    and b: "b = tl (dropWhile (\<lambda>x. x \<noteq> c) s)"
    using assms by (simp_all add: cut_def split: if_splits)
  from c obtain u v where uv: "s = u @ c # v" "c \<notin> set u" by (meson split_list_first)
  then have "a = u" "b = v"
    using takeWhile_neq_append_Cons [of c u v] dropWhile_neq_append_Cons [of c u v]
    unfolding a b by simp_all
  with uv show ?thesis by simp
qed

lemma cutPrefix_append [simp]: "cutPrefix (p @ s) p = Some s"
  by (simp add: cutPrefix_def hasPrefix_def)

lemma cutPrefix_Some_iff: "cutPrefix s p = Some r \<longleftrightarrow> s = p @ r"
  by (metis append_eq_conv_conj append_take_drop_id cutPrefix_def hasPrefix_def
      option.distinct(1) option.inject)

lemma hasPrefix_append [simp]: "hasPrefix (p @ s) p"
  by (simp add: hasPrefix_def)

text \<open>
  \<^verbatim>\<open>strings.TrimSpace\<close> removes leading and trailing Unicode white space; the encodings
  below are the UTF-8 forms of \<^verbatim>\<open>unicode.IsSpace\<close>.
\<close>

definition bytes_of :: "nat list \<Rightarrow> string" where
  "bytes_of ns = map char_of ns"

definition space_runes :: "string list" where
  "space_runes = map bytes_of
     ([[9], [10], [11], [12], [13], [32], [194, 133], [194, 160], [225, 154, 128]]
      @ map (\<lambda>i. [226, 128, i]) [128, 129, 130, 131, 132, 133, 134, 135, 136, 137, 138, 168, 169, 175]
      @ [[226, 129, 159], [227, 128, 128]])"

function trimLeft :: "string \<Rightarrow> string" where
  "trimLeft s =
     (case List.find (\<lambda>w. w \<noteq> [] \<and> hasPrefix s w) space_runes of
        None \<Rightarrow> s | Some w \<Rightarrow> trimLeft (drop (length w) s))"
  by pat_completeness auto
termination
proof (relation "measure length", simp, goal_cases)
  case (1 s w)
  then have "w \<noteq> []" "take (length w) s = w" by (auto simp: find_Some_iff hasPrefix_def)
  then have "0 < length w" "s \<noteq> []" by auto
  then show ?case by (cases s; cases w) simp_all
qed

declare trimLeft.simps [simp del]

definition trimRight :: "string \<Rightarrow> string" where
  "trimRight s =
     (let strip = (\<lambda>t. case List.find (\<lambda>w. w \<noteq> [] \<and> hasPrefix t (rev w)) space_runes of
                        None \<Rightarrow> t | Some w \<Rightarrow> drop (length w) t)
      in rev ((strip ^^ length s) (rev s)))"

definition trimSpace :: "string \<Rightarrow> string" where
  "trimSpace s = trimRight (trimLeft s)"

text \<open>A string that begins and ends with a visible ASCII character is left alone.\<close>

definition graphic :: "char \<Rightarrow> bool" where
  "graphic c \<longleftrightarrow> (let n = (of_char c :: nat) in 33 \<le> n \<and> n \<le> 126)"

lemma space_runes_not_graphic:
  assumes "w \<in> set space_runes"
  shows "w \<noteq> [] \<and> \<not> graphic (hd w) \<and> \<not> graphic (last w)"
proof -
  have "list_all (\<lambda>w. w \<noteq> [] \<and> \<not> graphic (hd w) \<and> \<not> graphic (last w)) space_runes"
    by (simp add: space_runes_def bytes_of_def graphic_def)
  with assms show ?thesis by (simp add: list_all_iff)
qed

lemma find_None_all: "(\<And>w. w \<in> set ws \<Longrightarrow> \<not> P w) \<Longrightarrow> List.find P ws = None"
  by (auto simp: find_None_iff)

lemma hasPrefix_hd: "hasPrefix s w \<Longrightarrow> w \<noteq> [] \<Longrightarrow> s \<noteq> [] \<and> hd s = hd w"
  by (cases s; cases w) (auto simp: hasPrefix_def)

lemma trimLeft_graphic: "graphic (hd s) \<Longrightarrow> trimLeft s = s"
  by (subst trimLeft.simps, subst find_None_all) (auto dest!: space_runes_not_graphic hasPrefix_hd)

lemma trimRight_graphic:
  assumes "s \<noteq> []" "graphic (last s)"
  shows "trimRight s = s"
proof -
  define strip where "strip = (\<lambda>t. case List.find (\<lambda>w. w \<noteq> [] \<and> hasPrefix t (rev w)) space_runes of
                        None \<Rightarrow> t | Some w \<Rightarrow> drop (length w) t)"
  have "List.find (\<lambda>w. w \<noteq> [] \<and> hasPrefix (rev s) (rev w)) space_runes = None"
  proof (rule find_None_all)
    fix w assume "w \<in> set space_runes"
    then have "w \<noteq> []" "\<not> graphic (last w)" using space_runes_not_graphic by auto
    then show "\<not> (w \<noteq> [] \<and> hasPrefix (rev s) (rev w))"
      using hasPrefix_hd [of "rev s" "rev w"] assms by (auto simp: hd_rev)
  qed
  then have "strip (rev s) = rev s" by (simp add: strip_def)
  then have "(strip ^^ n) (rev s) = rev s" for n by (induction n) simp_all
  then show ?thesis by (simp add: trimRight_def strip_def)
qed

lemma trimSpace_graphic: "s \<noteq> [] \<Longrightarrow> graphic (hd s) \<Longrightarrow> graphic (last s) \<Longrightarrow> trimSpace s = s"
  by (simp add: trimSpace_def trimLeft_graphic trimRight_graphic)

definition join :: "string \<Rightarrow> string list \<Rightarrow> string" where
  "join sep ss = (case ss of [] \<Rightarrow> [] | x # xs \<Rightarrow> x @ concat (map (\<lambda>y. sep @ y) xs))"

section \<open>Package strconv\<close>

definition digit :: "nat \<Rightarrow> char" where
  "digit d = char_of (48 + d)"

definition digit_val :: "char \<Rightarrow> nat option" where
  "digit_val c = (let n = (of_char c :: nat) in
     if 48 \<le> n \<and> n \<le> 57 then Some (n - 48) else None)"

definition is_digit :: "char \<Rightarrow> bool" where
  "is_digit c \<longleftrightarrow> digit_val c \<noteq> None"

text \<open>Decimal output (\<^verbatim>\<open>%d\<close>, \<^verbatim>\<open>strconv.Itoa\<close>).\<close>

fun dec_nat :: "nat \<Rightarrow> string" where
  "dec_nat n = (if n < 10 then [digit n] else dec_nat (n div 10) @ [digit (n mod 10)])"

declare dec_nat.simps [simp del]

definition itoa :: "int \<Rightarrow> string" where
  "itoa i = (if i < 0 then CHR ''-'' # dec_nat (nat (- i)) else dec_nat (nat i))"

text \<open>A non-empty run of decimal digits, most significant first.\<close>

fun dec_val :: "nat \<Rightarrow> string \<Rightarrow> nat option" where
  "dec_val a [] = Some a"
| "dec_val a (c # cs) =
     (case digit_val c of None \<Rightarrow> None | Some d \<Rightarrow> dec_val (10 * a + d) cs)"

text \<open>\<^verbatim>\<open>strconv.ParseUint(s, 10, bits)\<close>: \<^const>\<open>None\<close> is a syntax or a range error.\<close>

definition parseUint :: "nat \<Rightarrow> string \<Rightarrow> nat option" where
  "parseUint bits s =
     (if s = [] then None
      else case dec_val 0 s of None \<Rightarrow> None | Some n \<Rightarrow> if n < 2 ^ bits then Some n else None)"

text \<open>\<^verbatim>\<open>strconv.ParseInt(s, 10, 64)\<close>, which \<^verbatim>\<open>strconv.Atoi\<close> agrees with on 64-bit hosts.\<close>

definition parseInt64 :: "string \<Rightarrow> int option" where
  "parseInt64 s =
     (case s of
        [] \<Rightarrow> None
      | c # cs \<Rightarrow>
          let neg = (c = CHR ''-''); ds = (if c = CHR ''-'' \<or> c = CHR ''+'' then cs else s)
          in (if ds = [] then None
              else case dec_val 0 ds of
                None \<Rightarrow> None
              | Some n \<Rightarrow>
                  if neg then (if n \<le> 2 ^ 63 then Some (- int n) else None)
                  else (if n < 2 ^ 63 then Some (int n) else None)))"

definition atoi :: "string \<Rightarrow> int option" where
  "atoi = parseInt64"

lemma digit_val_digit [simp]: "d < 10 \<Longrightarrow> digit_val (digit d) = Some d"
  by (simp add: digit_val_def digit_def)

lemma digit_val_less: "digit_val c = Some d \<Longrightarrow> d < 10"
  by (auto simp: digit_val_def Let_def split: if_splits)

lemma dec_val_append: "dec_val a (xs @ ys) = Option.bind (dec_val a xs) (\<lambda>b. dec_val b ys)"
  by (induction xs arbitrary: a) (auto split: option.splits)

lemma dec_nat_not_Nil [simp]: "dec_nat n \<noteq> []"
  by (subst dec_nat.simps) simp

lemma dec_val_dec_nat [simp]: "dec_val 0 (dec_nat n) = Some n"
proof (induction n rule: dec_nat.induct)
  case (1 n)
  then show ?case
    by (subst dec_nat.simps) (auto simp: dec_val_append)
qed

lemma dec_nat_digits: "c \<in> set (dec_nat n) \<Longrightarrow> is_digit c"
proof (induction n rule: dec_nat.induct)
  case (1 n)
  show ?case
  proof (cases "n < 10")
    case True
    with "1.prems" show ?thesis by (subst (asm) dec_nat.simps) (simp add: is_digit_def)
  next
    case False
    with "1" show ?thesis
      by (subst (asm) (2) dec_nat.simps) (auto simp: is_digit_def)
  qed
qed

lemma not_digit_sep [simp]:
  "\<not> is_digit CHR '':''" "\<not> is_digit CHR ''.''" "\<not> is_digit CHR ''/''"
  "\<not> is_digit CHR ''-''" "\<not> is_digit CHR ''+''" "\<not> is_digit CHR 0x00"
  by (simp_all add: is_digit_def digit_val_def)

lemma parseUint_dec_nat: "n < 2 ^ b \<Longrightarrow> parseUint b (dec_nat n) = Some n"
  by (simp add: parseUint_def)

lemma hd_dec_nat: "hd (dec_nat n) \<noteq> CHR ''-''" "hd (dec_nat n) \<noteq> CHR ''+''"
  using dec_nat_digits [of "hd (dec_nat n)" n] by (metis hd_in_set dec_nat_not_Nil not_digit_sep)+

lemma parseInt64_dec_nat: "n < 2 ^ 63 \<Longrightarrow> parseInt64 (dec_nat n) = Some (int n)"
  using hd_dec_nat [of n] dec_val_dec_nat [of n]
  by (cases "dec_nat n") (auto simp: parseInt64_def simp del: dec_val_dec_nat)

lemma parseInt64_itoa: "in_int64 i \<Longrightarrow> parseInt64 (itoa i) = Some i"
proof (cases "i < 0")
  case True
  moreover assume "in_int64 i"
  ultimately show ?thesis
    by (auto simp: itoa_def parseInt64_def in_int64_def nat_le_iff)
next
  case False
  moreover assume "in_int64 i"
  ultimately show ?thesis
    by (simp add: itoa_def in_int64_def parseInt64_dec_nat nat_less_iff)
qed

interpretation itoa: codec itoa parseInt64 in_int64
  by unfold_locales (rule parseInt64_itoa)

lemma itoa_chars: "c \<in> set (itoa i) \<Longrightarrow> is_digit c \<or> c = CHR ''-''"
  by (auto simp: itoa_def split: if_splits dest: dec_nat_digits)

interpretation itoa_colon: sep_codec itoa parseInt64 in_int64 "CHR '':''"
  by unfold_locales (auto dest: itoa_chars)

interpretation itoa_slash: sep_codec itoa parseInt64 in_int64 "CHR ''/''"
  by unfold_locales (auto dest: itoa_chars)

text \<open>A string that \<^const>\<open>parseInt64\<close> accepts holds only a sign and digits.\<close>

lemma dec_val_digits: "dec_val a s = Some n \<Longrightarrow> c \<in> set s \<Longrightarrow> is_digit c"
  by (induction s arbitrary: a) (auto simp: is_digit_def split: option.splits)

lemma parseInt64_chars:
  "parseInt64 s = Some i \<Longrightarrow> c \<in> set s \<Longrightarrow> is_digit c \<or> c = CHR ''-'' \<or> c = CHR ''+''"
  by (cases s)
    (auto simp: parseInt64_def Let_def is_digit_def split: if_splits option.splits
      dest: dec_val_digits [unfolded is_digit_def])

lemma parseUint_digits: "parseUint b s = Some n \<Longrightarrow> c \<in> set s \<Longrightarrow> is_digit c"
  by (auto simp: parseUint_def split: if_splits option.splits dest: dec_val_digits)

section \<open>Package path\<close>

definition isAbs :: "string \<Rightarrow> bool" where
  "isAbs p \<longleftrightarrow> (case p of [] \<Rightarrow> False | c # _ \<Rightarrow> c = CHR ''/'')"

text \<open>
  \<^verbatim>\<open>path.Clean\<close> over the slash-separated elements, with the elements kept so far in
  reverse: empty and \<open>''.''\<close> elements disappear, \<open>''..''\<close> removes the element before it,
  disappears at a root and is kept at the front of a relative path.
\<close>

fun clean_elems :: "bool \<Rightarrow> string list \<Rightarrow> string list \<Rightarrow> string list" where
  "clean_elems rooted acc [] = rev acc"
| "clean_elems rooted acc (e # es) =
     (if e = [] \<or> e = ''.'' then clean_elems rooted acc es
      else if e = ''..'' then
        (case acc of
           [] \<Rightarrow> clean_elems rooted (if rooted then [] else [''..'']) es
         | a # acc' \<Rightarrow> if a = ''..'' then clean_elems rooted (''..'' # acc) es
                       else clean_elems rooted acc' es)
      else clean_elems rooted (e # acc) es)"

definition path_clean :: "string \<Rightarrow> string" where
  "path_clean p =
     (let body = unsplit CHR ''/'' (clean_elems (isAbs p) [] (split_on CHR ''/'' p))
      in if isAbs p then CHR ''/'' # body else if body = [] then ''.'' else body)"

definition path_dir :: "string \<Rightarrow> string" where
  "path_dir p = path_clean (rev (dropWhile (\<lambda>c. c \<noteq> CHR ''/'') (rev p)))"

definition path_join :: "string list \<Rightarrow> string" where
  "path_join es =
     (let ne = filter (\<lambda>e. e \<noteq> []) es
      in if ne = [] then [] else path_clean (unsplit CHR ''/'' ne))"

section \<open>Package net\<close>

definition indexOf :: "char \<Rightarrow> string \<Rightarrow> nat option" where
  "indexOf c s = (if c \<in> set s then Some (length (takeWhile (\<lambda>x. x \<noteq> c) s)) else None)"

definition lastIndexOf :: "char \<Rightarrow> string \<Rightarrow> nat option" where
  "lastIndexOf c s =
     (if c \<in> set s then Some (length s - 1 - length (takeWhile (\<lambda>x. x \<noteq> c) (rev s))) else None)"

text \<open>\<^verbatim>\<open>net.SplitHostPort\<close>, with \<^const>\<open>None\<close> for each of its address errors.\<close>

definition splitHostPort :: "string \<Rightarrow> (string \<times> string) option" where
  "splitHostPort hp =
     (case lastIndexOf CHR '':'' hp of
        None \<Rightarrow> None
      | Some i \<Rightarrow>
          let port = drop (i + 1) hp in
          (if hp ! 0 = CHR ''['' then
             (case indexOf CHR '']'' hp of
                None \<Rightarrow> None
              | Some e \<Rightarrow>
                  if e + 1 \<noteq> i then None
                  else if CHR ''['' \<in> set (drop 1 hp) \<or> CHR '']'' \<in> set (drop (e + 1) hp) then None
                  else Some (take (e - 1) (drop 1 hp), port))
           else if CHR '':'' \<in> set (take i hp) then None
           else if CHR ''['' \<in> set hp \<or> CHR '']'' \<in> set hp then None
           else Some (take i hp, port)))"

definition joinHostPort :: "string \<Rightarrow> string \<Rightarrow> string" where
  "joinHostPort host port =
     (if CHR '':'' \<in> set host then ''['' @ host @ '']:'' @ port else host @ '':'' @ port)"

text \<open>
  \<^verbatim>\<open>net.parsePort\<close>, the first stage of the port lookup \<^verbatim>\<open>net.Listen\<close> performs: an optional
  sign and decimal digits are a number, anything else needs a service lookup (\<^const>\<open>None\<close>).
  Saturation past \<open>2 ^ 30 - 1\<close> is left out: such a port is refused by its range anyway.
\<close>

definition parsePort :: "string \<Rightarrow> int option" where
  "parsePort s =
     (case s of
        [] \<Rightarrow> Some 0
      | c # cs \<Rightarrow>
          (let ds = (if c = CHR ''-'' \<or> c = CHR ''+'' then cs else s)
           in map_option (\<lambda>n. if c = CHR ''-'' then - int n else int n) (dec_val 0 ds)))"

lemma lastIndexOf_append:
  "c \<notin> set b \<Longrightarrow> lastIndexOf c (a @ c # b) = Some (length a)"
  using takeWhile_neq_append_Cons [of c "rev b" "rev a"] by (simp add: lastIndexOf_def)

lemma splitHostPort_plain:
  assumes "CHR '':'' \<notin> set h" "CHR ''['' \<notin> set h" "CHR '']'' \<notin> set h"
    and "CHR '':'' \<notin> set p" "CHR ''['' \<notin> set p" "CHR '']'' \<notin> set p"
  shows "splitHostPort (h @ CHR '':'' # p) = Some (h, p)"
proof -
  have "(h @ CHR '':'' # p) ! 0 \<noteq> CHR ''[''"
    using assms by (cases h) auto
  with assms show ?thesis
    by (simp add: splitHostPort_def lastIndexOf_append)
qed

end
