(* ===== verification/Ob_Errors.thy ===== *)
theory Ob_Errors
  imports Go_Strings "HOL-Library.State_Monad"
begin

text \<open>
  Errors as values. A Go error is a sentinel or a message that wraps other errors
  (\<^verbatim>\<open>fmt.Errorf\<close> with \<^verbatim>\<open>%w\<close>, \<^verbatim>\<open>errors.Join\<close>); \<^verbatim>\<open>errors.Is\<close> searches the tree. A message
  keeps its format and the errors it wraps; the other arguments of the format are
  left out, because no decision of the program depends on them.
\<close>

text \<open>The classes of a Docker client error that \<^verbatim>\<open>errdefs\<close> tells apart.\<close>

datatype cerr = CNotFound | CConflict | COther

datatype sentinel =
    ErrNotFound | ErrInvalid | ErrTimeout | ErrRuntimeUnavailable | ErrStopped
  | ErrImageUnavailable | ErrAtCapacity | ErrProfileConflict | ErrInternal | ErrInvalidToken
  | ContextCanceled | ContextDeadlineExceeded | DockerErr cerr | LibraryErr string

datatype gerr = Sentinel sentinel | Errorf string "gerr list"

fun errIs :: "gerr \<Rightarrow> sentinel \<Rightarrow> bool" where
  "errIs (Sentinel t) s = (t = s)"
| "errIs (Errorf f es) s = list_ex (\<lambda>e. errIs e s) es"

text \<open>The two constructors most of the program uses: \<^verbatim>\<open>errors.New\<close> and one \<^verbatim>\<open>%w\<close>.\<close>

abbreviation errorsNew :: "string \<Rightarrow> gerr" where
  "errorsNew msg \<equiv> Errorf msg []"

abbreviation wrapErr :: "string \<Rightarrow> sentinel \<Rightarrow> gerr" where
  "wrapErr msg s \<equiv> Errorf msg [Sentinel s]"

abbreviation dockerErr :: "cerr \<Rightarrow> gerr" where
  "dockerErr e \<equiv> Sentinel (DockerErr e)"

text \<open>\<^verbatim>\<open>errors.Join\<close> drops nothing here, since no nil error is collected; none at all is nil.\<close>

definition errorsJoin :: "gerr list \<Rightarrow> gerr option" where
  "errorsJoin es = (if es = [] then None else Some (Errorf ''join'' es))"

lemma errorsJoin_None [simp]: "errorsJoin es = None \<longleftrightarrow> es = []"
  by (simp add: errorsJoin_def)

text \<open>A fallible call returns \<^term>\<open>Inl e\<close> for an error, one without a result \<^term>\<open>Some e\<close>.\<close>

type_synonym 'a result = "gerr + 'a"

section \<open>Effects\<close>

text \<open>
  A call that reads or changes the world outside the program is a state transformer.
  The rules below push a run through sequencing, and the predicate \<open>keeps\<close> is the
  one-line Hoare logic in which the invariants of the world are proved.
\<close>

lemma run_bind [simp]:
  "run_state (State_Monad.bind m f) s = (case run_state m s of (a, s') \<Rightarrow> run_state (f a) s')"
  by (cases m) (simp add: State_Monad.bind_def)

lemma run_return [simp]: "run_state (State_Monad.return a) s = (a, s)"
  by (simp add: State_Monad.return_def)

definition keeps :: "('s \<Rightarrow> 's \<Rightarrow> bool) \<Rightarrow> ('s, 'a) state \<Rightarrow> bool" where
  "keeps R m \<longleftrightarrow> (\<forall>s. R s (snd (run_state m s)))"

lemma keeps_return: "reflp R \<Longrightarrow> keeps R (State_Monad.return a)"
  by (simp add: keeps_def reflpD)

lemma keeps_bind:
  assumes "transp R" "keeps R m" "\<And>a. keeps R (f a)"
  shows "keeps R (State_Monad.bind m f)"
  unfolding keeps_def
proof
  fix s
  obtain a s' where m: "run_state m s = (a, s')" by force
  have "R s s'" using assms(2) m by (metis keeps_def snd_conv)
  moreover have "R s' (snd (run_state (f a) s'))" using assms(3) by (simp add: keeps_def)
  ultimately have "R s (snd (run_state (f a) s'))" by (rule transpD [OF assms(1)])
  then show "R s (snd (run_state (State_Monad.bind m f) s))" by (simp add: m)
qed

end
