(* ===== verification/Go_Encoding.thy ===== *)
theory Go_Encoding
  imports Go_Strings
begin

text \<open>
  The textual encodings the program relies on: lower-case hexadecimal
  (\<^verbatim>\<open>encoding/hex\<close>), unpadded URL-safe base64 (\<^verbatim>\<open>base64.RawURLEncoding\<close>) and
  percent-encoding of one path segment (\<^verbatim>\<open>url.PathEscape\<close>, \<^verbatim>\<open>url.PathUnescape\<close>), each
  interpreted as a \<open>codec\<close>.
\<close>

abbreviation byte :: "char \<Rightarrow> nat" where
  "byte c \<equiv> of_char c"

lemma byte_less [simp]: "byte c < 256"
  by simp

lemma char_of_byte [simp]: "char_of (byte c) = c"
  by simp

section \<open>Hexadecimal\<close>

definition hex_lower :: "nat \<Rightarrow> char" where
  "hex_lower n = (if n < 10 then char_of (48 + n) else char_of (87 + n))"

definition hex_upper :: "nat \<Rightarrow> char" where
  "hex_upper n = (if n < 10 then char_of (48 + n) else char_of (55 + n))"

definition unhex :: "char \<Rightarrow> nat option" where
  "unhex c = (let n = byte c in
     if 48 \<le> n \<and> n \<le> 57 then Some (n - 48)
     else if 97 \<le> n \<and> n \<le> 102 then Some (n - 87)
     else if 65 \<le> n \<and> n \<le> 70 then Some (n - 55)
     else None)"

definition hexEncode :: "string \<Rightarrow> string" where
  "hexEncode bs = concat (map (\<lambda>c. [hex_lower (byte c div 16), hex_lower (byte c mod 16)]) bs)"

lemma unhex_hex_upper [simp]: "n < 16 \<Longrightarrow> unhex (hex_upper n) = Some n"
  by (simp add: unhex_def hex_upper_def)

lemma unhex_hex_lower [simp]: "n < 16 \<Longrightarrow> unhex (hex_lower n) = Some n"
  by (simp add: unhex_def hex_lower_def)

lemma length_hexEncode [simp]: "length (hexEncode bs) = 2 * length bs"
  by (induction bs) (auto simp: hexEncode_def)

section \<open>Unpadded URL-safe base64\<close>

definition b64char :: "nat \<Rightarrow> char" where
  "b64char n = char_of
     (if n < 26 then 65 + n else if n < 52 then 71 + n else if n < 62 then n - 4
      else if n = 62 then 45 else 95)"

definition b64val :: "char \<Rightarrow> nat option" where
  "b64val c = (let n = byte c in
     if 65 \<le> n \<and> n \<le> 90 then Some (n - 65)
     else if 97 \<le> n \<and> n \<le> 122 then Some (n - 71)
     else if 48 \<le> n \<and> n \<le> 57 then Some (n + 4)
     else if n = 45 then Some 62
     else if n = 95 then Some 63
     else None)"

fun b64encode :: "string \<Rightarrow> string" where
  "b64encode [] = []"
| "b64encode [a] = [b64char (byte a div 4), b64char (byte a mod 4 * 16)]"
| "b64encode [a, b] =
     [b64char (byte a div 4), b64char (byte a mod 4 * 16 + byte b div 16),
      b64char (byte b mod 16 * 4)]"
| "b64encode (a # b # c # r) =
     b64char (byte a div 4) # b64char (byte a mod 4 * 16 + byte b div 16)
     # b64char (byte b mod 16 * 4 + byte c div 64) # b64char (byte c mod 64) # b64encode r"

text \<open>
  Decoding skips line breaks, refuses every other byte outside the alphabet and a lone
  last character, and ignores the unused low bits of the last character: Go's decoder is
  strict about them only when asked to be, and the program does not ask.
\<close>

fun b64quanta :: "nat list \<Rightarrow> string option" where
  "b64quanta [] = Some []"
| "b64quanta [a] = None"
| "b64quanta [a, b] = Some [char_of (a * 4 + b div 16)]"
| "b64quanta [a, b, c] = Some [char_of (a * 4 + b div 16), char_of (b mod 16 * 16 + c div 4)]"
| "b64quanta (a # b # c # d # r) =
     map_option (\<lambda>t. char_of (a * 4 + b div 16) # char_of (b mod 16 * 16 + c div 4)
                     # char_of (c mod 4 * 64 + d) # t) (b64quanta r)"

definition is_newline :: "char \<Rightarrow> bool" where
  "is_newline c \<longleftrightarrow> c = CHR 0x0A \<or> c = CHR 0x0D"

definition b64decode :: "string \<Rightarrow> string option" where
  "b64decode s = Option.bind (those (map b64val (filter (\<lambda>c. \<not> is_newline c) s))) b64quanta"

lemma b64val_b64char [simp]: "n < 64 \<Longrightarrow> b64val (b64char n) = Some n"
  by (cases "n < 26"; cases "n < 52"; cases "n < 62"; cases "n = 62")
    (auto simp: b64val_def b64char_def Let_def)

lemma b64val_special [simp]:
  "b64val CHR ''.'' = None" "b64val CHR '':'' = None" "b64val CHR 0x00 = None"
  "b64val CHR 0x0A = None" "b64val CHR 0x0D = None" "b64val CHR ''/'' = None"
  by (simp_all add: b64val_def)

text \<open>How three bytes and four sextets overlap.\<close>

lemma sextet1 [simp]: "x mod 4 * 16 < (64 :: nat)"
  and sextet2 [simp]: "y mod 16 * 4 < (64 :: nat)"
proof -
  have "x mod 4 < 4" "y mod 16 < 16" by simp_all
  then show "x mod 4 * 16 < 64" "y mod 16 * 4 < 64" by linarith+
qed

lemma sextet3 [simp]: "y < 256 \<Longrightarrow> x mod 4 * 16 + y div 16 < (64 :: nat)"
proof -
  assume "y < 256"
  then have "y div 16 < 16" by simp
  moreover have "x mod 4 < 4" by simp
  ultimately show ?thesis by linarith
qed

lemma sextet4 [simp]: "z < 256 \<Longrightarrow> y mod 16 * 4 + z div 64 < (64 :: nat)"
proof -
  assume "z < 256"
  then have "z div 64 < 4" by simp
  moreover have "y mod 16 < 16" by simp
  ultimately show ?thesis by linarith
qed

lemma byte_shift [simp]:
  "byte c div 16 div 16 = 0" "byte c div 16 mod 16 = byte c div 16"
  "byte c div 64 div 4 = 0" "byte c div 64 mod 4 = byte c div 64"
proof -
  have "byte c div 16 < 16" "byte c div 64 < 4"
    using byte_less [of c] by linarith+
  then show "byte c div 16 div 16 = 0" "byte c div 16 mod 16 = byte c div 16"
    "byte c div 64 div 4 = 0" "byte c div 64 mod 4 = byte c div 64"
    by (simp_all only: div_less mod_less)
qed

lemma sextet5 [simp]: "x < 256 \<Longrightarrow> x div 4 < (64 :: nat)"
  by simp

lemma b64encode_alphabet: "c \<in> set (b64encode bs) \<Longrightarrow> b64val c \<noteq> None"
  by (induction bs rule: b64encode.induct) auto

lemma b64encode_not_special:
  assumes "c \<in> set (b64encode bs)"
  shows "c \<noteq> CHR ''.''" "c \<noteq> CHR '':''" "c \<noteq> CHR 0x00" "c \<noteq> CHR ''/''" "\<not> is_newline c"
  using b64encode_alphabet [OF assms] by (auto simp: is_newline_def)

lemma filter_b64encode [simp]: "filter (\<lambda>c. \<not> is_newline c) (b64encode bs) = b64encode bs"
  by (rule filter_True) (use b64encode_not_special in blast)

lemma those_Cons: "those (x # xs) = Option.bind x (\<lambda>y. map_option ((#) y) (those xs))"
  by (cases x) simp_all

lemma b64quanta_those_encode:
  "Option.bind (those (map b64val (b64encode bs))) b64quanta = Some bs"
proof (induction bs rule: b64encode.induct)
  case (4 a b c r)
  then obtain vs where "those (map b64val (b64encode r)) = Some vs" "b64quanta vs = Some r"
    by (auto simp: bind_eq_Some_conv)
  then show ?case by simp
qed simp_all

lemma b64decode_encode: "b64decode (b64encode bs) = Some bs"
  by (simp add: b64decode_def b64quanta_those_encode)

text \<open>
  When the input does not fill the last quantum, its last character carries unused bits:
  another spelling decodes to the same bytes.
\<close>

lemma b64_respell:
  "length bs mod 3 = 2 \<Longrightarrow>
     \<exists>m. m \<noteq> b64encode bs \<and> Option.bind (those (map b64val m)) b64quanta = Some bs \<and> (\<forall>c \<in> set m. b64val c \<noteq> None)"
proof (induction bs rule: b64encode.induct)
  case (3 a b)
  have lt: "byte b mod 16 * 4 + 1 < 64" using mod_less_divisor [of 16 "byte b"] by linarith
  let ?m = "[b64char (byte a div 4), b64char (byte a mod 4 * 16 + byte b div 16), b64char (byte b mod 16 * 4 + 1)]"
  have ne: "b64char (q + 1) \<noteq> b64char q" if "q + 1 < 64" for q
  proof
    assume "b64char (q + 1) = b64char q"
    then have "b64val (b64char (q + 1)) = b64val (b64char q)" by simp
    with that show False by (simp del: One_nat_def add_Suc_right)
  qed
  have "?m \<noteq> b64encode [a, b]" using ne [OF lt] by simp
  moreover have "Suc (byte b mod 16 * 4) div 4 = byte b mod 16" by linarith
  then have "Option.bind (those (map b64val ?m)) b64quanta = Some [a, b]"
    using lt by (simp add: those_Cons)
  moreover have "\<forall>c \<in> set ?m. b64val c \<noteq> None" using lt by simp
  ultimately show ?case by blast
next
  case (4 a b c r)
  have "length r mod 3 = 2" using "4.prems" by (simp add: mod_Suc split: if_splits)
  with "4.IH" obtain m where
    m: "m \<noteq> b64encode r" "Option.bind (those (map b64val m)) b64quanta = Some r" "\<forall>c \<in> set m. b64val c \<noteq> None"
    by blast
  from m(2) obtain vs where vs: "those (map b64val m) = Some vs" "b64quanta vs = Some r"
    by (cases "those (map b64val m)") simp_all
  let ?m = "take 4 (b64encode (a # b # c # r)) @ m"
  have "?m \<noteq> b64encode (a # b # c # r)" using m(1) by simp
  moreover have "Option.bind (those (map b64val ?m)) b64quanta = Some (a # b # c # r)"
    by (simp add: those_Cons vs)
  moreover have "\<forall>c \<in> set ?m. b64val c \<noteq> None" using m(3) by auto
  ultimately show ?case by blast
qed simp_all

lemma b64decode_respell:
  assumes "length bs mod 3 = 2"
  obtains m where "m \<noteq> b64encode bs" "b64decode m = Some bs" "\<forall>c \<in> set m. b64val c \<noteq> None"
proof -
  from b64_respell [OF assms] obtain m where
    m: "m \<noteq> b64encode bs" "Option.bind (those (map b64val m)) b64quanta = Some bs" "\<forall>c \<in> set m. b64val c \<noteq> None"
    by blast
  then have "filter (\<lambda>c. \<not> is_newline c) m = m"
    by (auto simp: is_newline_def intro!: filter_True)
  with m that show thesis by (simp add: b64decode_def)
qed

lemma b64val_graphic: "b64val c \<noteq> None \<Longrightarrow> graphic c"
  by (auto simp: b64val_def graphic_def Let_def split: if_splits)

interpretation b64_dot: sep_codec b64encode b64decode "\<lambda>_. True" "CHR ''.''"
  by unfold_locales (auto simp: b64decode_encode dest: b64encode_not_special)

section \<open>Percent-encoding of a path segment\<close>

text \<open>
  \<^verbatim>\<open>shouldEscape(c, encodePathSegment)\<close>: letters, digits and \<open>- _ . ~ $ & + = : @\<close> stay.
\<close>

definition is_alnum :: "char \<Rightarrow> bool" where
  "is_alnum c \<longleftrightarrow> (let n = byte c in
     97 \<le> n \<and> n \<le> 122 \<or> 65 \<le> n \<and> n \<le> 90 \<or> 48 \<le> n \<and> n \<le> 57)"

definition shouldEscape :: "char \<Rightarrow> bool" where
  "shouldEscape c \<longleftrightarrow> \<not> (is_alnum c \<or> c \<in> set ''-_.~$&+=:@'')"

definition pathEscape :: "string \<Rightarrow> string" where
  "pathEscape s = concat (map (\<lambda>c.
     if shouldEscape c then [CHR ''%'', hex_upper (byte c div 16), hex_upper (byte c mod 16)]
     else [c]) s)"

text \<open>\<^const>\<open>None\<close>: a percent sign is not followed by two hexadecimal digits.\<close>

fun pathUnescape :: "string \<Rightarrow> string option" where
  "pathUnescape [] = Some []"
| "pathUnescape (c # r) =
     (if c = CHR ''%'' then
        (case r of
           a # b # r' \<Rightarrow>
             (case (unhex a, unhex b) of
                (Some x, Some y) \<Rightarrow> map_option ((#) (char_of (16 * x + y))) (pathUnescape r')
              | _ \<Rightarrow> None)
         | _ \<Rightarrow> None)
      else map_option ((#) c) (pathUnescape r))"

lemma pathEscape_Nil [simp]: "pathEscape [] = []"
  by (simp add: pathEscape_def)

lemma pathEscape_Cons: "pathEscape (c # s) =
   (if shouldEscape c then [CHR ''%'', hex_upper (byte c div 16), hex_upper (byte c mod 16)]
    else [c]) @ pathEscape s"
  by (simp add: pathEscape_def)

lemma pathUnescape_pathEscape: "pathUnescape (pathEscape s) = Some s"
proof (induction s)
  case (Cons c s)
  have "byte c div 16 < 16" using byte_less [of c] by linarith
  moreover have "shouldEscape CHR ''%''" by (simp add: shouldEscape_def is_alnum_def)
  ultimately show ?case using Cons by (auto simp: pathEscape_Cons)
qed simp

lemma hex_upper_keep [simp]: "n < 16 \<Longrightarrow> \<not> shouldEscape (hex_upper n)"
  unfolding shouldEscape_def hex_upper_def is_alnum_def Let_def by simp

lemma pathEscape_chars:
  "c \<in> set (pathEscape s) \<Longrightarrow> \<not> shouldEscape c \<or> c = CHR ''%''"
proof (induction s)
  case (Cons a s)
  have "byte a div 16 < 16" using byte_less [of a] by linarith
  with Cons show ?case
    by (auto simp: pathEscape_Cons split: if_splits)
qed simp

lemma shouldEscape_reserved [simp]:
  "shouldEscape CHR ''/''" "shouldEscape CHR ''?''" "shouldEscape CHR ''#''"
  "shouldEscape CHR '' ''" "shouldEscape CHR ''%''"
  by (simp_all add: shouldEscape_def is_alnum_def)

lemma pathEscape_no_slash: "CHR ''/'' \<notin> set (pathEscape s)"
  by (auto dest: pathEscape_chars)

lemma pathEscape_eq_Nil [simp]: "pathEscape s = [] \<longleftrightarrow> s = []"
  by (cases s) (simp_all add: pathEscape_Cons)

interpretation path_segment: sep_codec pathEscape pathUnescape "\<lambda>_. True" "CHR ''/''"
  by unfold_locales (simp_all add: pathUnescape_pathEscape pathEscape_no_slash)

end
