(* ===== verification/Go_Float.thy ===== *)
theory Go_Float
  imports Complex_Main "HOL-Library.Log_Nat"
begin

text \<open>
  IEEE binary64 values as Go's \<^verbatim>\<open>float64\<close> has them: a finite value is the rational it
  denotes, and every arithmetic result is rounded to nearest, ties to even, with 53 bits
  of precision, gradual underflow at \<open>2 ^ -1074\<close> and overflow to infinity at \<open>2 ^ 1024\<close>.
  The sign of zero is not distinguished: no operation of the program can tell.
\<close>

datatype float64 = Fin rat | PosInf | NegInf | NaN

definition round_even :: "rat \<Rightarrow> int" where
  "round_even q =
     (let f = \<lfloor>q\<rfloor>; r = q - of_int f in
      if r < 1 / 2 then f else if 1 / 2 < r then f + 1 else if even f then f else f + 1)"

definition flog2 :: "rat \<Rightarrow> int" where
  "flog2 q =
     (let (n, d) = quotient_of q; e = bitlen n - bitlen d
      in if 2 powi e \<le> q then e else e - 1)"

definition round_pos :: "rat \<Rightarrow> rat" where
  "round_pos q = (let u = 2 powi max (flog2 q - 52) (- 1074) in of_int (round_even (q / u)) * u)"

definition round64 :: "rat \<Rightarrow> rat" where
  "round64 q = (if q = 0 then 0 else if q < 0 then - round_pos (- q) else round_pos q)"

definition mk_float :: "rat \<Rightarrow> float64" where
  "mk_float q = (let r = round64 q in
     if 2 ^ 1024 \<le> r then PosInf else if r \<le> - (2 ^ 1024) then NegInf else Fin r)"

fun f64_pos :: "float64 \<Rightarrow> bool" where
  "f64_pos (Fin q) = (0 < q)"
| "f64_pos PosInf = True"
| "f64_pos _ = False"

fun f64_neg :: "float64 \<Rightarrow> bool" where
  "f64_neg (Fin q) = (q < 0)"
| "f64_neg NegInf = True"
| "f64_neg _ = False"

text \<open>Go's \<^verbatim>\<open>==\<close>: a NaN equals nothing.\<close>

fun f64_eq :: "float64 \<Rightarrow> float64 \<Rightarrow> bool" where
  "f64_eq (Fin p) (Fin q) = (p = q)"
| "f64_eq PosInf PosInf = True"
| "f64_eq NegInf NegInf = True"
| "f64_eq _ _ = False"

text \<open>Multiplication by a positive finite constant.\<close>

fun f64_scale :: "float64 \<Rightarrow> rat \<Rightarrow> float64" where
  "f64_scale (Fin p) c = mk_float (p * c)"
| "f64_scale x c = x"

text \<open>
  Conversion to \<^verbatim>\<open>int64\<close> truncates. The language leaves a value out of range to the
  platform, which is the first argument.
\<close>

fun f64_to_int64 :: "(float64 \<Rightarrow> int) \<Rightarrow> float64 \<Rightarrow> int" where
  "f64_to_int64 oor (Fin q) =
     (let t = (if q < 0 then \<lceil>q\<rceil> else \<lfloor>q\<rfloor>)
      in if - (2 ^ 63) \<le> t \<and> t < 2 ^ 63 then t else oor (Fin q))"
| "f64_to_int64 oor x = oor x"

lemma f64_pos_not_neg: "f64_pos x \<Longrightarrow> \<not> f64_neg x"
  by (cases x) auto

lemma round_even_of_int [simp]: "round_even (of_int n) = n"
  by (simp add: round_even_def)

text \<open>Every natural number below \<open>2 ^ 53\<close> is a binary64 value.\<close>

lemma flog2_small_nat:
  assumes "0 < n" "n < 2 ^ 53"
  shows "flog2 (of_nat n) \<le> 52"
proof -
  have "bitlen (int n) \<le> int 53"
    using assms by (subst bitlen_le_iff_power) simp_all
  moreover have "bitlen 1 = (1 :: int)" by code_simp
  ultimately show ?thesis
    by (simp add: flog2_def Let_def quotient_of_int [of "int n", simplified])
qed

lemma round_pos_nat:
  assumes "0 < n" "n < 2 ^ 53"
  shows "round_pos (of_nat n) = of_nat n"
proof -
  define e where "e = max (flog2 (of_nat n) - 52) (- 1074)"
  have "e \<le> 0" using flog2_small_nat [OF assms] by (simp add: e_def)
  then have u: "(2 :: rat) powi e = 1 / 2 ^ nat (- e)"
    by (auto simp: power_int_def divide_simps)
  have "of_nat n / (2 :: rat) powi e = of_int (int n * 2 ^ nat (- e))"
    by (simp add: u)
  then have "round_even (of_nat n / 2 powi e) = int n * 2 ^ nat (- e)"
    by (simp only: round_even_of_int)
  then show ?thesis by (simp add: round_pos_def e_def [symmetric] u)
qed

lemma round64_nat: "n < 2 ^ 53 \<Longrightarrow> round64 (of_nat n) = of_nat n"
  by (simp add: round64_def round_pos_nat)

end
