(* ===== verification/Go_Time.thy ===== *)
theory Go_Time
  imports Go_Strings Go_Float
begin

text \<open>
  Package \<^verbatim>\<open>time\<close>: durations in nanoseconds with \<^verbatim>\<open>Duration.String\<close> and
  \<^verbatim>\<open>ParseDuration\<close>, instants as nanoseconds since the Unix epoch with saturating
  subtraction, and the \<^verbatim>\<open>RFC3339Nano\<close> layout. Both textual forms are shown to read back
  what they wrote, because sandbox bounds and creation times live in container labels.
\<close>

type_synonym duration = int
type_synonym instant = int

abbreviation (input) microsecond :: nat where "microsecond \<equiv> 1000"
abbreviation (input) millisecond :: nat where "millisecond \<equiv> 1000000"
abbreviation (input) second_ns :: nat where "second_ns \<equiv> 1000000000"

definition seconds :: "int \<Rightarrow> duration" where
  "seconds n = n * 1000000000"

definition minutes :: "int \<Rightarrow> duration" where
  "minutes n = n * 60000000000"

definition hours :: "int \<Rightarrow> duration" where
  "hours n = n * 3600000000000"

section \<open>Zero-padded decimals and fractions\<close>

definition pad :: "nat \<Rightarrow> nat \<Rightarrow> string" where
  "pad w n = replicate (w - length (dec_nat n)) CHR ''0'' @ dec_nat n"

definition strip_zeros :: "string \<Rightarrow> string" where
  "strip_zeros ds = rev (dropWhile (\<lambda>c. c = CHR ''0'') (rev ds))"

text \<open>\<^verbatim>\<open>fmtFrac\<close>: the fraction \<open>q / 10 ^ prec\<close> without trailing zeros, no dot when it is 0.\<close>

definition fmtFrac :: "nat \<Rightarrow> nat \<Rightarrow> string" where
  "fmtFrac prec q = (if q = 0 then [] else CHR ''.'' # strip_zeros (pad prec q))"

lemma length_dec_nat: "0 < w \<Longrightarrow> n < 10 ^ w \<Longrightarrow> length (dec_nat n) \<le> w"
proof (induction n arbitrary: w rule: dec_nat.induct)
  case (1 n)
  show ?case
  proof (cases "n < 10")
    case True
    with 1 show ?thesis by (subst dec_nat.simps) simp
  next
    case False
    with "1.prems" obtain w' where w': "w = Suc w'" "0 < w'"
      by (cases w; cases "w - 1") auto
    with "1.prems" have "n div 10 < 10 ^ w'" by (simp add: less_mult_imp_div_less)
    with "1.IH" [of w'] False w' have "length (dec_nat (n div 10)) \<le> w'" by simp
    with False w' show ?thesis by (subst dec_nat.simps) simp
  qed
qed

lemma length_pad: "0 < w \<Longrightarrow> n < 10 ^ w \<Longrightarrow> length (pad w n) = w"
  by (simp add: pad_def length_dec_nat)

lemma digit_val_zero [simp]: "digit_val CHR ''0'' = Some 0"
  by (simp add: digit_val_def)

lemma dec_val_zeros: "dec_val 0 (replicate k CHR ''0'' @ s) = dec_val 0 s"
  by (induction k) auto

lemma dec_val_pad [simp]: "dec_val 0 (pad w n) = Some n"
  by (simp add: pad_def dec_val_zeros)

lemma pad_digits: "c \<in> set (pad w n) \<Longrightarrow> is_digit c"
  by (auto simp: pad_def is_digit_def dest: dec_nat_digits [unfolded is_digit_def])

lemma strip_zeros_split: "\<exists>k. ds = strip_zeros ds @ replicate k CHR ''0''"
proof -
  let ?z = "takeWhile (\<lambda>c. c = CHR ''0'') (rev ds)"
  have "strip_zeros ds @ rev ?z = ds"
    by (simp only: strip_zeros_def rev_append [symmetric] takeWhile_dropWhile_id rev_rev_ident)
  moreover have "replicate (length (rev ?z)) CHR ''0'' = rev ?z"
    by (rule replicate_length_same) (auto dest: set_takeWhileD)
  ultimately show ?thesis by (metis (no_types))
qed

lemma dec_val_replicate_zero:
  "dec_val a (replicate k CHR ''0'') = Some (a * 10 ^ k)"
  by (induction k arbitrary: a) simp_all

lemma strip_zeros_pad:
  assumes "0 < w" "q < 10 ^ w"
  obtains f where "dec_val 0 (strip_zeros (pad w q)) = Some f"
    and "length (strip_zeros (pad w q)) \<le> w"
    and "q = f * 10 ^ (w - length (strip_zeros (pad w q)))"
    and "\<And>c. c \<in> set (strip_zeros (pad w q)) \<Longrightarrow> is_digit c"
proof -
  define p where "p = strip_zeros (pad w q)"
  obtain k where k: "pad w q = p @ replicate k CHR ''0''"
    using strip_zeros_split unfolding p_def by blast
  then have len: "length p + k = w"
    using length_pad [OF assms] by simp
  have "dec_val 0 (p @ replicate k CHR ''0'') = Some q"
    using dec_val_pad [of w q] by (simp only: k)
  then obtain f where f: "dec_val 0 p = Some f" "q = f * 10 ^ k"
    by (auto simp: dec_val_append bind_eq_Some_conv dec_val_replicate_zero)
  have d: "is_digit c" if "c \<in> set p" for c
    using that pad_digits [of c w q] by (simp add: k)
  have kw: "k = w - length p" "length p \<le> w" using len by simp_all
  show ?thesis
  proof (rule that [of f], unfold p_def [symmetric])
    show "dec_val 0 p = Some f" "length p \<le> w" "q = f * 10 ^ (w - length p)"
      using f kw by simp_all
    show "is_digit c" if "c \<in> set p" for c using d that .
  qed
qed
section \<open>Durations\<close>

definition micro_sign :: string where
  "micro_sign = [CHR 0xC2, CHR 0xB5]"

text \<open>\<^verbatim>\<open>Duration.String\<close>, on the magnitude of the duration.\<close>

definition dur_body :: "nat \<Rightarrow> string" where
  "dur_body u =
     (if u = 0 then ''0s''
      else if u < microsecond then dec_nat u @ ''ns''
      else if u < millisecond then
        dec_nat (u div microsecond) @ fmtFrac 3 (u mod microsecond) @ micro_sign @ ''s''
      else if u < second_ns then
        dec_nat (u div millisecond) @ fmtFrac 6 (u mod millisecond) @ ''ms''
      else
        (let t = u div second_ns in
         (if t div 60 = 0 then []
          else (if t div 60 div 60 = 0 then [] else dec_nat (t div 60 div 60) @ ''h'')
               @ dec_nat (t div 60 mod 60) @ ''m'')
         @ dec_nat (t mod 60) @ fmtFrac 9 (u mod second_ns) @ ''s''))"

definition durString :: "duration \<Rightarrow> string" where
  "durString d = (if d < 0 then [CHR ''-''] else []) @ dur_body (nat \<bar>d\<bar>)"

text \<open>\<^verbatim>\<open>leadingInt\<close>: the digits in front, \<^const>\<open>None\<close> when they exceed \<open>2 ^ 63\<close>.\<close>

definition leadingInt :: "string \<Rightarrow> (nat \<times> string) option" where
  "leadingInt s =
     (case dec_val 0 (takeWhile is_digit s) of
        None \<Rightarrow> None
      | Some v \<Rightarrow> if v > 2 ^ 63 then None else Some (v, dropWhile is_digit s))"

text \<open>
  \<^verbatim>\<open>leadingFraction\<close> consumes every digit but accumulates only while the value fits;
  the scale (a power of ten, exact as a float64) counts the accumulated digits.
\<close>

fun frac_digits :: "bool \<Rightarrow> nat \<Rightarrow> nat \<Rightarrow> string \<Rightarrow> nat \<times> nat" where
  "frac_digits ovf x scale [] = (x, scale)"
| "frac_digits ovf x scale (c # cs) =
     (let d = (case digit_val c of None \<Rightarrow> 0 | Some d \<Rightarrow> d); y = 10 * x + d in
      if ovf \<or> x > (2 ^ 63 - 1) div 10 \<or> y > 2 ^ 63 then frac_digits True x scale cs
      else frac_digits False y (10 * scale) cs)"

definition leadingFraction :: "string \<Rightarrow> nat \<times> nat \<times> string" where
  "leadingFraction s =
     (let (x, scale) = frac_digits False 0 1 (takeWhile is_digit s)
      in (x, scale, dropWhile is_digit s))"

definition unitMap :: "(string \<times> nat) list" where
  "unitMap =
     [(''ns'', 1), (''us'', microsecond), (micro_sign @ ''s'', microsecond),
      ([CHR 0xCE, CHR 0xBC] @ ''s'', microsecond), (''ms'', millisecond), (''s'', second_ns),
      (''m'', 60000000000), (''h'', 3600000000000)]"

text \<open>\<^verbatim>\<open>uint64(float64(f) * (float64(unit) / scale))\<close>\<close>

definition frac_ns :: "nat \<Rightarrow> nat \<Rightarrow> nat \<Rightarrow> nat" where
  "frac_ns f unit scale =
     nat \<lfloor>round64 (round64 (of_nat f) * round64 (round64 (of_nat unit) / of_nat scale))\<rfloor>"

definition not_unit_char :: "char \<Rightarrow> bool" where
  "not_unit_char c \<longleftrightarrow> c = CHR ''.'' \<or> is_digit c"

text \<open>The optional fraction: its value, its scale, the rest, and whether it had digits.\<close>

definition scan_fraction :: "string \<Rightarrow> nat \<times> nat \<times> string \<times> bool" where
  "scan_fraction s =
     (case s of
        [] \<Rightarrow> (0, 1, s, False)
      | c # r \<Rightarrow>
          if c = CHR ''.'' then
            (let (f, sc, r') = leadingFraction r in (f, sc, r', length r' \<noteq> length r))
          else (0, 1, s, False))"

text \<open>The value of a number in a unit, \<^const>\<open>None\<close> on overflow.\<close>

definition scale_value :: "nat \<Rightarrow> nat \<Rightarrow> nat \<Rightarrow> nat \<Rightarrow> nat option" where
  "scale_value v f scale unit =
     (if v > 2 ^ 63 div unit then None
      else if f > 0 then
        (let v2 = v * unit + frac_ns f unit scale in if v2 > 2 ^ 63 then None else Some v2)
      else Some (v * unit))"

text \<open>One turn of the loop of \<^verbatim>\<open>ParseDuration\<close>: a number, a fraction, a unit.\<close>

definition parse_component :: "string \<Rightarrow> (nat \<times> string) option" where
  "parse_component s =
     (if s = [] \<or> \<not> not_unit_char (hd s) then None
      else case leadingInt s of
        None \<Rightarrow> None
      | Some (v, s1) \<Rightarrow>
          (case scan_fraction s1 of
             (f, scale, s2, post) \<Rightarrow>
               let u = takeWhile (\<lambda>c. \<not> not_unit_char c) s2;
                   s3 = dropWhile (\<lambda>c. \<not> not_unit_char c) s2
               in (if length s1 = length s \<and> \<not> post then None
                   else if u = [] then None
                   else case map_of unitMap u of
                     None \<Rightarrow> None
                   | Some unit \<Rightarrow> map_option (\<lambda>n. (n, s3)) (scale_value v f scale unit))))"

lemma leadingInt_length: "leadingInt s = Some (v, r) \<Longrightarrow> length r \<le> length s"
  by (auto simp: leadingInt_def length_dropWhile_le split: option.splits if_splits)

lemma scan_fraction_length: "scan_fraction s = (f, sc, r, p) \<Longrightarrow> length r \<le> length s"
  by (cases s)
    (auto simp: scan_fraction_def leadingFraction_def le_SucI length_dropWhile_le
      split: prod.splits if_splits)

lemma length_dropWhile_less: "takeWhile P x \<noteq> [] \<Longrightarrow> length (dropWhile P x) < length x"
  by (cases x) (auto simp: length_dropWhile_le less_Suc_eq_le split: if_splits)

lemma parse_component_shorter:
  assumes "parse_component s = Some (v, r)"
  shows "length r < length s"
proof -
  from assms obtain n s1 f sc s2 p where
    "leadingInt s = Some (n, s1)" "scan_fraction s1 = (f, sc, s2, p)"
    "takeWhile (\<lambda>c. \<not> not_unit_char c) s2 \<noteq> []" "r = dropWhile (\<lambda>c. \<not> not_unit_char c) s2"
    by (auto simp: parse_component_def Let_def split: option.splits prod.splits if_splits)
  then show ?thesis
    using leadingInt_length scan_fraction_length length_dropWhile_less
    by (metis le_trans less_le_trans)
qed

function parse_loop :: "nat \<Rightarrow> string \<Rightarrow> nat option" where
  "parse_loop d s =
     (if s = [] then Some d
      else case parse_component s of
        None \<Rightarrow> None
      | Some (v, r) \<Rightarrow>
          let d' = (d + v) mod 2 ^ 64 in if d' > 2 ^ 63 then None else parse_loop d' r)"
  by pat_completeness auto
termination
  by (relation "measure (\<lambda>(d, s). length s)") (auto dest: parse_component_shorter)

declare parse_loop.simps [simp del]

definition parseDuration :: "string \<Rightarrow> duration option" where
  "parseDuration orig =
     (let neg = (orig \<noteq> [] \<and> hd orig = CHR ''-'');
          s = (if orig \<noteq> [] \<and> (hd orig = CHR ''-'' \<or> hd orig = CHR ''+'') then tl orig else orig)
      in if s = ''0'' then Some 0
         else if s = [] then None
         else case parse_loop 0 s of
           None \<Rightarrow> None
         | Some d \<Rightarrow> if neg then Some (wrap64 (- int d))
                     else if d > 2 ^ 63 - 1 then None else Some (int d))"

subsection \<open>Reading back a duration\<close>

lemma takeWhile_append_stop:
  "(\<And>c. c \<in> set a \<Longrightarrow> P c) \<Longrightarrow> r = [] \<or> \<not> P (hd r) \<Longrightarrow>
     takeWhile P (a @ r) = a \<and> dropWhile P (a @ r) = r"
  by (induction a) (auto simp: takeWhile_eq_Nil_iff dropWhile_eq_self_iff)

lemma dec_val_mono: "dec_val x ds = Some f \<Longrightarrow> x \<le> f"
  by (induction ds arbitrary: x) (force split: option.splits)+

lemma frac_digits_exact:
  assumes "dec_val x ds = Some f" "f < 10 ^ 9"
  shows "frac_digits False x sc ds = (f, sc * 10 ^ length ds)"
  using assms
proof (induction ds arbitrary: x sc)
  case (Cons c ds)
  then obtain d where d: "digit_val c = Some d" "dec_val (10 * x + d) ds = Some f"
    by (auto split: option.splits)
  then have "10 * x + d \<le> f" by (blast dest: dec_val_mono)
  with Cons.prems have "10 * x + d < 10 ^ 9" by simp
  with d Cons show ?case by (simp add: Let_def)
qed simp

lemma frac_ns_exact:
  assumes "f < 10 ^ 9" "p \<le> 9" "k \<le> p"
  shows "f * 10 ^ (p - k) < 10 ^ 9 \<Longrightarrow> frac_ns f (10 ^ p) (10 ^ k) = f * 10 ^ (p - k)"
proof -
  assume lt: "f * 10 ^ (p - k) < 10 ^ 9"
  have pow: "(10 :: nat) ^ j < 2 ^ 53" if "j \<le> 9" for j
    using power_increasing [OF that, of "10 :: nat"] by simp
  have "(of_nat (10 ^ p) :: rat) / of_nat (10 ^ k) = of_nat (10 ^ (p - k))"
  proof -
    have "(10 :: nat) ^ p = 10 ^ (p - k) * 10 ^ k"
      using assms(3) by (simp add: power_add [symmetric])
    then show ?thesis by (simp only: of_nat_mult) simp
  qed
  moreover have "round64 (of_nat (10 ^ p)) = of_nat (10 ^ p)"
    by (rule round64_nat) (rule pow [OF assms(2)])
  moreover have "round64 (of_nat (10 ^ (p - k))) = of_nat (10 ^ (p - k))"
    by (rule round64_nat) (rule pow, use assms in simp)
  moreover have "round64 (of_nat f) = of_nat f"
    by (rule round64_nat) (use assms(1) in simp)
  moreover have "round64 (of_nat (f * 10 ^ (p - k))) = of_nat (f * 10 ^ (p - k))"
    by (rule round64_nat) (use lt in simp)
  ultimately show ?thesis
    by (simp only: frac_ns_def of_nat_mult [symmetric] floor_of_nat nat_int)
qed

definition unit_str :: "string \<Rightarrow> bool" where
  "unit_str u \<longleftrightarrow> u \<noteq> [] \<and> list_all (\<lambda>c. \<not> not_unit_char c) u"

definition comp_rest :: "string \<Rightarrow> bool" where
  "comp_rest r \<longleftrightarrow> r = [] \<or> not_unit_char (hd r)"

lemma not_unit_digit: "is_digit c \<Longrightarrow> not_unit_char c"
  by (simp add: not_unit_char_def)

lemma unit_scan:
  assumes "unit_str u" "comp_rest r"
  shows "takeWhile (\<lambda>c. \<not> not_unit_char c) (u @ r) = u"
    "dropWhile (\<lambda>c. \<not> not_unit_char c) (u @ r) = r"
  using assms takeWhile_append_stop [of u "\<lambda>c. \<not> not_unit_char c" r]
  by (auto simp: unit_str_def comp_rest_def list_all_iff)

lemma digit_scan:
  assumes "\<And>c. c \<in> set ds \<Longrightarrow> is_digit c" "r \<noteq> []" "\<not> is_digit (hd r)"
  shows "takeWhile is_digit (ds @ r) = ds" "dropWhile is_digit (ds @ r) = r"
  using assms takeWhile_append_stop [of ds is_digit r] by auto

lemma leadingInt_dec_nat:
  assumes "v \<le> 2 ^ 63" "r \<noteq> []" "\<not> is_digit (hd r)"
  shows "leadingInt (dec_nat v @ r) = Some (v, r)"
  using assms digit_scan [of "dec_nat v" r] by (simp add: leadingInt_def dec_nat_digits)

lemma hd_dec_nat_unit: "not_unit_char (hd (dec_nat v @ r))"
  using dec_nat_digits [of "hd (dec_nat v)" v] by (simp add: not_unit_digit)

lemma unit_hd: "unit_str u \<Longrightarrow> u \<noteq> [] \<and> \<not> not_unit_char (hd (u @ r))"
  by (cases u) (auto simp: unit_str_def)

lemma scale_value_exact: "0 < U \<Longrightarrow> v * U \<le> 2 ^ 63 \<Longrightarrow> scale_value v 0 sc U = Some (v * U)"
  by (simp add: scale_value_def not_less less_eq_div_iff_mult_less_eq)

lemma parse_component_int:
  assumes u: "unit_str u" "map_of unitMap u = Some U" "0 < U"
    and v: "v * U \<le> 2 ^ 63" and r: "comp_rest r"
  shows "parse_component (dec_nat v @ u @ r) = Some (v * U, r)"
proof -
  have hd: "u @ r \<noteq> []" "\<not> not_unit_char (hd (u @ r))"
    using unit_hd [OF u(1), of r] by auto
  then have nd: "\<not> is_digit (hd (u @ r))" "hd (u @ r) \<noteq> CHR ''.''"
    by (auto simp: not_unit_char_def)
  have "v \<le> v * U" using u(3) by simp
  with v have "v \<le> 2 ^ 63" by linarith
  then have "leadingInt (dec_nat v @ u @ r) = Some (v, u @ r)"
    using hd nd by (intro leadingInt_dec_nat)
  moreover have "scan_fraction (u @ r) = (0, 1, u @ r, False)"
    using hd nd by (cases "u @ r") (auto simp: scan_fraction_def)
  moreover have "u \<noteq> []" using u(1) by (simp add: unit_str_def)
  ultimately show ?thesis
    using u v r hd_dec_nat_unit [of v "u @ r"]
    by (simp add: parse_component_def unit_scan scale_value_exact)
qed

lemma parse_component_frac:
  assumes u: "unit_str u" "map_of unitMap u = Some (10 ^ p)" and p: "0 < p" "p \<le> 9"
    and q: "q < 10 ^ p" and v: "v * 10 ^ p + q \<le> 2 ^ 63" and r: "comp_rest r"
  shows "parse_component (dec_nat v @ fmtFrac p q @ u @ r) = Some (v * 10 ^ p + q, r)"
proof (cases "q = 0")
  case True
  with parse_component_int [OF u _ _ r] v show ?thesis by (simp add: fmtFrac_def)
next
  case False
  define ds where "ds = strip_zeros (pad p q)"
  obtain f where f: "dec_val 0 ds = Some f" "length ds \<le> p" "q = f * 10 ^ (p - length ds)"
      "\<And>c. c \<in> set ds \<Longrightarrow> is_digit c"
    using strip_zeros_pad [OF p(1) q] unfolding ds_def by metis
  have "(10 :: nat) ^ p \<le> 10 ^ 9" using p(2) by (rule power_increasing) simp
  with q have q9: "q < 10 ^ 9" by linarith
  have fq: "f \<le> q" using f(3) by simp
  with q9 have f9: "f < 10 ^ 9" by linarith
  have f0: "0 < f" using False f(3) by (cases f) auto
  have ds0: "ds \<noteq> []" using f0 f(1) by auto
  have hd: "u @ r \<noteq> []" "\<not> is_digit (hd (u @ r))"
    using unit_hd [OF u(1), of r] by (auto simp: not_unit_char_def)
  have "takeWhile is_digit (ds @ u @ r) = ds" "dropWhile is_digit (ds @ u @ r) = u @ r"
    using digit_scan [of ds "u @ r"] f(4) hd by auto
  then have lf: "leadingFraction (ds @ u @ r) = (f, 10 ^ length ds, u @ r)"
    using frac_digits_exact [OF f(1) f9, of 1] by (simp add: leadingFraction_def)
  have li: "leadingInt (dec_nat v @ CHR ''.'' # ds @ u @ r) = Some (v, CHR ''.'' # ds @ u @ r)"
  proof (rule leadingInt_dec_nat)
    have "v \<le> v * 10 ^ p" by simp
    with v show "v \<le> 2 ^ 63" by linarith
  qed simp_all
  have "frac_ns f (10 ^ p) (10 ^ length ds) = q"
    using frac_ns_exact [OF f9 p(2) f(2)] f(3) q9 by simp
  moreover have "v \<le> 2 ^ 63 div 10 ^ p"
    using v by (simp add: less_eq_div_iff_mult_less_eq)
  ultimately have sv: "scale_value v f (10 ^ length ds) (10 ^ p) = Some (v * 10 ^ p + q)"
    using f0 v by (simp add: scale_value_def)
  have "u \<noteq> []" using u(1) by (simp add: unit_str_def)
  with li lf sv ds0 u r False hd_dec_nat_unit [of v "CHR ''.'' # ds @ u @ r"] show ?thesis
    by (simp add: parse_component_def fmtFrac_def ds_def [symmetric] scan_fraction_def unit_scan)
qed

lemma parse_loop_step:
  "parse_component s = Some (v, r) \<Longrightarrow> d + v \<le> 2 ^ 63 \<Longrightarrow> parse_loop d s = parse_loop (d + v) r"
  by (subst parse_loop.simps) (auto simp: parse_component_def)

lemma parse_loop_Nil [simp]: "parse_loop d [] = Some d"
  by (simp add: parse_loop.simps)

lemma unit_table:
  "unit_str ''ns''" "unit_str (micro_sign @ ''s'')" "unit_str ''ms''" "unit_str ''s''"
  "unit_str ''m''" "unit_str ''h''"
  "map_of unitMap ''ns'' = Some 1" "map_of unitMap (micro_sign @ ''s'') = Some (10 ^ 3)"
  "map_of unitMap ''ms'' = Some (10 ^ 6)" "map_of unitMap ''s'' = Some (10 ^ 9)"
  "map_of unitMap ''m'' = Some 60000000000" "map_of unitMap ''h'' = Some 3600000000000"
  by (simp_all add: unit_str_def unitMap_def micro_sign_def not_unit_char_def
      is_digit_def digit_val_def)

lemma comp_rest_dec_nat [simp]: "comp_rest (dec_nat v @ r)" "comp_rest []"
  using hd_dec_nat_unit [of v r] by (simp_all add: comp_rest_def)

text \<open>Hours, minutes and seconds of a count of nanoseconds.\<close>

lemma hms_split:
  fixes u :: nat
  defines "t \<equiv> u div second_ns"
  shows "t div 60 div 60 * 3600000000000 + t div 60 mod 60 * 60000000000 + (t mod 60 * second_ns + u mod second_ns) = u"
proof -
  have "t = t div 60 * 60 + t mod 60" "t div 60 = t div 60 div 60 * 60 + t div 60 mod 60"
    by presburger+
  moreover have "u = t * second_ns + u mod second_ns" unfolding t_def by presburger
  ultimately show ?thesis by linarith
qed

lemma dec_nat_0: "dec_nat 0 = ''0''"
  by code_simp

lemma parse_loop_seconds:
  assumes "second_ns \<le> u" "u \<le> 2 ^ 63"
  shows "parse_loop 0 (dur_body u) = Some u"
proof -
  define t where "t = u div second_ns"
  define H where "H = t div 60 div 60"
  define M where "M = t div 60 mod 60"
  define S where "S = t mod 60 * 10 ^ 9 + u mod second_ns"
  define ss where "ss = dec_nat (t mod 60) @ fmtFrac 9 (u mod second_ns) @ ''s'' @ []"
  have sum: "H * 3600000000000 + M * 60000000000 + S = u"
    unfolding H_def M_def S_def t_def using hms_split [of u] by simp
  have "u mod second_ns < 10 ^ 9" by simp
  moreover have "S \<le> 2 ^ 63" using sum assms(2) by linarith
  ultimately have "parse_component ss = Some (S, [])"
    unfolding ss_def S_def by (intro parse_component_frac unit_table) simp_all
  then have ls: "parse_loop d ss = Some (d + S)" if "d + S \<le> 2 ^ 63" for d
    using parse_loop_step [of ss S "[]" d] that by simp
  have "parse_component (dec_nat M @ ''m'' @ ss) = Some (M * 60000000000, ss)"
    using sum assms(2) by (intro parse_component_int unit_table) (simp_all add: ss_def)
  then have lm: "parse_loop d (dec_nat M @ ''m'' @ ss) = Some (d + M * 60000000000 + S)"
    if "d + M * 60000000000 + S \<le> 2 ^ 63" for d
    using parse_loop_step ls [of "d + M * 60000000000"] that by auto
  have "parse_component (dec_nat H @ ''h'' @ dec_nat M @ ''m'' @ ss)
      = Some (H * 3600000000000, dec_nat M @ ''m'' @ ss)"
    using sum assms(2) by (intro parse_component_int unit_table) simp_all
  then have lh: "parse_loop 0 (dec_nat H @ ''h'' @ dec_nat M @ ''m'' @ ss) = Some u"
    using parse_loop_step lm [of "H * 3600000000000"] sum assms(2) by auto
  have body: "dur_body u = (if t div 60 = 0 then [] else (if H = 0 then [] else dec_nat H @ ''h'')
      @ dec_nat M @ ''m'') @ ss"
    using assms(1) by (simp add: dur_body_def Let_def t_def H_def M_def ss_def)
  show ?thesis
  proof (cases "t div 60 = 0")
    case True
    then have "H = 0" "M = 0" by (simp_all add: H_def M_def)
    with sum have "S = u" by simp
    with True body ls [of 0] assms(2) show ?thesis by simp
  next
    case False
    show ?thesis
    proof (cases "H = 0")
      case True
      with sum body lm [of 0] False assms(2) show ?thesis by simp
    next
      case H: False
      with False body lh show ?thesis by simp
    qed
  qed
qed

lemma parse_loop_dur_body: "u \<le> 2 ^ 63 \<Longrightarrow> parse_loop 0 (dur_body u) = Some u"
proof -
  assume u: "u \<le> 2 ^ 63"
  have one: "parse_loop 0 s = Some u" if "parse_component s = Some (u, [])" for s
    using parse_loop_step [OF that, of 0] u by simp
  consider "u = 0" | "0 < u" "u < microsecond" | "microsecond \<le> u" "u < millisecond"
    | "millisecond \<le> u" "u < second_ns" | "second_ns \<le> u" by linarith
  then show ?thesis
  proof cases
    case 1
    have "parse_component (dec_nat 0 @ ''s'' @ []) = Some (0 * 10 ^ 9, [])"
      by (rule parse_component_int) (simp_all add: unit_table)
    with 1 one show ?thesis by (simp add: dur_body_def dec_nat_0)
  next
    case 2
    have "parse_component (dec_nat u @ ''ns'' @ []) = Some (u * 1, [])"
      using u by (intro parse_component_int) (simp_all add: unit_table)
    with 2 one show ?thesis by (simp add: dur_body_def)
  next
    case 3
    have "u mod microsecond < 10 ^ 3" "u div microsecond * 10 ^ 3 + u mod microsecond \<le> 2 ^ 63"
      using u by simp_all
    then have "parse_component (dec_nat (u div microsecond) @ fmtFrac 3 (u mod microsecond)
        @ (micro_sign @ ''s'') @ []) = Some (u div microsecond * 10 ^ 3 + u mod microsecond, [])"
      by (intro parse_component_frac unit_table) simp_all
    with 3 one show ?thesis by (simp add: dur_body_def)
  next
    case 4
    have "u mod millisecond < 10 ^ 6" "u div millisecond * 10 ^ 6 + u mod millisecond \<le> 2 ^ 63"
      using u by simp_all
    then have "parse_component (dec_nat (u div millisecond) @ fmtFrac 6 (u mod millisecond)
        @ ''ms'' @ []) = Some (u div millisecond * 10 ^ 6 + u mod millisecond, [])"
      by (intro parse_component_frac unit_table) simp_all
    with 4 one show ?thesis by (simp add: dur_body_def)
  next
    case 5
    with u show ?thesis by (simp add: parse_loop_seconds)
  qed
qed

lemma dur_body_ends: "\<exists>b. dur_body u = b @ ''s''"
  by (auto simp: dur_body_def Let_def)

lemma dur_body_begins: "is_digit (hd (dur_body u))"
proof -
  have d: "is_digit (hd (dec_nat v @ r))" for v r
    using dec_nat_digits [of "hd (dec_nat v)" v] by simp
  have "is_digit CHR ''0''" by (simp add: is_digit_def)
  with d show ?thesis by (simp add: dur_body_def Let_def)
qed

lemma parseDuration_durString: "in_int64 d \<Longrightarrow> parseDuration (durString d) = Some d"
proof -
  assume d: "in_int64 d"
  define u where "u = nat \<bar>d\<bar>"
  have u: "u \<le> 2 ^ 63" using d by (auto simp: u_def in_int64_def)
  have nz: "dur_body u \<noteq> ''0''" "dur_body u \<noteq> []"
    using dur_body_ends [of u] by auto
  have hd: "hd (dur_body u) \<noteq> CHR ''-''" "hd (dur_body u) \<noteq> CHR ''+''"
    using dur_body_begins [of u] by auto
  show ?thesis
  proof (cases "d < 0")
    case True
    then have "- int u = d" "nat (- d) = u" by (simp_all add: u_def)
    with True d nz parse_loop_dur_body [OF u] show ?thesis
      by (simp add: parseDuration_def durString_def)
  next
    case False
    then have "int u = d" "u \<le> 2 ^ 63 - 1" "nat d = u" using d by (auto simp: u_def in_int64_def)
    with False nz hd parse_loop_dur_body [OF u] show ?thesis
      by (simp add: parseDuration_def durString_def)
  qed
qed

interpretation duration: codec durString parseDuration in_int64
  by unfold_locales (rule parseDuration_durString)

section \<open>Instants\<close>

text \<open>The zero \<^verbatim>\<open>time.Time\<close> is 1 January of year 1.\<close>

definition zero_time :: instant where
  "zero_time = - 62135596800000000000"

definition isZero :: "instant \<Rightarrow> bool" where
  "isZero t \<longleftrightarrow> t = zero_time"

text \<open>\<^verbatim>\<open>t.Sub(u)\<close> saturates at the bounds of a duration.\<close>

definition time_sub :: "instant \<Rightarrow> instant \<Rightarrow> duration" where
  "time_sub t u = max (- (2 ^ 63)) (min (2 ^ 63 - 1) (t - u))"

end
