(* ===== verification/Preview_Token.thy ===== *)
theory Preview_Token
  imports Ob_Errors Go_Crypto Go_Time
begin

text \<open>
  Package \<^verbatim>\<open>pkg/preview\<close>, \<^verbatim>\<open>token.go\<close>: minting and checking the bearer credential of a
  preview. A token is \<open>ob1.<port>:<expiry>:<nonce>.<mac>\<close>; its MAC covers the sandbox name,
  which is not in the token. The lemmas show that a minted token is accepted exactly for
  its own sandbox and port until it expires, and that moving its MAC anywhere else needs
  a collision of HMAC-SHA256.
\<close>

section \<open>Minting and checking\<close>

definition MinKeyBytes :: nat where "MinKeyBytes = 32"
definition MaxTTL :: duration where "MaxTTL = hours 24"
definition tokenVersion :: string where "tokenVersion = ''ob1''"
definition domainSeparator :: string where "domainSeparator = ''openblox-preview-v1''"
definition nonceBytes :: nat where "nonceBytes = 16"

record Signer =
  sg_key :: string

definition NewSigner :: "string \<Rightarrow> Signer result" where
  "NewSigner key =
     (if length key < MinKeyBytes
      then Inl (errorsNew ''preview signing key is %d bytes, need at least %d'')
      else Inr \<lparr> sg_key = key \<rparr>)"

text \<open>The bytes the MAC is computed over: every part followed by a NUL.\<close>

definition mac_input :: "string \<Rightarrow> string \<Rightarrow> string" where
  "mac_input sandboxName payload =
     concat (map (\<lambda>part. part @ [CHR 0x00]) [domainSeparator, sandboxName, payload])"

definition mac :: "Signer \<Rightarrow> string \<Rightarrow> string \<Rightarrow> string" where
  "mac s sandboxName payload = hmac_sha256 (sg_key s) (mac_input sandboxName payload)"

definition encode :: "string \<Rightarrow> string" where
  "encode b = b64encode b"

text \<open>\<^verbatim>\<open>UnixNano\<close> of an instant outside the range of an int64 wraps around.\<close>

definition unixNano :: "instant \<Rightarrow> int" where
  "unixNano t = wrap64 t"

definition token_payload :: "int \<Rightarrow> instant \<Rightarrow> string \<Rightarrow> string" where
  "token_payload port expiresAt nonce =
     itoa port @ '':'' @ itoa (unixNano expiresAt) @ '':'' @ encode nonce"

text \<open>The nonce is what \<^verbatim>\<open>rand.Read\<close> delivered, \<^const>\<open>None\<close> when it failed.\<close>

definition Sign :: "Signer \<Rightarrow> string \<Rightarrow> int \<Rightarrow> instant \<Rightarrow> string option \<Rightarrow> string result" where
  "Sign s sandboxName port expiresAt rand_read =
     (if sandboxName = [] then Inl (errorsNew ''preview token needs a sandbox name'')
      else if port < 1 \<or> port > 65535 then Inl (errorsNew ''preview port %d is out of range'')
      else case rand_read of
             None \<Rightarrow> Inl (wrapErr ''generate preview nonce: %w'' (LibraryErr ''rand''))
           | Some nonce \<Rightarrow>
               (let payload = token_payload port expiresAt nonce
                in Inr (tokenVersion @ ''.'' @ payload @ ''.'' @ encode (mac s sandboxName payload))))"

definition split :: "string \<Rightarrow> (string \<times> string \<times> string) option" where
  "split token =
     (case split_on CHR ''.'' token of
        [version, payload, m] \<Rightarrow>
          (case b64decode m of None \<Rightarrow> None | Some mc \<Rightarrow> Some (version, payload, mc))
      | _ \<Rightarrow> None)"

definition parsePayload :: "string \<Rightarrow> (int \<times> instant) option" where
  "parsePayload payload =
     (case split_on CHR '':'' payload of
        [p, n, _] \<Rightarrow>
          (case atoi p of
             None \<Rightarrow> None
           | Some port \<Rightarrow>
               (case parseInt64 n of None \<Rightarrow> None | Some nanos \<Rightarrow> Some (port, nanos)))
      | _ \<Rightarrow> None)"

definition Verify :: "Signer \<Rightarrow> string \<Rightarrow> string \<Rightarrow> int \<Rightarrow> instant \<Rightarrow> gerr option" where
  "Verify s token sandboxName port now =
     (case split token of
        None \<Rightarrow> Some (Sentinel ErrInvalidToken)
      | Some (version, payload, m) \<Rightarrow>
          if version \<noteq> tokenVersion then Some (Sentinel ErrInvalidToken)
          else if m \<noteq> mac s sandboxName payload then Some (Sentinel ErrInvalidToken)
          else case parsePayload payload of
                 None \<Rightarrow> Some (Sentinel ErrInvalidToken)
               | Some (tokenPort, expiresAt) \<Rightarrow>
                   if tokenPort \<noteq> port then Some (Sentinel ErrInvalidToken)
                   else if \<not> now < expiresAt then Some (Sentinel ErrInvalidToken)
                   else None)"

definition ExpiresAt :: "string \<Rightarrow> instant option" where
  "ExpiresAt token =
     (case split token of
        None \<Rightarrow> None
      | Some (_, payload, _) \<Rightarrow>
          (case parsePayload payload of None \<Rightarrow> None | Some (_, expiresAt) \<Rightarrow> Some expiresAt))"

definition ClampTTL :: "duration \<Rightarrow> duration \<Rightarrow> duration" where
  "ClampTTL ttl fallback =
     (let ttl = (if ttl \<le> 0 then fallback else ttl) in if ttl > MaxTTL then MaxTTL else ttl)"

section \<open>The shape of a minted token\<close>

lemma length_mac [simp]: "length (mac s name p) = 32"
  by (simp add: mac_def)

lemma in_int64_port: "1 \<le> port \<Longrightarrow> port \<le> 65535 \<Longrightarrow> in_int64 port"
  by (simp add: in_int64_def)

lemma payload_chars:
  assumes "c \<in> set (token_payload port e nonce)"
  shows "c \<noteq> CHR ''.''" "c \<noteq> CHR 0x00"
  using assms by (auto simp: token_payload_def encode_def dest: itoa_chars b64encode_not_special)

lemma parsePayload_token_payload:
  assumes "in_int64 port"
  shows "parsePayload (token_payload port e nonce) = Some (port, unixNano e)"
proof -
  have "CHR '':'' \<notin> set (itoa port)" "CHR '':'' \<notin> set (itoa (unixNano e))" "CHR '':'' \<notin> set (b64encode nonce)"
    by (auto dest: itoa_chars b64encode_not_special)
  then have "split_on CHR '':'' (token_payload port e nonce) = [itoa port, itoa (unixNano e), b64encode nonce]"
    by (simp add: token_payload_def encode_def split_on_append split_on_notin)
  then show ?thesis
    using assms by (simp add: parsePayload_def atoi_def parseInt64_itoa unixNano_def)
qed

lemma tokenVersion_no_dot: "CHR ''.'' \<notin> set tokenVersion"
  by (simp add: tokenVersion_def)

lemma split_token:
  assumes "CHR ''.'' \<notin> set payload" "CHR ''.'' \<notin> set m"
  shows "split (tokenVersion @ ''.'' @ payload @ ''.'' @ m) =
     (case b64decode m of None \<Rightarrow> None | Some mc \<Rightarrow> Some (tokenVersion, payload, mc))"
  using assms tokenVersion_no_dot by (simp add: split_def split_on_append split_on_notin)

lemma split_SomeD:
  assumes "split token = Some (v, payload, mc)"
  obtains m where "token = v @ ''.'' @ payload @ ''.'' @ m" "b64decode m = Some mc"
    "CHR ''.'' \<notin> set payload" "CHR ''.'' \<notin> set m"
proof -
  from assms obtain m where sp: "split_on CHR ''.'' token = [v, payload, m]" "b64decode m = Some mc"
    by (auto simp: split_def split: list.splits option.splits)
  then have "token = v @ ''.'' @ payload @ ''.'' @ m"
    using unsplit_split_on [OF sp(1)] by simp
  moreover have "CHR ''.'' \<notin> set payload" "CHR ''.'' \<notin> set m"
    using split_on_elem_notin [of _ "CHR ''.''" token] by (simp_all add: sp(1))
  ultimately show thesis using that sp(2) by blast
qed

lemma Sign_Inr_iff:
  "Sign s name port e rd = Inr tok \<longleftrightarrow>
     (\<exists>nonce. rd = Some nonce \<and> name \<noteq> [] \<and> 1 \<le> port \<and> port \<le> 65535 \<and>
        tok = tokenVersion @ ''.'' @ token_payload port e nonce @ ''.'' @
              b64encode (mac s name (token_payload port e nonce)))"
  by (auto simp: Sign_def Let_def encode_def split: option.splits if_splits)

lemma split_signed:
  assumes "Sign s name port e rd = Inr tok"
  obtains nonce where "rd = Some nonce" "name \<noteq> []" "1 \<le> port" "port \<le> 65535"
    "split tok = Some (tokenVersion, token_payload port e nonce, mac s name (token_payload port e nonce))"
proof -
  from assms obtain nonce where n: "rd = Some nonce" "name \<noteq> []" "1 \<le> port" "port \<le> 65535"
    "tok = tokenVersion @ ''.'' @ token_payload port e nonce @ ''.'' @
       b64encode (mac s name (token_payload port e nonce))"
    by (auto simp: Sign_Inr_iff)
  have "CHR ''.'' \<notin> set (token_payload port e nonce)"
    "CHR ''.'' \<notin> set (b64encode (mac s name (token_payload port e nonce)))"
    by (auto dest: payload_chars b64encode_not_special)
  then have "split tok = Some (tokenVersion, token_payload port e nonce, mac s name (token_payload port e nonce))"
    unfolding n(5) by (subst split_token) (simp_all add: b64decode_encode)
  with n that show thesis by blast
qed

section \<open>What the MAC binds\<close>

lemma mac_input_eq_iff:
  "mac_input n p = mac_input n' p' \<longleftrightarrow> n @ CHR 0x00 # p = n' @ CHR 0x00 # p'"
  by (simp add: mac_input_def)

lemma mac_input_name: "mac_input n p = mac_input n' p \<Longrightarrow> n = n'"
  by (simp add: mac_input_eq_iff)

text \<open>
  The separator may occur in a name, so two pairs can share a MAC input; but not a pair
  that was signed and a different pair whose payload parses.
\<close>

lemma parsePayload_colons:
  assumes "parsePayload p = Some (port, e)"
  obtains a b c where "split_on CHR '':'' p = [a, b, c]" "parseInt64 a = Some port" "parseInt64 b = Some e"
  using assms by (auto simp: parsePayload_def atoi_def split: list.splits option.splits)

lemma parsePayload_prefix:
  assumes "parsePayload (x @ CHR 0x00 # p) = Some r" "parsePayload p = Some r'"
  shows False
proof -
  obtain port e port' e' where r: "r = (port, e)" "r' = (port', e')" by force
  let ?c = "CHR '':''"
  obtain a b c where p': "split_on ?c (x @ CHR 0x00 # p) = [a, b, c]" "parseInt64 a = Some port"
    using parsePayload_colons assms(1) unfolding r by blast
  obtain d f g where p: "split_on ?c p = [d, f, g]"
    using parsePayload_colons assms(2) unfolding r by blast
  have "count_list (x @ CHR 0x00 # p) ?c = 2" "count_list p ?c = 2"
    using length_split_on [of ?c p] length_split_on [of ?c "x @ CHR 0x00 # p"] unfolding p p'(1) by simp_all
  then have x: "?c \<notin> set x" by (simp add: count_list_0_iff)
  have "p = d @ ?c # f @ ?c # g" using unsplit_split_on [OF p] by simp
  moreover have "?c \<notin> set d" using split_on_elem_notin [of d ?c p] by (simp add: p)
  ultimately have "a = x @ CHR 0x00 # d"
    using p'(1) x split_on_append [of ?c "x @ CHR 0x00 # d" "f @ ?c # g"] by simp
  then have "CHR 0x00 \<in> set a" by simp
  with parseInt64_chars [OF p'(2)] show False by force
qed

lemma mac_input_issued:
  assumes "mac_input n p = mac_input n' p'" "CHR 0x00 \<notin> set p"
    and "parsePayload p = Some r" "parsePayload p' = Some r'"
  shows "n = n' \<and> p = p'"
proof (cases "CHR 0x00 \<in> set p'")
  case True
  then obtain x y where xy: "p' = x @ CHR 0x00 # y" "CHR 0x00 \<notin> set y"
    using split_list_last by metis
  have "rev p @ CHR 0x00 # rev n = rev y @ CHR 0x00 # rev (n' @ CHR 0x00 # x)"
    using arg_cong [OF assms(1) [unfolded mac_input_eq_iff], of rev] by (simp add: xy)
  then have "p = y" using sep_append_unique [of "CHR 0x00" "rev p" "rev y"] assms(2) xy(2) by simp
  with parsePayload_prefix [of x p r' r] xy assms(3,4) show ?thesis by simp
next
  case False
  have "rev p @ CHR 0x00 # rev n = rev p' @ CHR 0x00 # rev n'"
    using arg_cong [OF assms(1) [unfolded mac_input_eq_iff], of rev] by simp
  from sep_append_unique [OF _ _ this] assms(2) False show ?thesis by simp
qed

lemma Verify_None_iff:
  "Verify s tok name port now = None \<longleftrightarrow>
     (\<exists>payload e. split tok = Some (tokenVersion, payload, mac s name payload) \<and>
        parsePayload payload = Some (port, e) \<and> now < e)"
  by (auto simp: Verify_def split: option.splits if_splits)

text \<open>Two given messages that share a MAC.\<close>

definition hmac_collision :: "string \<Rightarrow> string \<Rightarrow> string \<Rightarrow> bool" where
  "hmac_collision key m m' \<longleftrightarrow> m \<noteq> m' \<and> hmac_sha256 key m = hmac_sha256 key m'"

section \<open>Properties\<close>

text \<open>A signer and a token it mints, for the instances below.\<close>

definition demo_signer :: Signer where
  "demo_signer = \<lparr> sg_key = replicate 32 CHR ''k'' \<rparr>"

definition demo_token :: string where
  "demo_token =
     (let p = token_payload 80 2000 (replicate 16 CHR ''n'')
      in tokenVersion @ ''.'' @ p @ ''.'' @ b64encode (mac demo_signer ''box'' p))"

lemma Sign_demo_token:
  "Sign demo_signer ''box'' 80 2000 (Some (replicate 16 CHR ''n'')) = Inr demo_token"
  by (simp add: Sign_Inr_iff demo_token_def Let_def)

lemma split_demo_token:
  "\<exists>p. split demo_token = Some (tokenVersion, p, mac demo_signer ''box'' p) \<and> parsePayload p = Some (80, 2000)"
  by (rule split_signed [OF Sign_demo_token])
    (simp add: parsePayload_token_payload in_int64_port unixNano_def wrap64_def)

lemma Verify_demo_token: "Verify demo_signer demo_token ''box'' 80 1999 = None"
  using split_demo_token by (auto simp: Verify_None_iff)


text \<open>
  C9: a minted token is accepted for the sandbox it names at exactly the port it was
  minted for, and exactly before its expiry.
\<close>

theorem Sign_Verify:
  assumes "Sign s name port expiresAt rand_read = Inr token"
  shows "Verify s token name port' now = None \<longleftrightarrow> port' = port \<and> now < unixNano expiresAt"
  using assms
proof (rule split_signed)
  fix nonce
  assume "1 \<le> port" "port \<le> 65535"
    and sp: "split token = Some (tokenVersion, token_payload port expiresAt nonce,
      mac s name (token_payload port expiresAt nonce))"
  then have "parsePayload (token_payload port expiresAt nonce) = Some (port, unixNano expiresAt)"
    by (simp add: parsePayload_token_payload in_int64_port)
  with sp show ?thesis by (auto simp: Verify_None_iff)
qed

theorem Sign_Verify_witness:
  "Sign demo_signer ''box'' 80 2000 (Some (replicate 16 CHR ''n'')) = Inr demo_token \<and>
   Verify demo_signer demo_token ''box'' 80 1999 = None \<and>
   Verify demo_signer demo_token ''box'' 80 2000 \<noteq> None \<and>
   Verify demo_signer demo_token ''box'' 81 1999 \<noteq> None"
  using Sign_Verify [OF Sign_demo_token] Sign_demo_token by (simp add: unixNano_def wrap64_def)

text \<open>
  C10: a MAC that was minted for one sandbox authorises nothing else. If any token that
  carries the MAC of a minted token is accepted, it is accepted for the same sandbox and
  port and before the same expiry, or the two messages the MAC was computed over are
  different and collide under HMAC-SHA256.
\<close>

theorem Verify_transplanted_mac:
  assumes "Sign s name port expiresAt rand_read = Inr token"
    and "split token = Some (v, payload, m)" and "split token' = Some (v', payload', m)"
    and "Verify s token' name' port' now = None"
  shows "name' = name \<and> port' = port \<and> payload' = payload \<and> now < unixNano expiresAt
    \<or> hmac_collision (sg_key s) (mac_input name payload) (mac_input name' payload')"
  using assms(1)
proof (rule split_signed)
  fix nonce
  let ?p = "token_payload port expiresAt nonce"
  assume p: "1 \<le> port" "port \<le> 65535" and sp: "split token = Some (tokenVersion, ?p, mac s name ?p)"
  have pp: "parsePayload ?p = Some (port, unixNano expiresAt)"
    by (simp add: parsePayload_token_payload in_int64_port p)
  have m: "m = mac s name ?p" and pl: "payload = ?p" using sp assms(2) by simp_all
  from assms(3,4) obtain e where v: "m = mac s name' payload'" "parsePayload payload' = Some (port', e)" "now < e"
    by (auto simp: Verify_None_iff)
  show ?thesis
  proof (cases "mac_input name ?p = mac_input name' payload'")
    case True
    then have "name = name' \<and> ?p = payload'"
      using mac_input_issued [OF _ _ pp v(2)] payload_chars(2) by blast
    with v(2,3) pp pl show ?thesis by auto
  next
    case False
    with m v(1) pl show ?thesis by (simp add: hmac_collision_def mac_def)
  qed
qed

theorem Verify_transplanted_mac_witness:
  "\<exists>payload m. split demo_token = Some (tokenVersion, payload, m) \<and>
     Verify demo_signer demo_token ''box'' 80 1999 = None \<and>
     (1999 < unixNano 2000 \<or>
      hmac_collision (sg_key demo_signer) (mac_input ''box'' payload) (mac_input ''box'' payload))"
proof -
  obtain payload m where sp: "split demo_token = Some (tokenVersion, payload, m)"
    using split_demo_token by blast
  with Verify_transplanted_mac [OF Sign_demo_token sp sp Verify_demo_token] Verify_demo_token
  show ?thesis by blast
qed

text \<open>
  Expiry is final. The expiry read from an accepted token bounds its acceptance, and
  from that instant on the token is refused for every sandbox and port.
\<close>

theorem Verify_expiry_final:
  assumes "Verify s token name port now = None"
  shows "\<exists>e. ExpiresAt token = Some e \<and> now < e \<and>
    (\<forall>now' name' port'. e \<le> now' \<longrightarrow> Verify s token name' port' now' = Some (Sentinel ErrInvalidToken))"
  using assms by (auto simp: Verify_def ExpiresAt_def split: option.splits if_splits)

theorem Verify_expiry_final_witness:
  "\<exists>e. ExpiresAt demo_token = Some e \<and> 1999 < e \<and>
     (\<forall>now' name' port'. e \<le> now' \<longrightarrow>
        Verify demo_signer demo_token name' port' now' = Some (Sentinel ErrInvalidToken))"
  by (rule Verify_expiry_final [OF Verify_demo_token])

text \<open>
  C31: the lifetime of a preview is positive and at most a day, whatever is asked for.
\<close>

theorem ClampTTL_bounds:
  assumes "0 < fallback"
  shows "0 < ClampTTL ttl fallback \<and> ClampTTL ttl fallback \<le> MaxTTL"
  using assms by (simp add: ClampTTL_def Let_def MaxTTL_def hours_def)

theorem ClampTTL_bounds_witness:
  "0 < ClampTTL (hours 100) (minutes 10) \<and> ClampTTL (hours 100) (minutes 10) \<le> MaxTTL"
  by (rule ClampTTL_bounds) (simp add: minutes_def)

end
