(* ===== verification/Preview_Proxy.thy ===== *)
theory Preview_Proxy
  imports Preview_Token
begin

text \<open>
  Package \<^verbatim>\<open>pkg/preview\<close>, \<^verbatim>\<open>proxy.go\<close>: the handler that authenticates a preview request and
  forwards it into a sandbox, its revocation set, its routes, and the connection pool
  below it. A response is either written by the handler itself or is what the sandbox
  answers to the outgoing request.
\<close>

section \<open>Headers and paths of net/http\<close>

type_synonym header = "(string \<times> string list) list"

definition headerGet :: "header \<Rightarrow> string \<Rightarrow> string" where
  "headerGet h k = (case map_of h k of Some (v # _) \<Rightarrow> v | _ \<Rightarrow> [])"

definition headerDel :: "string \<Rightarrow> header \<Rightarrow> header" where
  "headerDel k h = mdel k h"

definition headerValues :: "header \<Rightarrow> string \<Rightarrow> string list" where
  "headerValues h k = (case map_of h k of None \<Rightarrow> [] | Some vs \<Rightarrow> vs)"

definition headerSet :: "string \<Rightarrow> string \<Rightarrow> header \<Rightarrow> header" where
  "headerSet k v h = mput k [v] h"

text \<open>The canonical form of a header name: upper case at the start and after a dash.\<close>

definition upperc :: "char \<Rightarrow> char" where
  "upperc c = (let n = byte c in if 97 \<le> n \<and> n \<le> 122 then char_of (n - 32) else c)"

definition lowerc :: "char \<Rightarrow> char" where
  "lowerc c = (let n = byte c in if 65 \<le> n \<and> n \<le> 90 then char_of (n + 32) else c)"

fun canonFrom :: "bool \<Rightarrow> string \<Rightarrow> string" where
  "canonFrom up [] = []"
| "canonFrom up (c # s) = (if up then upperc c else lowerc c) # canonFrom (c = CHR ''-'') s"

definition is_blank :: "char \<Rightarrow> bool" where
  "is_blank c \<longleftrightarrow> c = CHR '' '' \<or> c = CHR 0x09 \<or> c = CHR 0x0A \<or> c = CHR 0x0D"

definition trimString :: "string \<Rightarrow> string" where
  "trimString s = rev (dropWhile is_blank (rev (dropWhile is_blank s)))"

definition connectionTokens :: "header \<Rightarrow> string list" where
  "connectionTokens h =
     concat (map (\<lambda>v. map trimString (split_on CHR '','' v)) (headerValues h ''Connection''))"

definition hopHeaders :: "string list" where
  "hopHeaders =
     [''Connection'', ''Proxy-Connection'', ''Keep-Alive'', ''Proxy-Authenticate'',
      ''Proxy-Authorization'', ''Te'', ''Trailer'', ''Transfer-Encoding'', ''Upgrade'']"

definition removeHopByHopHeaders :: "header \<Rightarrow> header" where
  "removeHopByHopHeaders h =
     fold headerDel hopHeaders
       (fold (\<lambda>t. headerDel (canonFrom True t)) (filter (\<lambda>t. t \<noteq> []) (connectionTokens h)) h)"

definition hasToken :: "header \<Rightarrow> string \<Rightarrow> string \<Rightarrow> bool" where
  "hasToken h k t \<longleftrightarrow>
     list_ex (\<lambda>v. list_ex (\<lambda>x. map lowerc (trimString x) = map lowerc t) (split_on CHR '','' v))
       (headerValues h k)"

definition upgradeType :: "header \<Rightarrow> string" where
  "upgradeType h = (if hasToken h ''Connection'' ''Upgrade'' then headerGet h ''Upgrade'' else [])"

text \<open>
  What \<^verbatim>\<open>httputil.ReverseProxy\<close> does to the headers before it calls \<^verbatim>\<open>Rewrite\<close>: hop-by-hop
  headers go, trailers and an upgrade are asked for again, forwarding headers go.
\<close>

definition proxyHeaders :: "header \<Rightarrow> header" where
  "proxyHeaders h =
     (let up = upgradeType h; h1 = removeHopByHopHeaders h;
          h2 = (if hasToken h ''Te'' ''trailers'' then headerSet ''Te'' ''trailers'' h1 else h1);
          h3 = (if up \<noteq> [] then headerSet ''Upgrade'' up (headerSet ''Connection'' ''Upgrade'' h2) else h2)
      in fold headerDel [''Forwarded'', ''X-Forwarded-For'', ''X-Forwarded-Host'', ''X-Forwarded-Proto''] h3)"

text \<open>
  \<^verbatim>\<open>URL.EscapedPath\<close> without a raw path escapes the decoded one, keeping the bytes a path
  may hold.
\<close>

definition shouldEscapePath :: "char \<Rightarrow> bool" where
  "shouldEscapePath c \<longleftrightarrow> \<not> (is_alnum c \<or> c \<in> set ''-_.~$&+,/:;=@'')"

definition escapePath :: "string \<Rightarrow> string" where
  "escapePath s = concat (map (\<lambda>c.
     if shouldEscapePath c then [CHR ''%'', hex_upper (byte c div 16), hex_upper (byte c mod 16)]
     else [c]) s)"

section \<open>Routes\<close>

definition RoutePrefix :: string where "RoutePrefix = ''/preview''"

definition parseRoute :: "string \<Rightarrow> (string \<times> int \<times> string) option" where
  "parseRoute path =
     (case cutPrefix path (RoutePrefix @ ''/'') of
        None \<Rightarrow> None
      | Some trimmed \<Rightarrow>
          (let parts = splitN_on 3 CHR ''/'' trimmed in
           if length parts < 2 then None
           else case pathUnescape (parts ! 0) of
                  None \<Rightarrow> None
                | Some name \<Rightarrow>
                    if name = [] then None
                    else case atoi (parts ! 1) of
                           None \<Rightarrow> None
                         | Some port \<Rightarrow>
                             if port < 1 \<or> port > 65535 then None
                             else Some (name, port, ''/'' @ (if length parts = 3 then parts ! 2 else []))))"

definition URL :: "string \<Rightarrow> string \<Rightarrow> int \<Rightarrow> string" where
  "URL base sandboxName port =
     trimSuffix base ''/'' @ RoutePrefix @ ''/'' @ pathEscape sandboxName @ ''/'' @ itoa port @ ''/''"

definition upstreamHost :: "string \<Rightarrow> int \<Rightarrow> string" where
  "upstreamHost name port = hexEncode (take 16 (sha256 name)) @ ''-'' @ itoa port @ ''.sandbox.invalid''"

section \<open>The handler\<close>

record HttpRequest =
  q_EscapedPath :: string
  q_Host :: string
  q_Header :: header

record OutRequest =
  o_Scheme :: string
  o_URLHost :: string
  o_Path :: string
  o_Host :: string
  o_Header :: header

datatype reply =
    Error nat string header
  | Proxied "string \<times> int" OutRequest

record Handler =
  h_signer :: Signer
  h_revoked :: "(string \<times> instant) list"

definition NewHandler :: "Signer \<Rightarrow> Handler" where
  "NewHandler signer = \<lparr> h_signer = signer, h_revoked = [] \<rparr>"

definition Revoke :: "Handler \<Rightarrow> string \<Rightarrow> instant \<Rightarrow> Handler" where
  "Revoke h token now =
     (case ExpiresAt token of
        None \<Rightarrow> h
      | Some expiresAt \<Rightarrow>
          h\<lparr>h_revoked := filter (\<lambda>(t, e). \<not> now > e) (mput token expiresAt (h_revoked h))\<rparr>)"

definition isRevoked :: "Handler \<Rightarrow> string \<Rightarrow> bool" where
  "isRevoked h token \<longleftrightarrow> map_of (h_revoked h) token \<noteq> None"

definition bearerToken :: "HttpRequest \<Rightarrow> string" where
  "bearerToken r =
     (case cutPrefix (headerGet (q_Header r) ''Authorization'') ''Bearer '' of
        None \<Rightarrow> []
      | Some token \<Rightarrow> trimSpace token)"

text \<open>\<^verbatim>\<open>rewrite\<close>, given the route \<^verbatim>\<open>ServeHTTP\<close> put on the request's context.\<close>

definition rewrite :: "string \<times> int \<Rightarrow> OutRequest \<Rightarrow> OutRequest" where
  "rewrite rt out =
     (case rt of (name, port) \<Rightarrow>
        out\<lparr> o_Scheme := ''http'', o_URLHost := upstreamHost name port, o_Host := ''localhost'',
             o_Header := headerDel ''X-Forwarded-For'' (o_Header out) \<rparr>)"

definition ServeHTTP :: "Handler \<Rightarrow> HttpRequest \<Rightarrow> instant \<Rightarrow> reply" where
  "ServeHTTP h r now =
     (case parseRoute (q_EscapedPath r) of
        None \<Rightarrow> Error 404 ''not found'' []
      | Some (name, port, rest) \<Rightarrow>
          (let token = bearerToken r in
           if token = []
           then Error 401 ''unauthorized'' [(''WWW-Authenticate'', [''Bearer realm=\"openblox preview\"''])]
           else if Verify (h_signer h) token name port now \<noteq> None \<or> isRevoked h token
           then Error 401 ''unauthorized'' []
           else Proxied (name, port)
                  (rewrite (name, port)
                     \<lparr> o_Scheme = [], o_URLHost = [], o_Path = rest, o_Host = q_Host r,
                       o_Header = proxyHeaders (headerDel ''Authorization'' (q_Header r)) \<rparr>)))"

text \<open>
  \<^verbatim>\<open>dial\<close>: the route of the request's context, if any, and the address the transport
  wants. The result is what the dialer is asked for.
\<close>

definition dial :: "(string \<times> int) option \<Rightarrow> string \<Rightarrow> (string \<times> int) result" where
  "dial rt addr =
     (case rt of
        None \<Rightarrow> Inl (errorsNew ''preview: request reached the dialer without a route'')
      | Some (name, port) \<Rightarrow>
          if addr \<noteq> joinHostPort (upstreamHost name port) ''80''
          then Inl (errorsNew ''preview: dial for %q does not match the authorised route'')
          else Inr (name, port))"

definition proxyError :: "gerr \<Rightarrow> reply" where
  "proxyError err = Error 502 ''preview unavailable'' []"

section \<open>Headers\<close>

lemma map_of_headerDel [simp]: "map_of (headerDel k h) = (map_of h)(k := None)"
  by (simp add: headerDel_def)

lemma map_of_headerSet [simp]: "map_of (headerSet k v h) = (map_of h)(k \<mapsto> [v])"
  by (simp add: headerSet_def)

lemma map_of_fold_headerDel:
  "map_of (fold (\<lambda>t. headerDel (f t)) ks h) k = (if k \<in> f ` set ks then None else map_of h k)"
  by (induction ks arbitrary: h) auto

lemma map_of_fold_headerDel_id:
  "map_of (fold headerDel ks h) k = (if k \<in> set ks then None else map_of h k)"
  using map_of_fold_headerDel [of "\<lambda>t. t"] by simp

lemma removeHopByHopHeaders_None: "map_of h k = None \<Longrightarrow> map_of (removeHopByHopHeaders h) k = None"
  by (simp add: removeHopByHopHeaders_def map_of_fold_headerDel map_of_fold_headerDel_id)

lemma proxyHeaders_None:
  assumes "map_of h k = None" "k \<noteq> ''Te''" "k \<noteq> ''Connection''" "k \<noteq> ''Upgrade''"
  shows "map_of (proxyHeaders h) k = None"
  using assms removeHopByHopHeaders_None [OF assms(1)]
  unfolding proxyHeaders_def Let_def map_of_fold_headerDel_id by simp

section \<open>Escaping\<close>

lemma escapePath_Cons:
  "escapePath (c # s) = (if shouldEscapePath c
     then [CHR ''%'', hex_upper (byte c div 16), hex_upper (byte c mod 16)] else [c]) @ escapePath s"
  by (simp add: escapePath_def)

lemma escapePath_Nil [simp]: "escapePath [] = []"
  by (simp add: escapePath_def)

lemma length_escapePath: "length s \<le> length (escapePath s)"
  by (induction s) (simp_all add: escapePath_Cons)

lemma escapePath_id_iff: "escapePath s = s \<longleftrightarrow> (\<forall>c \<in> set s. \<not> shouldEscapePath c)"
proof (induction s)
  case (Cons c s)
  show ?case
  proof (cases "shouldEscapePath c")
    case True
    then have "length (escapePath (c # s)) \<noteq> length (c # s)"
      using length_escapePath [of s] by (simp add: escapePath_Cons)
    then have "escapePath (c # s) \<noteq> c # s" by metis
    with True show ?thesis by simp
  next
    case False
    with Cons.IH show ?thesis by (simp add: escapePath_Cons)
  qed
qed simp

section \<open>Routes\<close>

lemma splitN_route:
  assumes "CHR ''/'' \<notin> set a" "CHR ''/'' \<notin> set b"
  shows "splitN_on 3 CHR ''/'' (a @ CHR ''/'' # b @ CHR ''/'' # r) = [a, b, r]"
  using assms by (simp add: numeral_3_eq_3 cut_append)

lemma itoa_no_slash: "CHR ''/'' \<notin> set (itoa i)"
  by (auto dest: itoa_chars)

lemma parseRoute_escaped:
  assumes "name \<noteq> []" "1 \<le> port" "port \<le> 65535"
  shows "parseRoute (RoutePrefix @ ''/'' @ pathEscape name @ ''/'' @ itoa port @ ''/'' @ rest)
    = Some (name, port, ''/'' @ rest)"
proof -
  have "splitN_on 3 CHR ''/'' (pathEscape name @ ''/'' @ itoa port @ ''/'' @ rest)
      = [pathEscape name, itoa port, rest]"
    using splitN_route [OF pathEscape_no_slash itoa_no_slash, of name port rest] by simp
  then show ?thesis
    using assms cutPrefix_append [of "RoutePrefix @ ''/''"]
    by (simp add: parseRoute_def pathUnescape_pathEscape atoi_def parseInt64_itoa in_int64_port)
qed

lemma parseRoute_SomeD:
  "parseRoute p = Some (name, port, rest) \<Longrightarrow> name \<noteq> [] \<and> 1 \<le> port \<and> port \<le> 65535 \<and> (\<exists>r. rest = CHR ''/'' # r)"
  by (auto simp: parseRoute_def Let_def split: option.splits if_splits)

lemma upstreamHost_eq:
  assumes "upstreamHost n p = upstreamHost n' p'" "in_int64 p" "in_int64 p'"
  shows "p = p' \<and> hexEncode (take 16 (sha256 n)) = hexEncode (take 16 (sha256 n'))"
proof -
  have l: "length (hexEncode (take 16 (sha256 n))) = length (hexEncode (take 16 (sha256 n')))" by simp
  have "hexEncode (take 16 (sha256 n)) = hexEncode (take 16 (sha256 n')) \<and>
    ''-'' @ itoa p @ ''.sandbox.invalid'' = ''-'' @ itoa p' @ ''.sandbox.invalid''"
    using assms(1) unfolding upstreamHost_def append_eq_append_conv [OF disjI1 [OF l]] .
  then show ?thesis using itoa.enc_inject [OF assms(2,3)] by simp
qed

lemma hexEncode_no_colon: "CHR '':'' \<notin> set (hexEncode bs)"
proof -
  have "hex_lower n \<noteq> CHR '':''" if "n < 16" for n
    using unhex_hex_lower [OF that] by (auto simp: unhex_def)
  moreover have "byte c div 16 < 16" for c using byte_less [of c] by linarith
  ultimately have "CHR '':'' \<noteq> hex_lower (byte c div 16)" "CHR '':'' \<noteq> hex_lower (byte c mod 16)" for c
    by (metis mod_less_divisor zero_less_numeral)+
  then show ?thesis by (simp add: hexEncode_def)
qed

lemma upstreamHost_no_colon: "CHR '':'' \<notin> set (upstreamHost n p)"
  using hexEncode_no_colon by (auto simp: upstreamHost_def dest: itoa_chars)

definition pool_key :: "string \<times> int \<Rightarrow> string" where
  "pool_key rt = joinHostPort (upstreamHost (fst rt) (snd rt)) ''80''"

lemma pool_key_eq:
  assumes "pool_key (n, p) = pool_key (n', p')" "in_int64 p" "in_int64 p'"
  shows "p = p' \<and> hexEncode (take 16 (sha256 n)) = hexEncode (take 16 (sha256 n'))"
proof (rule upstreamHost_eq)
  show "upstreamHost n p = upstreamHost n' p'"
    using assms(1) upstreamHost_no_colon [of n p] upstreamHost_no_colon [of n' p']
    by (simp add: pool_key_def joinHostPort_def)
qed fact+

section \<open>The connection pool\<close>

text \<open>
  \<^verbatim>\<open>http.Transport\<close> keeps idle connections under the address they were dialled for and may
  hand one to any later request for that address. A connection is the route it was
  dialled to. A request is authorised by \<^const>\<open>ServeHTTP\<close> before it reaches the transport.
\<close>

type_synonym route = "string \<times> int"

record Pool =
  idle :: "(string \<times> route) list"
  active :: "(route \<times> route) list"

inductive transport :: "Pool \<Rightarrow> Pool \<Rightarrow> bool" where
  reuse: "ServeHTTP h r now = Proxied rt out \<Longrightarrow> (joinHostPort (o_URLHost out) ''80'', conn) \<in> set (idle s) \<Longrightarrow>
    transport s (s\<lparr>idle := remove1 (joinHostPort (o_URLHost out) ''80'', conn) (idle s), active := (rt, conn) # active s\<rparr>)"
| fresh: "ServeHTTP h r now = Proxied rt out \<Longrightarrow> dial (Some rt) (joinHostPort (o_URLHost out) ''80'') = Inr conn \<Longrightarrow>
    transport s (s\<lparr>active := (rt, conn) # active s\<rparr>)"
| park: "(rt, conn) \<in> set (active s) \<Longrightarrow>
    transport s (s\<lparr>active := remove1 (rt, conn) (active s), idle := (pool_key rt, conn) # idle s\<rparr>)"
| close: "(rt, conn) \<in> set (active s) \<Longrightarrow> transport s (s\<lparr>active := remove1 (rt, conn) (active s)\<rparr>)"
| evict: "e \<in> set (idle s) \<Longrightarrow> transport s (s\<lparr>idle := remove1 e (idle s)\<rparr>)"

definition pool_init :: "Pool \<Rightarrow> bool" where
  "pool_init s \<longleftrightarrow> idle s = [] \<and> active s = []"

definition valid_route :: "route \<Rightarrow> bool" where
  "valid_route rt \<longleftrightarrow> fst rt \<noteq> [] \<and> 1 \<le> snd rt \<and> snd rt \<le> 65535"

fun idle_ok :: "string \<times> route \<Rightarrow> bool" where
  "idle_ok (a, conn) \<longleftrightarrow> a = pool_key conn \<and> valid_route conn"

fun active_ok :: "route \<times> route \<Rightarrow> bool" where
  "active_ok (rt, conn) \<longleftrightarrow> pool_key rt = pool_key conn \<and> valid_route rt \<and> valid_route conn"

definition pool_inv :: "Pool \<Rightarrow> bool" where
  "pool_inv s \<longleftrightarrow> list_all idle_ok (idle s) \<and> list_all active_ok (active s)"

lemma list_all_remove1: "list_all P xs \<Longrightarrow> list_all P (remove1 x xs)"
  by (auto simp: list_all_iff dest: notin_set_remove1)

lemma pool_inv_mem:
  "pool_inv s \<Longrightarrow> e \<in> set (idle s) \<Longrightarrow> idle_ok e"
  "pool_inv s \<Longrightarrow> a \<in> set (active s) \<Longrightarrow> active_ok a"
  by (simp_all add: pool_inv_def list_all_iff)

lemma ServeHTTP_Proxied:
  assumes "ServeHTTP h r now = Proxied rt out"
  obtains name port rest where "parseRoute (q_EscapedPath r) = Some (name, port, rest)" "rt = (name, port)"
    "bearerToken r \<noteq> []" "Verify (h_signer h) (bearerToken r) name port now = None"
    "\<not> isRevoked h (bearerToken r)"
    "out = rewrite rt \<lparr> o_Scheme = [], o_URLHost = [], o_Path = rest, o_Host = q_Host r,
       o_Header = proxyHeaders (headerDel ''Authorization'' (q_Header r)) \<rparr>"
  using assms by (auto simp: ServeHTTP_def Let_def split: option.splits if_splits)

lemma Proxied_key:
  assumes "ServeHTTP h r now = Proxied rt out"
  shows "joinHostPort (o_URLHost out) ''80'' = pool_key rt" "valid_route rt"
  using assms
  by (auto elim!: ServeHTTP_Proxied simp: rewrite_def pool_key_def valid_route_def dest: parseRoute_SomeD)

lemma pool_inv_step: "transport s t \<Longrightarrow> pool_inv s \<Longrightarrow> pool_inv t"
proof (induction rule: transport.induct)
  case (reuse h r now rt out conn s)
  then show ?case
    using Proxied_key [OF reuse(1)] pool_inv_mem(1) [OF reuse(3,2)]
    by (simp add: pool_inv_def list_all_remove1)
next
  case (fresh h r now rt out conn s)
  then have "conn = rt" using Proxied_key [OF fresh(1)] by (auto simp: dial_def split: prod.splits if_splits)
  with fresh show ?case using Proxied_key [OF fresh(1)] by (simp add: pool_inv_def)
next
  case (park rt conn s)
  then show ?case
    using pool_inv_mem(2) [OF park(2,1)] by (simp add: pool_inv_def list_all_remove1)
qed (simp_all add: pool_inv_def list_all_remove1)

lemma pool_inv_init: "pool_init s \<Longrightarrow> pool_inv s"
  by (simp add: pool_init_def pool_inv_def)

interpretation pool: inductive_system pool_init transport pool_inv
  by unfold_locales (fact pool_inv_init, rule pool_inv_step)

section \<open>Revocation\<close>

lemma map_of_filter_kept: "map_of m k = Some v \<Longrightarrow> P (k, v) \<Longrightarrow> map_of (filter P m) k = Some v"
  by (induction m) (auto split: if_splits)

lemma Revoke_records:
  assumes "ExpiresAt token = Some e" "now \<le> e"
  shows "map_of (h_revoked (Revoke h token now)) token = Some e"
  using assms by (auto simp: Revoke_def intro: map_of_filter_kept)

lemma Revoke_keeps_entry:
  assumes "map_of (h_revoked h) token = Some e" "ExpiresAt token = Some e" "now \<le> e"
  shows "map_of (h_revoked (Revoke h t now)) token = Some e"
  using assms by (auto simp: Revoke_def split: option.splits intro!: map_of_filter_kept)

definition revokeAll :: "(string \<times> instant) list \<Rightarrow> Handler \<Rightarrow> Handler" where
  "revokeAll evs h = fold (\<lambda>(t, n) h. Revoke h t n) evs h"

lemma revokeAll_keeps_entry:
  assumes "map_of (h_revoked h) token = Some e" "ExpiresAt token = Some e" "\<forall>(t, n) \<in> set evs. n \<le> e"
  shows "map_of (h_revoked (revokeAll evs h)) token = Some e"
  using assms
  by (induction evs arbitrary: h) (auto simp: revokeAll_def intro: Revoke_keeps_entry)

lemma Revoke_signer [simp]: "h_signer (Revoke h t n) = h_signer h"
  by (simp add: Revoke_def split: option.splits)

lemma map_of_filter_None: "map_of m k = None \<Longrightarrow> map_of (filter P m) k = None"
  by (induction m) (auto split: if_splits)

lemma isRevoked_Revoke_other: "t' \<noteq> t \<Longrightarrow> \<not> isRevoked h t' \<Longrightarrow> \<not> isRevoked (Revoke h t n) t'"
  by (simp add: Revoke_def isRevoked_def map_of_filter_None split: option.splits)

section \<open>Properties\<close>

text \<open>
  C30: the address \<^verbatim>\<open>URL\<close> hands out routes back to the sandbox and port it was made for,
  whatever bytes the sandbox name holds, and keeps any path below it.
\<close>

theorem parseRoute_URL:
  assumes "name \<noteq> []" "1 \<le> port" "port \<le> 65535"
  shows "\<exists>path. URL base name port = trimSuffix base ''/'' @ path \<and>
    parseRoute (path @ rest) = Some (name, port, ''/'' @ rest)"
  using parseRoute_escaped [OF assms, of rest] by (auto simp: URL_def)

theorem parseRoute_URL_witness:
  "\<exists>path. URL ''https://example.test/'' ''tenant/acme user'' 3000 = trimSuffix ''https://example.test/'' ''/'' @ path \<and>
    parseRoute (path @ ''index.html'') = Some (''tenant/acme user'', 3000, ''/'' @ ''index.html'')"
  by (rule parseRoute_URL) simp_all

text \<open>
  C5: a request is forwarded only when its own route carries a token that verifies for
  that sandbox and port and is not revoked; what is forwarded goes to the host of that
  route, and neither the credential nor the client's address travels with it.
\<close>

theorem ServeHTTP_forwards_authorised:
  assumes "ServeHTTP h r now = Proxied (name, port) out"
  shows "(\<exists>rest. parseRoute (q_EscapedPath r) = Some (name, port, rest) \<and> o_Path out = rest) \<and>
    Verify (h_signer h) (bearerToken r) name port now = None \<and> \<not> isRevoked h (bearerToken r) \<and>
    o_URLHost out = upstreamHost name port \<and> o_Host out = ''localhost'' \<and>
    map_of (o_Header out) ''Authorization'' = None \<and> map_of (o_Header out) ''X-Forwarded-For'' = None"
  using assms
proof (rule ServeHTTP_Proxied)
  fix n p rest
  assume a: "parseRoute (q_EscapedPath r) = Some (n, p, rest)" "(name, port) = (n, p)"
    "Verify (h_signer h) (bearerToken r) n p now = None" "\<not> isRevoked h (bearerToken r)"
    "out = rewrite (name, port) \<lparr> o_Scheme = [], o_URLHost = [], o_Path = rest, o_Host = q_Host r,
       o_Header = proxyHeaders (headerDel ''Authorization'' (q_Header r)) \<rparr>"
  have "map_of (proxyHeaders (headerDel ''Authorization'' (q_Header r))) ''Authorization'' = None"
    by (rule proxyHeaders_None) simp_all
  with a show ?thesis by (simp add: rewrite_def)
qed

text \<open>
  C29: a revocation holds for good. Once a token has been revoked, no request that carries
  it is forwarded any more, whatever is revoked afterwards and however often the expired
  entries are swept.
\<close>

theorem Revoke_permanent:
  assumes "ExpiresAt (bearerToken r) = Some e" "t0 \<le> now" "\<forall>(t, n) \<in> set later. n \<le> now"
  shows "\<not> (\<exists>rt out. ServeHTTP (revokeAll later (Revoke h (bearerToken r) t0)) r now = Proxied rt out)"
proof
  let ?h = "revokeAll later (Revoke h (bearerToken r) t0)"
  assume "\<exists>rt out. ServeHTTP ?h r now = Proxied rt out"
  then obtain rt out where p: "ServeHTTP ?h r now = Proxied rt out" by blast
  from p obtain name port where v: "Verify (h_signer ?h) (bearerToken r) name port now = None"
    and nr: "\<not> isRevoked ?h (bearerToken r)" by (rule ServeHTTP_Proxied)
  from v assms(1) have "now < e" by (auto simp: Verify_None_iff ExpiresAt_def)
  with assms have "map_of (h_revoked ?h) (bearerToken r) = Some e"
    by (intro revokeAll_keeps_entry Revoke_records) auto
  with nr show False by (simp add: isRevoked_def)
qed

lemma trimSpace_token:
  assumes "\<And>c. c \<in> set m \<Longrightarrow> b64val c \<noteq> None" "m \<noteq> []"
  shows "trimSpace (tokenVersion @ ''.'' @ p @ ''.'' @ m) = tokenVersion @ ''.'' @ p @ ''.'' @ m"
proof (rule trimSpace_graphic)
  show "graphic (hd (tokenVersion @ ''.'' @ p @ ''.'' @ m))" by (simp add: tokenVersion_def graphic_def)
  have "last (tokenVersion @ ''.'' @ p @ ''.'' @ m) = last m" using assms(2) by simp
  then show "graphic (last (tokenVersion @ ''.'' @ p @ ''.'' @ m))"
    using b64val_graphic assms last_in_set by metis
qed simp

text \<open>A request for the demo token's sandbox, for the instances below.\<close>

definition demo_request :: HttpRequest where
  "demo_request =
     \<lparr> q_EscapedPath = ''/preview/box/80/a%20b'', q_Host = ''example.test'',
       q_Header = [(''Authorization'', [''Bearer '' @ demo_token]), (''X-Forwarded-For'', [''10.0.0.1''])] \<rparr>"

lemma bearerToken_demo: "bearerToken demo_request = demo_token"
proof -
  let ?p = "token_payload 80 2000 (replicate 16 CHR ''n'')"
  have "mac demo_signer ''box'' ?p \<noteq> []" using length_mac [of demo_signer "''box''" ?p] by force
  then have "b64encode (mac demo_signer ''box'' ?p) \<noteq> []"
    by (metis b64encode.simps(1) b64decode_encode option.inject)
  then have "trimSpace demo_token = demo_token"
    unfolding demo_token_def Let_def by (intro trimSpace_token b64encode_alphabet)
  then show ?thesis
    using cutPrefix_append [of "''Bearer ''" demo_token]
    by (simp add: bearerToken_def demo_request_def headerGet_def)
qed

lemma parseRoute_demo: "parseRoute (q_EscapedPath demo_request) = Some (''box'', 80, ''/a%20b'')"
proof -
  have "dec_nat 80 = ''80''" by code_simp
  then have "itoa 80 = ''80''" by (simp add: itoa_def)
  moreover have "pathEscape ''box'' = ''box''"
    by (simp add: pathEscape_def shouldEscape_def is_alnum_def)
  ultimately show ?thesis
    using parseRoute_escaped [of "''box''" 80 "''a%20b''"] by (simp add: demo_request_def RoutePrefix_def)
qed

lemma ServeHTTP_demo:
  "\<exists>out. ServeHTTP (NewHandler demo_signer) demo_request 1999 = Proxied (''box'', 80) out \<and> o_Path out = ''/a%20b''"
proof -
  have "demo_token \<noteq> []" by (simp add: demo_token_def Let_def)
  then show ?thesis
    by (simp add: ServeHTTP_def parseRoute_demo bearerToken_demo Verify_demo_token NewHandler_def
        isRevoked_def rewrite_def)
qed

theorem ServeHTTP_forwards_authorised_witness:
  "\<exists>out. ServeHTTP (NewHandler demo_signer) demo_request 1999 = Proxied (''box'', 80) out \<and>
     o_URLHost out = upstreamHost ''box'' 80 \<and> map_of (o_Header out) ''Authorization'' = None"
  using ServeHTTP_demo ServeHTTP_forwards_authorised [of "NewHandler demo_signer" demo_request 1999 "''box''" 80]
  by blast

theorem Revoke_permanent_witness:
  "ExpiresAt (bearerToken demo_request) = Some 2000 \<and>
   \<not> (\<exists>rt out. ServeHTTP (revokeAll [(''other'', 1500)] (Revoke (NewHandler demo_signer) (bearerToken demo_request) 1000))
        demo_request 1999 = Proxied rt out)"
proof -
  have e: "ExpiresAt (bearerToken demo_request) = Some 2000"
    using split_demo_token by (auto simp: bearerToken_demo ExpiresAt_def)
  have "\<forall>(t, n) \<in> set [(''other'', 1500 :: int)]. n \<le> 1999" by simp
  from e Revoke_permanent [OF e _ this, of 1000 "NewHandler demo_signer"] show ?thesis by simp
qed

text \<open>
  C33: revocation is by spelling, not by credential. The last character of a token's MAC
  carries two bits the decoder ignores, so every minted token has a second spelling that
  verifies exactly when the first does, and that revoking the first does not touch.
\<close>

theorem Revoke_respelled:
  assumes "Sign s name port expiresAt rand_read = Inr token"
  shows "\<exists>token'. token' \<noteq> token \<and>
    (\<forall>n p now. Verify s token' n p now = Verify s token n p now) \<and>
    (\<forall>h r t0 now. bearerToken r = token' \<longrightarrow> \<not> isRevoked h token' \<longrightarrow>
       ServeHTTP (Revoke h token t0) r now = ServeHTTP h r now)"
proof -
  from assms obtain nonce where
    tok: "token = tokenVersion @ ''.'' @ token_payload port expiresAt nonce @ ''.'' @
       b64encode (mac s name (token_payload port expiresAt nonce))"
    by (auto simp: Sign_Inr_iff)
  let ?p = "token_payload port expiresAt nonce" and ?m = "mac s name (token_payload port expiresAt nonce)"
  have "length ?m mod 3 = 2" by simp
  then obtain m where m: "m \<noteq> b64encode ?m" "b64decode m = Some ?m" "\<forall>c \<in> set m. b64val c \<noteq> None"
    by (rule b64decode_respell)
  define token' where "token' = tokenVersion @ ''.'' @ ?p @ ''.'' @ m"
  have "CHR ''.'' \<notin> set ?p" "CHR ''.'' \<notin> set m" "CHR ''.'' \<notin> set (b64encode ?m)"
    using m(3) by (force dest: payload_chars b64encode_not_special)+
  then have "split token' = split token"
    unfolding token'_def tok by (simp add: split_token m(2) b64decode_encode del: append_Cons append.simps)
  then have "Verify s token' n p now = Verify s token n p now" for n p now by (simp add: Verify_def)
  moreover have ne: "token' \<noteq> token" using m(1) by (simp add: token'_def tok)
  moreover have "ServeHTTP (Revoke h token t0) r now = ServeHTTP h r now"
    if "bearerToken r = token'" "\<not> isRevoked h token'" for h r t0 now
    using that isRevoked_Revoke_other [OF ne] by (auto simp: ServeHTTP_def split: option.splits)
  ultimately show ?thesis by blast
qed

theorem Revoke_respelled_witness:
  "\<exists>token'. token' \<noteq> demo_token \<and> Verify demo_signer token' ''box'' 80 1999 = None \<and>
     \<not> isRevoked (Revoke (NewHandler demo_signer) demo_token 1000) token'"
proof -
  from Revoke_respelled [OF Sign_demo_token] obtain token' where
    ne: "token' \<noteq> demo_token" and v: "\<forall>n p now. Verify demo_signer token' n p now = Verify demo_signer demo_token n p now"
    by blast
  have "\<not> isRevoked (NewHandler demo_signer) token'" by (simp add: NewHandler_def isRevoked_def)
  then have "\<not> isRevoked (Revoke (NewHandler demo_signer) demo_token 1000) token'"
    by (rule isRevoked_Revoke_other [OF ne])
  with ne v Verify_demo_token show ?thesis by metis
qed

text \<open>
  The path the sandbox is asked for. The rest of the route is taken from the escaped
  path and forwarded as a decoded one, so it arrives unchanged exactly when it holds no
  byte that needs escaping; a percent-escape in the request is escaped a second time.
\<close>

theorem ServeHTTP_path:
  assumes "ServeHTTP h r now = Proxied (name, port) out"
    and "parseRoute (q_EscapedPath r) = Some (name, port, rest)"
  shows "escapePath (o_Path out) = rest \<longleftrightarrow> (\<forall>c \<in> set rest. \<not> shouldEscapePath c)"
proof -
  have "o_Path out = rest" using assms by (auto elim!: ServeHTTP_Proxied simp: rewrite_def)
  then show ?thesis by (simp add: escapePath_id_iff)
qed

theorem ServeHTTP_path_witness:
  "\<exists>out. ServeHTTP (NewHandler demo_signer) demo_request 1999 = Proxied (''box'', 80) out \<and>
     parseRoute (q_EscapedPath demo_request) = Some (''box'', 80, ''/a%20b'') \<and>
     escapePath (o_Path out) = ''/a%2520b'' \<and> escapePath (o_Path out) \<noteq> ''/a%20b''"
proof -
  obtain out where out: "ServeHTTP (NewHandler demo_signer) demo_request 1999 = Proxied (''box'', 80) out"
    "o_Path out = ''/a%20b''" using ServeHTTP_demo by blast
  have "shouldEscapePath CHR ''%''" by (simp add: shouldEscapePath_def is_alnum_def)
  then have "escapePath (o_Path out) \<noteq> ''/a%20b''"
    using ServeHTTP_path [OF out(1) parseRoute_demo] by simp
  moreover have "escapePath ''/a%20b'' = ''/a%2520b''" by code_simp
  ultimately have "escapePath (o_Path out) = ''/a%2520b''" by (simp only: out(2))
  with out(1) parseRoute_demo \<open>escapePath (o_Path out) \<noteq> ''/a%20b''\<close> show ?thesis by blast
qed



end
