(* ===== verification/Go_Mux.thy ===== *)
theory Go_Mux
  imports Preview_Proxy
begin

text \<open>
  \<^verbatim>\<open>http.ServeMux\<close>: how a method and an escaped path find their handler among patterns of
  literals, single and trailing wildcards, with the redirects to a cleaned path and to a
  trailing slash, and the answers when nothing matches.
\<close>

section \<open>Patterns\<close>

datatype seg = Lit string | Wild | Multi

type_synonym 'h pattern = "string \<times> seg list \<times> 'h"

definition unescapeOr :: "string \<Rightarrow> string" where
  "unescapeOr s = (case pathUnescape s of None \<Rightarrow> s | Some u \<Rightarrow> u)"

definition firstSegment :: "string \<Rightarrow> string \<times> string" where
  "firstSegment p =
     (if p = ''/'' then (''/'', [])
      else (unescapeOr (takeWhile (\<lambda>c. c \<noteq> CHR ''/'') (tl p)), dropWhile (\<lambda>c. c \<noteq> CHR ''/'') (tl p)))"

fun matchPath :: "seg list \<Rightarrow> string \<Rightarrow> string list option" where
  "matchPath [] p = (if p = [] then Some [] else None)"
| "matchPath (Lit l # ps) p =
     (if p = [] then None else case firstSegment p of (s, r) \<Rightarrow> if s = l then matchPath ps r else None)"
| "matchPath (Wild # ps) p =
     (if p = [] then None
      else case firstSegment p of (s, r) \<Rightarrow> if s \<noteq> ''/'' then map_option ((#) s) (matchPath ps r) else None)"
| "matchPath (Multi # ps) p = (if p = [] then None else Some [unescapeOr (tl p)])"

text \<open>
  The tree prefers literals to wildcards at every position. In a table where the patterns
  of one method exclude each other the order does not matter, and the table is searched in
  the order of registration.
\<close>

fun matchIn :: "'h pattern list \<Rightarrow> string \<Rightarrow> string \<Rightarrow> (seg list \<times> 'h \<times> string list) option" where
  "matchIn [] mth p = None"
| "matchIn ((m, segs, h) # t) mth p =
     (if m = mth then (case matchPath segs p of Some vs \<Rightarrow> Some (segs, h, vs) | None \<Rightarrow> matchIn t mth p)
      else matchIn t mth p)"

definition matchMethodAndPath :: "'h pattern list \<Rightarrow> string \<Rightarrow> string \<Rightarrow> (seg list \<times> 'h \<times> string list) option" where
  "matchMethodAndPath t mth p =
     (case matchIn t mth p of
        Some x \<Rightarrow> Some x
      | None \<Rightarrow> if mth = ''HEAD'' then matchIn t ''GET'' p else None)"

section \<open>Finding the handler\<close>

definition cleanPath :: "string \<Rightarrow> string" where
  "cleanPath p =
     (if p = [] then ''/''
      else
        let q = (if isAbs p then p else ''/'' @ p); np = path_clean q
        in if last q = CHR ''/'' \<and> np \<noteq> ''/'' then np @ ''/'' else np)"

definition exactMatch :: "(seg list \<times> 'h \<times> string list) option \<Rightarrow> string \<Rightarrow> bool" where
  "exactMatch n p =
     (case n of
        None \<Rightarrow> False
      | Some (segs, _) \<Rightarrow> p = [] \<or> last p \<noteq> CHR ''/'' \<or> length segs = count_list p (CHR ''/''))"

datatype 'h routed = Routed 'h "string list" | Redirected string | MethodNotAllowed | NotFound

definition findHandler :: "'h pattern list \<Rightarrow> string \<Rightarrow> string \<Rightarrow> 'h routed" where
  "findHandler t mth escaped =
     (let path = (if mth = ''CONNECT'' then escaped else cleanPath escaped);
          n = matchMethodAndPath t mth path
      in if \<not> exactMatch n path \<and> (path = [] \<or> last path \<noteq> CHR ''/'')
            \<and> exactMatch (matchMethodAndPath t mth (path @ ''/'')) (path @ ''/'')
         then Redirected (escapePath (cleanPath (unescapeOr escaped) @ ''/''))
         else if path \<noteq> escaped then Redirected (escapePath path)
         else case n of
                Some (_, h, vs) \<Rightarrow> Routed h vs
              | None \<Rightarrow> if list_ex (\<lambda>(_, segs, _). matchPath segs path \<noteq> None) t then MethodNotAllowed else NotFound)"

section \<open>Paths of plain segments\<close>

text \<open>A path spelled from segments that no cleaning touches.\<close>

definition slashed :: "string list \<Rightarrow> string" where
  "slashed ss = concat (map ((#) CHR ''/'') ss)"

definition plain_seg :: "string \<Rightarrow> bool" where
  "plain_seg s \<longleftrightarrow> s \<noteq> [] \<and> s \<noteq> ''.'' \<and> s \<noteq> ''..'' \<and> CHR ''/'' \<notin> set s"

lemma slashed_simps [simp]: "slashed [] = []" "slashed (s # ss) = CHR ''/'' # s @ slashed ss"
  by (simp_all add: slashed_def)

lemma slashed_unsplit: "ss \<noteq> [] \<Longrightarrow> slashed ss = CHR ''/'' # unsplit CHR ''/'' ss"
proof (induction ss)
  case (Cons s ss)
  then show ?case by (cases ss) auto
qed simp

lemma split_on_unsplit: "ss \<noteq> [] \<Longrightarrow> \<forall>s \<in> set ss. c \<notin> set s \<Longrightarrow> split_on c (unsplit c ss) = ss"
  by (induction c ss rule: unsplit.induct) (simp_all add: split_on_notin split_on_append)

lemma clean_elems_plain: "\<forall>s \<in> set ss. plain_seg s \<Longrightarrow> clean_elems r acc ss = rev acc @ ss"
  by (induction ss arbitrary: acc) (auto simp: plain_seg_def)

lemma path_clean_slashed: "ss \<noteq> [] \<Longrightarrow> \<forall>s \<in> set ss. plain_seg s \<Longrightarrow> path_clean (slashed ss) = slashed ss"
  by (simp add: path_clean_def slashed_unsplit isAbs_def split_on_unsplit plain_seg_def clean_elems_plain [unfolded plain_seg_def])

lemma last_slashed: "ss \<noteq> [] \<Longrightarrow> \<forall>s \<in> set ss. plain_seg s \<Longrightarrow> last (slashed ss) \<noteq> CHR ''/''"
proof (induction ss)
  case (Cons s ss)
  then show ?case
    by (cases "ss = []") (auto simp: plain_seg_def slashed_def dest: last_in_set)
qed simp

lemma cleanPath_slashed: "ss \<noteq> [] \<Longrightarrow> \<forall>s \<in> set ss. plain_seg s \<Longrightarrow> cleanPath (slashed ss) = slashed ss"
  using last_slashed [of ss] path_clean_slashed [of ss]
  by (cases ss) (simp_all add: cleanPath_def isAbs_def Let_def)

lemma firstSegment_slashed:
  assumes "plain_seg s"
  shows "firstSegment (CHR ''/'' # s @ slashed ss) = (unescapeOr s, slashed ss)"
proof -
  have s: "CHR ''/'' \<notin> set s" "s \<noteq> []" using assms by (simp_all add: plain_seg_def)
  then have "takeWhile (\<lambda>c. c \<noteq> CHR ''/'') (s @ slashed ss) = s" "dropWhile (\<lambda>c. c \<noteq> CHR ''/'') (s @ slashed ss) = slashed ss"
    by (cases ss; auto simp: takeWhile_append dropWhile_append takeWhile_eq_all_conv)+
  with s show ?thesis by (simp add: firstSegment_def)
qed

lemma findHandler_slashed:
  assumes "ss \<noteq> []" "\<forall>s \<in> set ss. plain_seg s" "matchIn t mth (slashed ss) = Some (segs, h, vs)"
  shows "findHandler t mth (slashed ss) = Routed h vs"
proof -
  have "matchMethodAndPath t mth (slashed ss) = Some (segs, h, vs)" using assms(3) by (simp add: matchMethodAndPath_def)
  moreover have "exactMatch (Some (segs, h, vs)) (slashed ss)" using last_slashed [OF assms(1,2)] by (simp add: exactMatch_def)
  moreover have "(if mth = ''CONNECT'' then slashed ss else cleanPath (slashed ss)) = slashed ss"
    by (simp add: cleanPath_slashed [OF assms(1,2)])
  ultimately show ?thesis unfolding findHandler_def Let_def by simp
qed

text \<open>An escaped segment is plain unless it is empty or a dot element, and reads back.\<close>

lemma unescapeOr_pathEscape [simp]: "unescapeOr (pathEscape s) = s"
  by (simp add: unescapeOr_def pathUnescape_pathEscape)

lemma plain_seg_pathEscape: "plain_seg (pathEscape s) \<longleftrightarrow> s \<noteq> [] \<and> s \<noteq> ''.'' \<and> s \<noteq> ''..''"
proof -
  have "pathEscape ''.'' = ''.''" "pathEscape ''..'' = ''..''" by code_simp+
  moreover have "pathEscape s = pathEscape t \<longleftrightarrow> s = t" for t
    by (metis path_segment.dec_enc option.inject)
  ultimately show ?thesis
    unfolding plain_seg_def by (metis pathEscape_eq_Nil pathEscape_no_slash)
qed


text \<open>Matching a path of plain segments, a segment at a time.\<close>

lemma matchPath_slashed:
  "matchPath [] (slashed ss) = (if ss = [] then Some [] else None)"
  "matchPath (p # ps) (slashed []) = None"
  "plain_seg s \<Longrightarrow> matchPath (Lit l # ps) (slashed (s # ss)) = (if unescapeOr s = l then matchPath ps (slashed ss) else None)"
  "plain_seg s \<Longrightarrow> matchPath (Wild # ps) (slashed (s # ss)) =
     (if unescapeOr s \<noteq> ''/'' then map_option ((#) (unescapeOr s)) (matchPath ps (slashed ss)) else None)"
  "matchPath (Multi # ps) (slashed (s # ss)) = Some [unescapeOr (s @ slashed ss)]"
proof -
  show "matchPath [] (slashed ss) = (if ss = [] then Some [] else None)" by (cases ss) simp_all
  show "matchPath (p # ps) (slashed []) = None" by (cases p) simp_all
qed (simp_all add: firstSegment_slashed)

lemma plain_seg_literal: "plain_seg s \<Longrightarrow> CHR ''%'' \<notin> set s \<Longrightarrow> unescapeOr s = s"
proof -
  have "CHR ''%'' \<notin> set s \<Longrightarrow> pathUnescape s = Some s" for s by (induction s) auto
  then show "CHR ''%'' \<notin> set s \<Longrightarrow> unescapeOr s = s" by (simp add: unescapeOr_def)
qed

end
