(* ===== verification/Go_Utf8.thy ===== *)
theory Go_Utf8
  imports Go_Encoding
begin

text \<open>
  \<^verbatim>\<open>unicode/utf8\<close> on byte strings: the length of the valid sequence a string starts with, the
  encoding of a code point, and the coercion \<^verbatim>\<open>encoding/json\<close> applies to every string, which
  replaces each byte that starts no valid sequence by the replacement character.
\<close>

definition cont :: "char \<Rightarrow> bool" where
  "cont c \<longleftrightarrow> 128 \<le> byte c \<and> byte c \<le> 191"

text \<open>The range the second byte must lie in after a given first byte.\<close>

definition accept :: "nat \<Rightarrow> nat \<times> nat" where
  "accept b = (if b = 224 then (160, 191) else if b = 237 then (128, 159)
               else if b = 240 then (144, 191) else if b = 244 then (128, 143) else (128, 191))"

definition second_ok :: "char \<Rightarrow> char \<Rightarrow> bool" where
  "second_ok a b \<longleftrightarrow> fst (accept (byte a)) \<le> byte b \<and> byte b \<le> snd (accept (byte a))"

text \<open>Zero stands for an invalid or empty start.\<close>

fun utf8_len :: "string \<Rightarrow> nat" where
  "utf8_len [] = 0"
| "utf8_len (a # s) =
     (if byte a < 128 then 1
      else if 194 \<le> byte a \<and> byte a \<le> 223 then
        (case s of b # _ \<Rightarrow> if second_ok a b then 2 else 0 | _ \<Rightarrow> 0)
      else if 224 \<le> byte a \<and> byte a \<le> 239 then
        (case s of b # c # _ \<Rightarrow> if second_ok a b \<and> cont c then 3 else 0 | _ \<Rightarrow> 0)
      else if 240 \<le> byte a \<and> byte a \<le> 244 then
        (case s of b # c # d # _ \<Rightarrow> if second_ok a b \<and> cont c \<and> cont d then 4 else 0 | _ \<Rightarrow> 0)
      else 0)"

definition replacement :: string where
  "replacement = [char_of (239 :: nat), char_of (191 :: nat), char_of (189 :: nat)]"

lemma utf8_len_le: "utf8_len s \<le> length s"
  by (cases s) (auto split: list.splits)

function coerceUTF8 :: "string \<Rightarrow> string" where
  "coerceUTF8 [] = []"
| "coerceUTF8 (a # s) =
     (if utf8_len (a # s) = 0 then replacement @ coerceUTF8 s
      else take (utf8_len (a # s)) (a # s) @ coerceUTF8 (drop (utf8_len (a # s)) (a # s)))"
  by pat_completeness auto
termination by (relation "measure length") (auto simp del: utf8_len.simps)

declare coerceUTF8.simps(2) [simp del]

definition valid_utf8 :: "string \<Rightarrow> bool" where
  "valid_utf8 s \<longleftrightarrow> coerceUTF8 s = s"

text \<open>One valid sequence.\<close>

definition rune_bytes :: "string \<Rightarrow> bool" where
  "rune_bytes u \<longleftrightarrow> u \<noteq> [] \<and> utf8_len u = length u"

lemma utf8_len_append: "rune_bytes u \<Longrightarrow> utf8_len (u @ s) = length u"
  by (cases u) (auto simp: rune_bytes_def split: list.splits if_splits)

lemma rune_bytes_take: "utf8_len s \<noteq> 0 \<Longrightarrow> rune_bytes (take (utf8_len s) s)"
  by (cases s) (auto simp: rune_bytes_def split: list.splits if_splits)

lemma coerceUTF8_rune: "rune_bytes u \<Longrightarrow> coerceUTF8 (u @ s) = u @ coerceUTF8 s"
proof -
  assume u: "rune_bytes u"
  then have "utf8_len (u @ s) = length u" "u \<noteq> []" by (auto simp: utf8_len_append rune_bytes_def)
  then show ?thesis
    by (cases u) (simp_all add: coerceUTF8.simps(2) del: utf8_len.simps)
qed

lemma rune_bytes_replacement: "rune_bytes replacement"
  by (simp add: rune_bytes_def replacement_def second_ok_def accept_def cont_def)

lemma coerceUTF8_idem [simp]: "coerceUTF8 (coerceUTF8 s) = coerceUTF8 s"
proof (induction s rule: coerceUTF8.induct)
  case (2 a s)
  then show ?case
    using rune_bytes_take [of "a # s"]
    by (simp add: coerceUTF8.simps(2) [of a s] coerceUTF8_rune rune_bytes_replacement del: utf8_len.simps)
qed simp

lemma valid_coerceUTF8 [simp]: "valid_utf8 (coerceUTF8 s)"
  by (simp add: valid_utf8_def)

lemma coerceUTF8_ascii: "\<forall>c \<in> set s. byte c < 128 \<Longrightarrow> coerceUTF8 s = s"
  by (induction s) (auto simp: coerceUTF8.simps(2))

text \<open>\<^verbatim>\<open>utf8.AppendRune\<close> of a code point.\<close>

definition encodeRune :: "nat \<Rightarrow> string" where
  "encodeRune r =
     (if r < 128 then [char_of r]
      else if r < 2048 then [char_of (192 + r div 64), char_of (128 + r mod 64)]
      else if 1114111 < r \<or> 55296 \<le> r \<and> r \<le> 57343 then replacement
      else if r < 65536 then [char_of (224 + r div 4096), char_of (128 + r div 64 mod 64), char_of (128 + r mod 64)]
      else [char_of (240 + r div 262144), char_of (128 + r div 4096 mod 64), char_of (128 + r div 64 mod 64),
            char_of (128 + r mod 64)])"

end
