(* ===== verification/Go_Json.thy ===== *)
theory Go_Json
  imports Go_Utf8 Ob_Errors
begin

text \<open>
  \<^verbatim>\<open>encoding/json\<close>: values, the text \<^verbatim>\<open>Marshal\<close> writes for them and the reader behind
  \<^verbatim>\<open>Decoder.Decode\<close>. Every string is coerced to valid UTF-8 on the way out and on the way
  in. The reader is given enough fuel by its callers; the round trip shows that what is
  written is read back. The limit on nesting is left out: no body of this program nests.
\<close>

section \<open>Values\<close>

text \<open>A number keeps its literal, an object its members in order.\<close>

datatype json =
    JNull
  | JBool bool
  | JNum string
  | JStr string
  | JArr "json list"
  | JObj "(string \<times> json) list"

abbreviation quote :: char where "quote \<equiv> CHR 0x22"
abbreviation backslash :: char where "backslash \<equiv> CHR 0x5C"

section \<open>Writing\<close>

definition u4 :: "nat \<Rightarrow> string" where
  "u4 n = [backslash, CHR ''u'', hex_lower (n div 4096 mod 16), hex_lower (n div 256 mod 16),
           hex_lower (n div 16 mod 16), hex_lower (n mod 16)]"

definition esc_byte :: "char \<Rightarrow> string" where
  "esc_byte c =
     (if c = quote \<or> c = backslash then [backslash, c]
      else if byte c = 8 then [backslash, CHR ''b'']
      else if byte c = 12 then [backslash, CHR ''f'']
      else if byte c = 10 then [backslash, CHR ''n'']
      else if byte c = 13 then [backslash, CHR ''r'']
      else if byte c = 9 then [backslash, CHR ''t'']
      else if byte c < 32 \<or> c = CHR ''<'' \<or> c = CHR ''>'' \<or> c = CHR ''&'' then u4 (byte c)
      else [c])"

definition esc_rune :: "string \<Rightarrow> string" where
  "esc_rune u = (if u = encodeRune 8232 then u4 8232 else if u = encodeRune 8233 then u4 8233 else u)"

function esc :: "string \<Rightarrow> string" where
  "esc [] = []"
| "esc (a # s) =
     (if byte a < 128 then esc_byte a @ esc s
      else if utf8_len (a # s) = 0 then u4 65533 @ esc s
      else esc_rune (take (utf8_len (a # s)) (a # s)) @ esc (drop (utf8_len (a # s)) (a # s)))"
  by pat_completeness auto
termination by (relation "measure length") (auto simp del: utf8_len.simps)

declare esc.simps(2) [simp del]

definition print_string :: "string \<Rightarrow> string" where
  "print_string s = [quote] @ esc s @ [quote]"

fun print_json :: "json \<Rightarrow> string" where
  "print_json JNull = ''null''"
| "print_json (JBool b) = (if b then ''true'' else ''false'')"
| "print_json (JNum t) = t"
| "print_json (JStr s) = print_string s"
| "print_json (JArr vs) = ''['' @ join '','' (map print_json vs) @ '']''"
| "print_json (JObj ms) = ''{'' @ join '','' (map (\<lambda>(k, v). print_string k @ '':'' @ print_json v) ms) @ ''}''"

section \<open>Reading\<close>

definition is_ws :: "char \<Rightarrow> bool" where
  "is_ws c \<longleftrightarrow> c = CHR '' '' \<or> byte c = 9 \<or> byte c = 10 \<or> byte c = 13"

definition ws :: "string \<Rightarrow> string" where
  "ws s = dropWhile is_ws s"

fun hex4 :: "string \<Rightarrow> (nat \<times> string) option" where
  "hex4 (a # b # c # d # s) =
     (case (unhex a, unhex b, unhex c, unhex d) of
        (Some w, Some x, Some y, Some z) \<Rightarrow> Some (4096 * w + 256 * x + 16 * y + z, s)
      | _ \<Rightarrow> None)"
| "hex4 _ = None"

lemma hex4_length: "hex4 s = Some (n, r) \<Longrightarrow> length r < length s"
  by (induction s rule: hex4.induct) (auto split: option.splits)

text \<open>The second half of a surrogate pair, when one follows.\<close>

definition low_surrogate :: "string \<Rightarrow> (nat \<times> string) option" where
  "low_surrogate s =
     (case s of
        b # u # r \<Rightarrow>
          if b = backslash \<and> u = CHR ''u''
          then (case hex4 r of Some (n, r') \<Rightarrow> if 56320 \<le> n \<and> n < 57344 then Some (n, r') else None | None \<Rightarrow> None)
          else None
      | _ \<Rightarrow> None)"

lemma low_surrogate_length: "low_surrogate s = Some (n, r) \<Longrightarrow> length r < length s"
  by (auto simp: low_surrogate_def split: list.splits if_splits option.splits dest: hex4_length)

definition simple_escape :: "char \<Rightarrow> char option" where
  "simple_escape e =
     (if e = quote \<or> e = backslash \<or> e = CHR ''/'' then Some e
      else if e = CHR ''b'' then Some (char_of (8 :: nat)) else if e = CHR ''f'' then Some (char_of (12 :: nat))
      else if e = CHR ''n'' then Some (char_of (10 :: nat)) else if e = CHR ''r'' then Some (char_of (13 :: nat))
      else if e = CHR ''t'' then Some (char_of (9 :: nat)) else None)"

definition prepend :: "'a list \<Rightarrow> ('a list \<times> 'b) option \<Rightarrow> ('a list \<times> 'b) option" where
  "prepend p x = map_option (\<lambda>(t, r). (p @ t, r)) x"

text \<open>After the opening quote: the characters up to the closing one, and the rest.\<close>

function scan_string :: "string \<Rightarrow> (string \<times> string) option" where
  "scan_string [] = None"
| "scan_string (c # s) =
     (if c = quote then Some ([], s)
      else if byte c < 32 then None
      else if c \<noteq> backslash then prepend [c] (scan_string s)
      else case s of
        [] \<Rightarrow> None
      | e # s' \<Rightarrow>
          if e = CHR ''u'' then
            (case hex4 s' of
               None \<Rightarrow> None
             | Some (n, r) \<Rightarrow>
                 if 55296 \<le> n \<and> n < 57344 then
                   (case (if n < 56320 then low_surrogate r else None) of
                      None \<Rightarrow> prepend replacement (scan_string r)
                    | Some (m, r') \<Rightarrow>
                        prepend (encodeRune (65536 + (n - 55296) * 1024 + (m - 56320))) (scan_string r'))
                 else prepend (encodeRune n) (scan_string r))
          else (case simple_escape e of None \<Rightarrow> None | Some x \<Rightarrow> prepend [x] (scan_string s')))"
  by pat_completeness auto
termination
  by (relation "measure length") (auto dest!: hex4_length low_surrogate_length split: if_splits)

declare scan_string.simps(2) [simp del]

definition scan_int :: "string \<Rightarrow> (string \<times> string) option" where
  "scan_int s =
     (case s of
        [] \<Rightarrow> None
      | c # r \<Rightarrow>
          if c = CHR ''0'' then Some (''0'', r)
          else if is_digit c then Some (takeWhile is_digit s, dropWhile is_digit s) else None)"

definition scan_frac :: "string \<Rightarrow> (string \<times> string) option" where
  "scan_frac s =
     (case s of
        c # r \<Rightarrow>
          if c = CHR ''.'' then
            (if takeWhile is_digit r = [] then None else Some (c # takeWhile is_digit r, dropWhile is_digit r))
          else Some ([], s)
      | [] \<Rightarrow> Some ([], s))"

definition scan_exp :: "string \<Rightarrow> (string \<times> string) option" where
  "scan_exp s =
     (case s of
        c # r \<Rightarrow>
          if c = CHR ''e'' \<or> c = CHR ''E'' then
            (let sign = (case r of d # _ \<Rightarrow> if d = CHR ''+'' \<or> d = CHR ''-'' then [d] else [] | [] \<Rightarrow> []);
                 r' = drop (length sign) r
             in if takeWhile is_digit r' = [] then None
                else Some (c # sign @ takeWhile is_digit r', dropWhile is_digit r'))
          else Some ([], s)
      | [] \<Rightarrow> Some ([], s))"

definition scan_num :: "string \<Rightarrow> (string \<times> string) option" where
  "scan_num s =
     (let sign = (case s of c # _ \<Rightarrow> if c = CHR ''-'' then [c] else [] | [] \<Rightarrow> []) in do {
        (i, r) \<leftarrow> scan_int (drop (length sign) s);
        (f, r) \<leftarrow> scan_frac r;
        (e, r) \<leftarrow> scan_exp r;
        Some (sign @ i @ f @ e, r) })"

fun parse_value :: "nat \<Rightarrow> string \<Rightarrow> (json \<times> string) option"
  and parse_elems :: "nat \<Rightarrow> string \<Rightarrow> (json list \<times> string) option"
  and parse_members :: "nat \<Rightarrow> string \<Rightarrow> ((string \<times> json) list \<times> string) option" where
  "parse_value 0 s = None"
| "parse_value (Suc n) s =
     (case ws s of
        [] \<Rightarrow> None
      | c # r \<Rightarrow>
          if c = quote then map_option (\<lambda>(t, r). (JStr (coerceUTF8 t), r)) (scan_string r)
          else if c = CHR ''['' then
            (if hasPrefix (ws r) '']'' then Some (JArr [], tl (ws r))
             else map_option (\<lambda>(vs, r). (JArr vs, r)) (parse_elems n r))
          else if c = CHR ''{'' then
            (if hasPrefix (ws r) ''}'' then Some (JObj [], tl (ws r))
             else map_option (\<lambda>(ms, r). (JObj ms, r)) (parse_members n r))
          else if c = CHR ''-'' \<or> is_digit c then map_option (\<lambda>(t, r). (JNum t, r)) (scan_num (c # r))
          else if hasPrefix (c # r) ''null'' then Some (JNull, drop 4 (c # r))
          else if hasPrefix (c # r) ''true'' then Some (JBool True, drop 4 (c # r))
          else if hasPrefix (c # r) ''false'' then Some (JBool False, drop 5 (c # r))
          else None)"
| "parse_elems 0 s = None"
| "parse_elems (Suc n) s =
     (case parse_value n s of
        None \<Rightarrow> None
      | Some (v, r) \<Rightarrow>
          if hasPrefix (ws r) '']'' then Some ([v], tl (ws r))
          else if hasPrefix (ws r) '','' then prepend [v] (parse_elems n (tl (ws r)))
          else None)"
| "parse_members 0 s = None"
| "parse_members (Suc n) s =
     (if \<not> hasPrefix (ws s) [quote] then None
      else case scan_string (tl (ws s)) of
        None \<Rightarrow> None
      | Some (k, r) \<Rightarrow>
          if \<not> hasPrefix (ws r) '':'' then None
          else case parse_value n (tl (ws r)) of
            None \<Rightarrow> None
          | Some (v, r) \<Rightarrow>
              if hasPrefix (ws r) ''}'' then Some ([(coerceUTF8 k, v)], tl (ws r))
              else if hasPrefix (ws r) '','' then prepend [(coerceUTF8 k, v)] (parse_members n (tl (ws r)))
              else None)"

text \<open>One value from the front of a text.\<close>

definition readValue :: "string \<Rightarrow> (json \<times> string) option" where
  "readValue s = parse_value (Suc (2 * length s)) s"

section \<open>The fuel is enough\<close>

lemma ws_length: "length (ws s) \<le> length s"
  by (simp add: ws_def length_dropWhile_le)

lemma hasPrefix_single: "hasPrefix s [c] \<longleftrightarrow> s \<noteq> [] \<and> hd s = c"
  by (cases s) (auto simp: hasPrefix_def)

lemma tl_ws_length: "hasPrefix (ws s) [c] \<Longrightarrow> length (tl (ws s)) < length s"
  using ws_length [of s] by (cases "ws s") (auto simp: hasPrefix_single)

lemma prepend_Some: "prepend p x = Some (t, r) \<longleftrightarrow> (\<exists>t'. x = Some (t', r) \<and> t = p @ t')"
  by (auto simp: prepend_def)

lemma scan_string_step:
  assumes "scan_string (c # s) = Some (t, r)"
  shows "r = s \<or> (\<exists>u t'. length u \<le> length s \<and> scan_string u = Some (t', r))"
proof -
  have E: "\<exists>u t'. length u \<le> n \<and> scan_string u = Some (t', r)" if "scan_string u = Some (t', r)" "length u \<le> n" for n u t'
    using that by blast
  show ?thesis
    using assms unfolding scan_string.simps(2)
    by (auto simp: prepend_Some split: if_splits list.splits option.splits
        dest!: hex4_length low_surrogate_length elim!: E)
qed

lemma scan_string_length: "scan_string s = Some (t, r) \<Longrightarrow> length r < length s"
proof (induction s arbitrary: t rule: length_induct)
  case (1 s)
  from 1(2) obtain c u where s: "s = c # u" by (cases s) auto
  from scan_string_step [OF 1(2) [unfolded s]] show ?case
  proof
    assume "\<exists>v t'. length v \<le> length u \<and> scan_string v = Some (t', r)"
    then obtain v t' where "length v \<le> length u" "scan_string v = Some (t', r)" by blast
    moreover from this 1(1) s have "length r < length v" by simp
    ultimately show ?thesis using s by simp
  qed (simp add: s)
qed

lemma scan_num_length: "scan_num s = Some (t, r) \<Longrightarrow> length r < length s"
proof -
  have i: "length r < length s" if "scan_int s = Some (t, r)" for s t r
    using that by (cases s) (auto simp: scan_int_def le_imp_less_Suc length_dropWhile_le split: if_splits)
  have f: "length r \<le> length s" if "scan_frac s = Some (t, r)" for s t r
    using that by (cases s) (auto simp: scan_frac_def le_SucI length_dropWhile_le split: if_splits)
  have e: "length r \<le> length s" if "scan_exp s = Some (t, r)" for s t r
  proof (cases s)
    case (Cons c u)
    have "length (dropWhile is_digit (drop k u)) \<le> Suc (length u)" for k
      using length_dropWhile_le [of is_digit "drop k u"] by simp
    with that Cons show ?thesis by (auto simp: scan_exp_def Let_def split: if_splits)
  qed (use that in \<open>simp add: scan_exp_def\<close>)
  assume "scan_num s = Some (t, r)"
  then obtain a b c r1 r2 k where "scan_int (drop k s) = Some (a, r1)" "scan_frac r1 = Some (b, r2)" "scan_exp r2 = Some (c, r)"
    by (auto simp: scan_num_def Let_def split: Option.bind_splits)
  from i [OF this(1)] f [OF this(2)] e [OF this(3)] show ?thesis by simp
qed

lemma parse_length:
  "parse_value n s = Some (v, r) \<Longrightarrow> length r < length s"
  "parse_elems n s = Some (vs, r) \<Longrightarrow> length r < length s"
  "parse_members n s = Some (ms, r) \<Longrightarrow> length r < length s"
proof (induction n s and n s and n s arbitrary: v r and vs r and ms r rule: parse_value_parse_elems_parse_members.induct)
  case (2 n s)
  then obtain c u where c: "ws s = c # u" by (auto split: list.splits)
  then have u: "length u < length s" using ws_length [of s] by simp
  have tlu: "length (tl (ws u)) < length s" using ws_length [of u] u by simp
  have dr: "length (drop k u) < length s" for k using u by simp
  have IH: "parse_elems n u = Some (vs, r) \<Longrightarrow> c = CHR ''['' \<Longrightarrow> \<not> hasPrefix (ws u) '']'' \<Longrightarrow> length r < length s"
    "parse_members n u = Some (ms, r) \<Longrightarrow> c = CHR ''{'' \<Longrightarrow> \<not> hasPrefix (ws u) ''}'' \<Longrightarrow> length r < length s" for vs ms
    using 2(1,2) [OF c] u by (fastforce simp: hasPrefix_single)+
  from 2(3) u tlu dr show ?case
    by (auto simp: c split: if_splits dest!: scan_string_length scan_num_length dest: IH)
next
  case (4 n s)
  then obtain x u where v: "parse_value n s = Some (x, u)" by (auto split: option.splits)
  have u: "length u < length s" using 4(1) [OF v] .
  show ?case
  proof (cases "hasPrefix (ws u) '']''")
    case True
    with 4(3) v u tl_ws_length [OF True] show ?thesis by simp
  next
    case False
    with 4(3) v obtain vs' where c: "hasPrefix (ws u) '',''" and e: "parse_elems n (tl (ws u)) = Some (vs', r)"
      by (auto simp: prepend_Some split: if_splits)
    from 4(2) [OF v _ False c e] tl_ws_length [OF c] u show ?thesis by simp
  qed
next
  case (6 n s)
  then obtain k q where q: "hasPrefix (ws s) [quote]" and k: "scan_string (tl (ws s)) = Some (k, q)"
    by (auto split: option.splits if_splits)
  with 6 obtain x u where c1: "hasPrefix (ws q) '':''" and v: "parse_value n (tl (ws q)) = Some (x, u)"
    by (auto split: option.splits if_splits)
  have "length q < length s" using scan_string_length [OF k] tl_ws_length [OF q] by simp
  moreover have "length u < length (tl (ws q))" using 6(1) [OF _ k _ _ v] q c1 by simp
  ultimately have u: "length u < length s" using tl_ws_length [OF c1] by simp
  show ?case
  proof (cases "hasPrefix (ws u) ''}''")
    case True
    with 6(3) q k c1 v u tl_ws_length [OF True] show ?thesis by simp
  next
    case False
    with 6(3) q k c1 v obtain ms' where c: "hasPrefix (ws u) '',''" and e: "parse_members n (tl (ws u)) = Some (ms', r)"
      by (auto simp: prepend_Some split: if_splits)
    have "length r < length (tl (ws u))" using 6(2) [OF _ k _ _ v _ False c e] q c1 by simp
    with tl_ws_length [OF c] u show ?thesis by simp
  qed
qed simp_all

text \<open>Where the outcome for a value depends on the fuel.\<close>

lemma parse_value_fuel:
  assumes "ws s = c # u" "parse_value (Suc n) s = Some x"
    and "\<And>vs. parse_elems n u = Some vs \<Longrightarrow> c = CHR ''['' \<Longrightarrow> \<not> hasPrefix (ws u) '']'' \<Longrightarrow> parse_elems k u = Some vs"
    and "\<And>ms. parse_members n u = Some ms \<Longrightarrow> c = CHR ''{'' \<Longrightarrow> \<not> hasPrefix (ws u) ''}'' \<Longrightarrow> parse_members k u = Some ms"
  shows "parse_value (Suc k) s = Some x"
proof -
  consider (arr) "c = CHR ''[''" | (obj) "c = CHR ''{''" | (other) "c \<noteq> CHR ''[''" "c \<noteq> CHR ''{''" by blast
  then show ?thesis
  proof cases
    case arr
    with assms(2) show ?thesis
      by (cases "hasPrefix (ws u) '']''"; cases "parse_elems n u") (auto simp: assms(1) dest!: assms(3))
  next
    case obj
    with assms(2) show ?thesis
      by (cases "hasPrefix (ws u) ''}''"; cases "parse_members n u") (auto simp: assms(1) dest!: assms(4))
  next
    case other
    with assms(2) show ?thesis by (simp only: parse_value.simps assms(1) list.case if_False)
  qed
qed

lemma parse_elems_fuel:
  assumes "parse_elems (Suc n) s = Some x"
    and "\<And>v. parse_value n s = Some v \<Longrightarrow> parse_value k s = Some v"
    and "\<And>v r vs. parse_value n s = Some (v, r) \<Longrightarrow> \<not> hasPrefix (ws r) '']'' \<Longrightarrow> hasPrefix (ws r) '','' \<Longrightarrow>
      parse_elems n (tl (ws r)) = Some vs \<Longrightarrow> parse_elems k (tl (ws r)) = Some vs"
  shows "parse_elems (Suc k) s = Some x"
proof (cases "parse_value n s")
  case (Some w)
  obtain v r where w: "w = (v, r)" by force
  show ?thesis
  proof (cases "parse_elems n (tl (ws r))")
    case None
    with assms(1) Some assms(2) [OF Some] show ?thesis by (simp add: w prepend_def split: if_splits)
  next
    case (Some vs)
    from assms(1,3) \<open>parse_value n s = Some w\<close> assms(2) [OF \<open>parse_value n s = Some w\<close>] Some show ?thesis
      by (cases "hasPrefix (ws r) '']''"; cases "hasPrefix (ws r) '',''") (simp_all add: w)
  qed
qed (use assms(1) in simp)

lemma parse_members_fuel:
  assumes "parse_members (Suc n) s = Some x"
    and "\<And>a q v. hasPrefix (ws s) [quote] \<Longrightarrow> scan_string (tl (ws s)) = Some (a, q) \<Longrightarrow> hasPrefix (ws q) '':'' \<Longrightarrow>
      parse_value n (tl (ws q)) = Some v \<Longrightarrow> parse_value k (tl (ws q)) = Some v"
    and "\<And>a q v r ms. hasPrefix (ws s) [quote] \<Longrightarrow> scan_string (tl (ws s)) = Some (a, q) \<Longrightarrow> hasPrefix (ws q) '':'' \<Longrightarrow>
      parse_value n (tl (ws q)) = Some (v, r) \<Longrightarrow> \<not> hasPrefix (ws r) ''}'' \<Longrightarrow> hasPrefix (ws r) '','' \<Longrightarrow>
      parse_members n (tl (ws r)) = Some ms \<Longrightarrow> parse_members k (tl (ws r)) = Some ms"
  shows "parse_members (Suc k) s = Some x"
proof -
  from assms(1) obtain a q v r where
    q: "hasPrefix (ws s) [quote]" "scan_string (tl (ws s)) = Some (a, q)" "hasPrefix (ws q) '':''"
    and v: "parse_value n (tl (ws q)) = Some (v, r)" by (auto split: if_splits option.splits)
  note v' = assms(2) [OF q v]
  show ?thesis
  proof (cases "parse_members n (tl (ws r))")
    case None
    with assms(1) q v v' show ?thesis by (simp add: prepend_def split: if_splits)
  next
    case (Some ms)
    from assms(1) assms(3) [OF q v _ _ Some] q v v' Some show ?thesis
      by (cases "hasPrefix (ws r) ''}''"; cases "hasPrefix (ws r) '',''") simp_all
  qed
qed

lemmas parse_fuel_simps = parse_value.simps(2) parse_elems.simps(2) parse_members.simps(2)

declare parse_fuel_simps [simp del]

lemma parse_mono:
  "parse_value n s = Some x \<Longrightarrow> n \<le> m \<Longrightarrow> parse_value m s = Some x"
  "parse_elems n s = Some y \<Longrightarrow> n \<le> m \<Longrightarrow> parse_elems m s = Some y"
  "parse_members n s = Some z \<Longrightarrow> n \<le> m \<Longrightarrow> parse_members m s = Some z"
proof (induction n s and n s and n s arbitrary: x m and y m and z m rule: parse_value_parse_elems_parse_members.induct)
  case (2 n s)
  from 2(4) obtain k where m: "m = Suc k" "n \<le> k" by (cases m) auto
  from 2(3) obtain c u where c: "ws s = c # u" by (auto simp: parse_fuel_simps split: list.splits)
  show ?case unfolding m
    by (rule parse_value_fuel [OF c 2(3)]) (use 2(1,2) [OF c] m(2) in \<open>simp_all add: hasPrefix_single\<close>)
next
  case (4 n s)
  from 4(4) obtain k where m: "m = Suc k" "n \<le> k" by (cases m) auto
  show ?case unfolding m by (rule parse_elems_fuel [OF 4(3)]) (rule 4(1), assumption, rule m(2), rule 4(2) [OF _ refl], assumption+, rule m(2))
next
  case (6 n s)
  from 6(4) obtain k where m: "m = Suc k" "n \<le> k" by (cases m) auto
  show ?case unfolding m
  proof (rule parse_members_fuel [OF 6(3)])
    fix a q v
    assume a: "hasPrefix (ws s) [quote]" "scan_string (tl (ws s)) = Some (a, q)" "hasPrefix (ws q) '':''" "parse_value n (tl (ws q)) = Some v"
    show "parse_value k (tl (ws q)) = Some v" by (rule 6(1) [OF _ a(2) refl _ a(4) m(2)]) (use a in simp_all)
  next
    fix a q v r ms
    assume a: "hasPrefix (ws s) [quote]" "scan_string (tl (ws s)) = Some (a, q)" "hasPrefix (ws q) '':''"
      "parse_value n (tl (ws q)) = Some (v, r)" "\<not> hasPrefix (ws r) ''}''" "hasPrefix (ws r) '',''" "parse_members n (tl (ws r)) = Some ms"
    show "parse_members k (tl (ws r)) = Some ms" by (rule 6(2) [OF _ a(2) refl _ a(4) refl a(5-7) m(2)]) (use a in simp_all)
  qed
qed simp_all

lemma parse_enough:
  "parse_value n s = Some x \<Longrightarrow> parse_value (Suc (2 * length s)) s = Some x"
  "parse_elems n s = Some y \<Longrightarrow> parse_elems (Suc (Suc (2 * length s))) s = Some y"
  "parse_members n s = Some z \<Longrightarrow> parse_members (Suc (Suc (2 * length s))) s = Some z"
proof (induction n s and n s and n s arbitrary: x and y and z rule: parse_value_parse_elems_parse_members.induct)
  case (2 n s)
  from 2(3) obtain c u where c: "ws s = c # u" by (auto simp: parse_fuel_simps split: list.splits)
  have u: "Suc (Suc (2 * length u)) \<le> 2 * length s" using ws_length [of s] c by simp
  show ?case
    by (rule parse_value_fuel [OF c 2(3)])
      (use 2(1,2) [OF c] parse_mono(2,3) [OF _ u] in \<open>simp_all add: hasPrefix_single\<close>)
next
  case (4 n s)
  show ?case
  proof (rule parse_elems_fuel [OF 4(3)])
    fix v r vs
    assume a: "parse_value n s = Some (v, r)" "\<not> hasPrefix (ws r) '']''" "hasPrefix (ws r) '',''" "parse_elems n (tl (ws r)) = Some vs"
    have "Suc (Suc (2 * length (tl (ws r)))) \<le> Suc (2 * length s)"
      using tl_ws_length [OF a(3)] parse_length(1) [OF a(1)] by linarith
    from parse_mono(2) [OF 4(2) [OF a(1) refl a(2-4)] this] show "parse_elems (Suc (2 * length s)) (tl (ws r)) = Some vs" .
  qed (rule 4(1))
next
  case (6 n s)
  show ?case
  proof (rule parse_members_fuel [OF 6(3)])
    fix a q v
    assume a: "hasPrefix (ws s) [quote]" "scan_string (tl (ws s)) = Some (a, q)" "hasPrefix (ws q) '':''" "parse_value n (tl (ws q)) = Some v"
    have "Suc (2 * length (tl (ws q))) \<le> Suc (2 * length s)"
      using scan_string_length [OF a(2)] tl_ws_length [OF a(1)] tl_ws_length [OF a(3)] by linarith
    moreover have "parse_value (Suc (2 * length (tl (ws q)))) (tl (ws q)) = Some v"
      by (rule 6(1) [OF _ a(2) refl _ a(4)]) (use a in simp_all)
    ultimately show "parse_value (Suc (2 * length s)) (tl (ws q)) = Some v" using parse_mono(1) by blast
  next
    fix a q v r ms
    assume a: "hasPrefix (ws s) [quote]" "scan_string (tl (ws s)) = Some (a, q)" "hasPrefix (ws q) '':''"
      "parse_value n (tl (ws q)) = Some (v, r)" "\<not> hasPrefix (ws r) ''}''" "hasPrefix (ws r) '',''" "parse_members n (tl (ws r)) = Some ms"
    have "Suc (Suc (2 * length (tl (ws r)))) \<le> Suc (2 * length s)"
      using scan_string_length [OF a(2)] tl_ws_length [OF a(1)] tl_ws_length [OF a(3)] tl_ws_length [OF a(6)]
        parse_length(1) [OF a(4)] by linarith
    moreover have "parse_members (Suc (Suc (2 * length (tl (ws r))))) (tl (ws r)) = Some ms"
      by (rule 6(2) [OF _ a(2) refl _ a(4) refl a(5-7)]) (use a in simp_all)
    ultimately show "parse_members (Suc (2 * length s)) (tl (ws r)) = Some ms" using parse_mono(3) by blast
  qed
qed simp_all

section \<open>What is written is read back\<close>

lemma prepend_simps [simp]:
  "prepend [] x = x" "prepend p (prepend q x) = prepend (p @ q) x" "prepend p (Some (t, r)) = Some (p @ t, r)"
  by (cases x; auto simp: prepend_def)+

lemma scan_string_plain:
  "c \<noteq> quote \<Longrightarrow> 32 \<le> byte c \<Longrightarrow> c \<noteq> backslash \<Longrightarrow> scan_string (c # x) = prepend [c] (scan_string x)"
  by (simp add: scan_string.simps(2))

lemma scan_string_high: "\<forall>c \<in> set u. 128 \<le> byte c \<Longrightarrow> scan_string (u @ x) = prepend u (scan_string x)"
proof (induction u)
  case (Cons c u)
  then have c: "128 \<le> byte c" by simp
  then have "c \<noteq> quote" "c \<noteq> backslash" by auto
  with c Cons show ?case by (simp add: scan_string_plain)
qed simp

lemma hex4_u4: "n < 65536 \<Longrightarrow> hex4 (tl (tl (u4 n)) @ x) = Some (n, x)"
proof -
  assume n: "n < 65536"
  have m: "n div 4096 mod 16 = n div 4096" "n div 4096 < 16" using n by simp_all
  moreover have "n = 4096 * (n div 4096) + 256 * (n div 256 mod 16) + 16 * (n div 16 mod 16) + n mod 16"
  proof -
    have "n div 16 div 16 = n div 256" "n div 256 div 16 = n div 4096" by (simp_all add: div_mult2_eq [symmetric])
    moreover have "n = 16 * (n div 16) + n mod 16" "n div 16 = 16 * (n div 16 div 16) + n div 16 mod 16"
      "n div 256 = 16 * (n div 256 div 16) + n div 256 mod 16" by simp_all
    ultimately show ?thesis by linarith
  qed
  ultimately show ?thesis by (simp add: u4_def)
qed

lemma scan_string_u4:
  assumes "n < 65536" "n < 55296 \<or> 57344 \<le> n"
  shows "scan_string (u4 n @ x) = prepend (encodeRune n) (scan_string x)"
proof -
  have u: "u4 n @ x = backslash # CHR ''u'' # (tl (tl (u4 n)) @ x)" by (simp add: u4_def)
  show ?thesis
    unfolding u scan_string.simps(2) list.case hex4_u4 [OF assms(1)] using assms(2) by auto
qed

lemma scan_string_esc_byte:
  assumes "byte c < 128"
  shows "scan_string (esc_byte c @ x) = prepend [c] (scan_string x)"
proof -
  have s: "scan_string (backslash # e # x) = prepend [y] (scan_string x)" if "simple_escape e = Some y" "e \<noteq> CHR ''u''" for e y
    using that by (simp add: scan_string.simps(2) [of backslash])
  have b: "c = char_of (byte c)" by simp
  have "scan_string (u4 (byte c) @ x) = prepend [c] (scan_string x)"
    using assms scan_string_u4 [of "byte c" x] by (simp add: encodeRune_def)
  moreover have "char_of (8 :: nat) = c" if "byte c = 8" using b that by simp
  moreover have "char_of (12 :: nat) = c" if "byte c = 12" using b that by simp
  moreover have "char_of (10 :: nat) = c" if "byte c = 10" using b that by simp
  moreover have "char_of (13 :: nat) = c" if "byte c = 13" using b that by simp
  moreover have "char_of (9 :: nat) = c" if "byte c = 9" using b that by simp
  ultimately show ?thesis
    by (auto simp: esc_byte_def s simple_escape_def scan_string_plain)
qed

lemma rune_bytes_high: "rune_bytes (a # u) \<Longrightarrow> 128 \<le> byte a \<Longrightarrow> \<forall>c \<in> set (a # u). 128 \<le> byte c"
  by (auto simp: rune_bytes_def cont_def second_ok_def accept_def split: list.splits if_splits)

lemma scan_string_esc: "scan_string (esc s @ quote # r) = Some (coerceUTF8 s, r)"
proof (induction s rule: esc.induct)
  case 1
  show ?case by (simp add: scan_string.simps(2))
next
  case (2 a s)
  let ?n = "utf8_len (a # s)"
  show ?case
  proof (cases "byte a < 128")
    case True
    then have "esc (a # s) = esc_byte a @ esc s" "coerceUTF8 (a # s) = a # coerceUTF8 s"
      by (simp_all add: esc.simps(2) coerceUTF8.simps(2))
    with True 2 show ?thesis by (simp add: scan_string_esc_byte)
  next
    case high: False
    show ?thesis
    proof (cases "?n = 0")
      case True
      then have "esc (a # s) = u4 65533 @ esc s" "coerceUTF8 (a # s) = replacement @ coerceUTF8 s"
        using high by (simp_all add: esc.simps(2) coerceUTF8.simps(2) del: utf8_len.simps)
      moreover have "encodeRune 65533 = replacement" by (simp add: encodeRune_def replacement_def)
      ultimately show ?thesis using 2(2) [OF high True] by (simp add: scan_string_u4)
    next
      case False
      define u where "u = take ?n (a # s)"
      have u: "rune_bytes u" using False rune_bytes_take unfolding u_def by blast
      then obtain v where "u = a # v" unfolding u_def rune_bytes_def by (cases ?n) auto
      then have hi: "\<forall>c \<in> set u. 128 \<le> byte c" using rune_bytes_high u high by simp
      have "esc (a # s) = esc_rune u @ esc (drop ?n (a # s))" "coerceUTF8 (a # s) = u @ coerceUTF8 (drop ?n (a # s))"
        using high False by (simp_all add: esc.simps(2) coerceUTF8.simps(2) u_def del: utf8_len.simps)
      moreover have "scan_string (esc_rune u @ x) = prepend u (scan_string x)" for x
        by (simp add: esc_rune_def scan_string_u4 scan_string_high [OF hi])
      ultimately show ?thesis using 2(3) [OF high False] by simp
    qed
  qed
qed

text \<open>The numbers this program writes are integers.\<close>

definition num_end :: "string \<Rightarrow> bool" where
  "num_end r \<longleftrightarrow> r = [] \<or> \<not> is_digit (hd r) \<and> hd r \<notin> {CHR ''.'', CHR ''e'', CHR ''E''}"

lemma hd_dec_nat_nonzero: "n \<noteq> 0 \<Longrightarrow> hd (dec_nat n) \<noteq> CHR ''0''"
proof (induction n rule: dec_nat.induct)
  case (1 n)
  show ?case
  proof (cases "n < 10")
    case True
    then have "digit_val (digit n) = Some n" by simp
    with 1(2) have "digit n \<noteq> CHR ''0''" by (auto simp: digit_val_def)
    with True show ?thesis by (simp add: dec_nat.simps)
  next
    case False
    then have "n div 10 \<noteq> 0" by simp
    from 1(1) [OF False this] False show ?thesis by (simp add: dec_nat.simps [of n])
  qed
qed

lemma scan_num_itoa:
  assumes "num_end r"
  shows "scan_num (itoa i @ r) = Some (itoa i, r)"
proof -
  have fe: "scan_frac r = Some ([], r)" "scan_exp r = Some ([], r)"
    using assms by (auto simp: num_end_def scan_frac_def scan_exp_def split: list.splits)
  have nd: "r = [] \<or> \<not> is_digit (hd r)" using assms by (auto simp: num_end_def)
  have int: "scan_int (dec_nat n @ r) = Some (dec_nat n, r)" for n
  proof (cases "n = 0")
    case True
    moreover have "dec_nat 0 = ''0''" by code_simp
    ultimately show ?thesis by (simp add: scan_int_def)
  next
    case False
    have "takeWhile is_digit (dec_nat n @ r) = dec_nat n" "dropWhile is_digit (dec_nat n @ r) = r"
      using nd dec_nat_digits [of _ n] by (cases r; simp add: takeWhile_append2 dropWhile_append2)+
    moreover have "hd (dec_nat n) \<noteq> CHR ''0''" using False by (rule hd_dec_nat_nonzero)
    ultimately show ?thesis
      using dec_nat_digits [of "hd (dec_nat n)" n] by (cases "dec_nat n") (auto simp: scan_int_def)
  qed
  have "(case dec_nat n @ r of [] \<Rightarrow> [] | c # _ \<Rightarrow> if c = CHR ''-'' then [c] else []) = []" for n
    using hd_dec_nat(1) [of n] by (cases "dec_nat n") auto
  then show ?thesis by (simp add: scan_num_def itoa_def int fe)
qed

fun coerce_json :: "json \<Rightarrow> json" where
  "coerce_json (JStr s) = JStr (coerceUTF8 s)"
| "coerce_json (JArr vs) = JArr (map coerce_json vs)"
| "coerce_json (JObj ms) = JObj (map (\<lambda>(k, v). (coerceUTF8 k, coerce_json v)) ms)"
| "coerce_json v = v"

fun int_json :: "json \<Rightarrow> bool" where
  "int_json (JNum t) \<longleftrightarrow> (\<exists>i. t = itoa i)"
| "int_json (JArr vs) \<longleftrightarrow> (\<forall>v \<in> set vs. int_json v)"
| "int_json (JObj ms) \<longleftrightarrow> (\<forall>(k, v) \<in> set ms. int_json v)"
| "int_json v \<longleftrightarrow> True"

lemma ws_Cons [simp]: "\<not> is_ws c \<Longrightarrow> ws (c # s) = c # s"
  by (simp add: ws_def)

lemma not_ws [simp]:
  "\<not> is_ws CHR '',''" "\<not> is_ws CHR '']''" "\<not> is_ws CHR ''}''" "\<not> is_ws CHR '':''" "\<not> is_ws quote"
  "\<not> is_ws CHR ''[''" "\<not> is_ws CHR ''{''" "\<not> is_ws CHR ''-''" "\<not> is_ws CHR ''n''" "\<not> is_ws CHR ''t''" "\<not> is_ws CHR ''f''"
  by (simp_all add: is_ws_def)

lemma digit_not_ws: "is_digit c \<Longrightarrow> \<not> is_ws c \<and> c \<notin> {quote, CHR ''['', CHR ''{'', CHR '']'', CHR ''}''}"
  by (auto simp: is_digit_def digit_val_def is_ws_def split: if_splits)

lemma itoa_head: "\<exists>c u. itoa i = c # u \<and> (c = CHR ''-'' \<or> is_digit c)"
  using itoa_chars [of "hd (itoa i)" i] by (cases "itoa i") (auto simp: itoa_def split: if_splits)

lemma print_head:
  assumes "int_json v"
  obtains c u where "print_json v = c # u" "\<not> is_ws c" "c \<noteq> CHR '']''" "c \<noteq> CHR ''}''"
proof (cases v)
  case (JNum t)
  with assms obtain i where "t = itoa i" by auto
  with itoa_head [of i] obtain c u where "print_json v = c # u" "c = CHR ''-'' \<or> is_digit c" using JNum by auto
  with that digit_not_ws [of c] show thesis by auto
next
  case (JBool b)
  with that show thesis by (cases b) auto
qed (use that in \<open>auto simp: print_string_def\<close>)

lemma num_end_sep [simp]: "num_end (CHR '','' # r)" "num_end (CHR '']'' # r)" "num_end (CHR ''}'' # r)" "num_end []"
  by (simp_all add: num_end_def is_digit_def digit_val_def)

lemma join_simps: "join sep [x] = x" "join sep (x # y # zs) = x @ sep @ join sep (y # zs)"
  by (simp_all add: join_def)

definition reads :: "json \<Rightarrow> bool" where
  "reads v \<longleftrightarrow> (\<forall>r. num_end r \<longrightarrow> (\<exists>n. parse_value n (print_json v @ r) = Some (coerce_json v, r)))"

lemma readsE:
  assumes "reads v" "num_end r"
  obtains n where "parse_value n (print_json v @ r) = Some (coerce_json v, r)"
  using assms by (auto simp: reads_def)

lemma parse_elems_print:
  assumes "\<forall>v \<in> set vs. reads v" "vs \<noteq> []"
  shows "\<exists>n. parse_elems n (join '','' (map print_json vs) @ CHR '']'' # r) = Some (map coerce_json vs, r)"
  using assms
proof (induction vs)
  case (Cons v vs)
  show ?case
  proof (cases vs)
    case Nil
    from Cons.prems have "reads v" by simp
    from readsE [OF this num_end_sep(2)] obtain n where
      "parse_value n (print_json v @ CHR '']'' # r) = Some (coerce_json v, CHR '']'' # r)" .
    then have "parse_elems (Suc n) (print_json v @ CHR '']'' # r) = Some ([coerce_json v], r)"
      by (simp add: parse_fuel_simps hasPrefix_single)
    with Nil show ?thesis by (auto simp: join_simps)
  next
    case (Cons v' vs')
    let ?t = "join '','' (map print_json vs) @ CHR '']'' # r"
    obtain m where m: "parse_elems m ?t = Some (map coerce_json vs, r)" using Cons.IH Cons.prems Cons by auto
    from Cons.prems have "reads v" by simp
    from readsE [OF this num_end_sep(1)] obtain n where
      n: "parse_value n (print_json v @ CHR '','' # ?t) = Some (coerce_json v, CHR '','' # ?t)" .
    have "parse_value (max n m) (print_json v @ CHR '','' # ?t) = Some (coerce_json v, CHR '','' # ?t)"
      "parse_elems (max n m) ?t = Some (map coerce_json vs, r)"
      using parse_mono(1) [OF n] parse_mono(2) [OF m] by simp_all
    then have "parse_elems (Suc (max n m)) (print_json v @ CHR '','' # ?t) = Some (map coerce_json (v # vs), r)"
      by (simp add: parse_fuel_simps hasPrefix_single)
    with Cons show ?thesis by (auto simp: join_simps)
  qed
qed simp

lemma parse_members_print:
  assumes "\<forall>(k, v) \<in> set ms. reads v" "ms \<noteq> []"
  shows "\<exists>n. parse_members n (join '','' (map (\<lambda>(k, v). print_string k @ '':'' @ print_json v) ms) @ CHR ''}'' # r) =
    Some (map (\<lambda>(k, v). (coerceUTF8 k, coerce_json v)) ms, r)"
  using assms
proof (induction ms)
  case (Cons e ms)
  obtain k v where e: "e = (k, v)" by force
  have step: "parse_members (Suc n) (print_string k @ CHR '':'' # print_json v @ x) =
      (if hasPrefix (ws y) ''}'' then Some ([(coerceUTF8 k, w)], tl (ws y))
       else if hasPrefix (ws y) '','' then prepend [(coerceUTF8 k, w)] (parse_members n (tl (ws y))) else None)"
    if "parse_value n (print_json v @ x) = Some (w, y)" for n x w y
    using that by (simp add: parse_fuel_simps print_string_def hasPrefix_single scan_string_esc)
  show ?case
  proof (cases ms)
    case Nil
    from Cons.prems have "reads v" by (simp add: e)
    from readsE [OF this num_end_sep(3)] obtain n where
      "parse_value n (print_json v @ CHR ''}'' # r) = Some (coerce_json v, CHR ''}'' # r)" .
    from step [OF this] show ?thesis by (intro exI [of _ "Suc n"]) (simp add: Nil e join_simps hasPrefix_single)
  next
    case (Cons e' ms')
    let ?t = "join '','' (map (\<lambda>(k, v). print_string k @ '':'' @ print_json v) ms) @ CHR ''}'' # r"
    obtain m where m: "parse_members m ?t = Some (map (\<lambda>(k, v). (coerceUTF8 k, coerce_json v)) ms, r)"
      using Cons.IH Cons.prems Cons by auto
    from Cons.prems have "reads v" by (simp add: e)
    from readsE [OF this num_end_sep(1)] obtain n where
      n: "parse_value n (print_json v @ CHR '','' # ?t) = Some (coerce_json v, CHR '','' # ?t)" .
    have "parse_value (max n m) (print_json v @ CHR '','' # ?t) = Some (coerce_json v, CHR '','' # ?t)"
      and m': "parse_members (max n m) ?t = Some (map (\<lambda>(k, v). (coerceUTF8 k, coerce_json v)) ms, r)"
      using parse_mono(1) [OF n] parse_mono(3) [OF m] by simp_all
    from step [OF this(1)] m' show ?thesis
      by (intro exI [of _ "Suc (max n m)"]) (simp add: Cons e join_simps hasPrefix_single)
  qed
qed simp

lemma reads_print: "int_json v \<Longrightarrow> reads v"
proof (induction v)
  case JNull
  show ?case by (auto simp: reads_def parse_fuel_simps hasPrefix_def is_digit_def digit_val_def intro!: exI [of _ 1])
next
  case (JBool b)
  show ?case by (cases b) (auto simp: reads_def parse_fuel_simps hasPrefix_def is_digit_def digit_val_def intro!: exI [of _ 1])
next
  case (JNum t)
  then obtain i where i: "t = itoa i" by auto
  obtain c u where c: "itoa i = c # u" "c = CHR ''-'' \<or> is_digit c" using itoa_head by blast
  have nw: "\<not> is_ws c" "c \<noteq> quote" "c \<noteq> CHR ''[''" "c \<noteq> CHR ''{''" using c(2) digit_not_ws [of c] by auto
  have "parse_value (Suc 0) (itoa i @ r) = Some (JNum (itoa i), r)" if "num_end r" for r
    using scan_num_itoa [OF that, of i] c nw by (simp add: parse_fuel_simps)
  then show ?case by (auto simp: reads_def i)
next
  case (JStr s)
  have "parse_value (Suc 0) (print_string s @ r) = Some (JStr (coerceUTF8 s), r)" for r
    by (simp add: parse_fuel_simps print_string_def scan_string_esc)
  then show ?case by (auto simp: reads_def)
next
  case (JArr vs)
  show ?case
  proof (cases vs)
    case Nil
    then show ?thesis by (auto simp: reads_def parse_fuel_simps join_def hasPrefix_single intro!: exI [of _ 1])
  next
    case (Cons v vs')
    then have "int_json v" using JArr.prems by simp
    from print_head [OF this] obtain c u where c: "print_json v = c # u" "\<not> is_ws c" "c \<noteq> CHR '']''" .
    have "\<exists>n. parse_value n (print_json (JArr vs) @ r) = Some (coerce_json (JArr vs), r)" for r
    proof -
      obtain n where "parse_elems n (join '','' (map print_json vs) @ CHR '']'' # r) = Some (map coerce_json vs, r)"
        using parse_elems_print [of vs r] JArr Cons by auto
      then have "parse_value (Suc n) (print_json (JArr vs) @ r) = Some (coerce_json (JArr vs), r)"
        using c by (simp add: parse_fuel_simps hasPrefix_single) (simp add: Cons join_def hasPrefix_single)
      then show ?thesis ..
    qed
    then show ?thesis by (simp add: reads_def)
  qed
next
  case (JObj ms)
  show ?case
  proof (cases ms)
    case Nil
    then show ?thesis by (auto simp: reads_def parse_fuel_simps join_def hasPrefix_single intro!: exI [of _ 1])
  next
    case (Cons e ms')
    have "\<exists>n. parse_value n (print_json (JObj ms) @ r) = Some (coerce_json (JObj ms), r)" for r
    proof -
      obtain n where "parse_members n (join '','' (map (\<lambda>(k, v). print_string k @ '':'' @ print_json v) ms) @ CHR ''}'' # r) =
          Some (map (\<lambda>(k, v). (coerceUTF8 k, coerce_json v)) ms, r)"
        using parse_members_print [of ms r] JObj Cons by fastforce
      then have "parse_value (Suc n) (print_json (JObj ms) @ r) = Some (coerce_json (JObj ms), r)"
        by (simp add: parse_fuel_simps hasPrefix_single) (simp add: Cons join_def hasPrefix_single print_string_def split: prod.splits)
      then show ?thesis ..
    qed
    then show ?thesis by (simp add: reads_def)
  qed
qed

lemma readValue_print:
  assumes "int_json v" "num_end r"
  shows "readValue (print_json v @ r) = Some (coerce_json v, r)"
proof -
  from readsE [OF reads_print [OF assms(1)] assms(2)] obtain n where
    "parse_value n (print_json v @ r) = Some (coerce_json v, r)" .
  from parse_enough(1) [OF this] show ?thesis by (simp add: readValue_def)
qed

lemma readValue_complete: "parse_value n s = Some x \<Longrightarrow> readValue s = Some x"
  unfolding readValue_def by (rule parse_enough(1))

end
