(* ===== verification/Go_Calendar.thy ===== *)
theory Go_Calendar
  imports Go_Time "HOL-Library.Monad_Syntax"
begin

text \<open>
  The proleptic Gregorian calendar in UTC and the \<^verbatim>\<open>time.RFC3339Nano\<close> layout: printing an
  instant of the years 0 to 9999 and reading it back with \<^verbatim>\<open>time.Parse\<close>.
\<close>

section \<open>The calendar\<close>

text \<open>
  Days since 1 March of year 0, decomposed into 400-year cycles, centuries, leap periods
  and years that begin in March, so that the leap day is the last of its year.
\<close>

definition civil_from_days :: "int \<Rightarrow> int \<times> nat \<times> nat" where
  "civil_from_days z =
     (let n = z + 719468; era = n div 146097; doe = nat (n mod 146097);
          c = min 3 (doe div 36524); r = doe - c * 36524;
          q = r div 1461; r2 = r - q * 1461;
          y1 = min 3 (r2 div 365); doy = r2 - y1 * 365;
          mp = (5 * doy + 2) div 153; d = doy - (153 * mp + 2) div 5 + 1;
          m = (if mp < 10 then mp + 3 else mp - 9);
          y = era * 400 + int (100 * c + 4 * q + y1)
      in (if m \<le> 2 then y + 1 else y, m, d))"

definition days_from_civil :: "int \<Rightarrow> nat \<Rightarrow> nat \<Rightarrow> int" where
  "days_from_civil y m d =
     (let y' = (if m \<le> 2 then y - 1 else y); era = y' div 400; yoe = nat (y' mod 400);
          mp = (if 2 < m then m - 3 else m + 9); doy = (153 * mp + 2) div 5 + d - 1;
          doe = yoe * 365 + yoe div 4 - yoe div 100 + doy
      in era * 146097 + int doe - 719468)"

definition is_leap :: "int \<Rightarrow> bool" where
  "is_leap y \<longleftrightarrow> y mod 4 = 0 \<and> (y mod 100 \<noteq> 0 \<or> y mod 400 = 0)"

definition days_in :: "nat \<Rightarrow> int \<Rightarrow> nat" where
  "days_in m y =
     (if m = 2 then (if is_leap y then 29 else 28)
      else if m \<in> {4, 6, 9, 11} then 30 else 31)"


subsection \<open>The decomposition is exact\<close>

text \<open>The day of a 400-year cycle: its century, leap period, year and day of the year.\<close>

lemma cycle_split:
  fixes doe :: nat
  assumes doe: "doe < 146097"
    and c: "c = min 3 (doe div 36524)" and r: "r = doe - c * 36524"
    and q: "q = r div 1461" and r2: "r2 = r - q * 1461"
    and y1: "y1 = min 3 (r2 div 365)" and doy: "doy = r2 - y1 * 365"
  shows "c \<le> 3" "q \<le> 24" "y1 \<le> 3" "doy \<le> 365"
    "doe = 36524 * c + 1461 * q + 365 * y1 + doy"
    "doy = 365 \<longrightarrow> y1 = 3 \<and> (q = 24 \<longrightarrow> c = 3)"
proof -
  show c3: "c \<le> 3" by (simp add: c)
  have cr: "doe = 36524 * c + r" "r \<le> 36524" "r = 36524 \<longrightarrow> c = 3"
    using doe unfolding c r by (simp_all add: min_def; linarith?)+
  have q24: "q \<le> 24" and qr: "r = 1461 * q + r2" "r2 \<le> 1460"
    using cr(2) unfolding q r2 by (simp_all; linarith?)+
  show "q \<le> 24" by (rule q24)
  show "y1 \<le> 3" by (simp add: y1)
  have yr: "r2 = 365 * y1 + doy" "doy \<le> 365" "doy = 365 \<longrightarrow> y1 = 3 \<and> r2 = 1460"
    using qr(2) unfolding y1 doy by (simp_all add: min_def; linarith?)+
  show "doy \<le> 365" by (rule yr(2))
  show "doe = 36524 * c + 1461 * q + 365 * y1 + doy"
    using cr(1) qr(1) yr(1) by linarith
  show "doy = 365 \<longrightarrow> y1 = 3 \<and> (q = 24 \<longrightarrow> c = 3)"
    using yr(3) qr cr by auto
qed

lemma year_of_cycle:
  fixes c q y1 :: nat
  assumes "c \<le> 3" "q \<le> 24" "y1 \<le> 3"
  defines "yoe \<equiv> 100 * c + 4 * q + y1"
  shows "yoe < 400" "yoe * 365 + yoe div 4 - yoe div 100 = 36524 * c + 1461 * q + 365 * y1"
proof -
  have "yoe div 100 = c" "yoe div 4 = 25 * c + q"
    using assms by (simp_all add: yoe_def; linarith?)+
  then show "yoe < 400" "yoe * 365 + yoe div 4 - yoe div 100 = 36524 * c + 1461 * q + 365 * y1"
    using assms by (simp_all add: yoe_def)
qed

lemma leap_after_cycle:
  fixes c q :: nat
  assumes "c \<le> 3" "q \<le> 24" "q = 24 \<longrightarrow> c = 3"
  shows "is_leap (era * 400 + int (100 * c + 4 * q + 3) + 1)"
proof -
  define n where "n = era * 400 + int (100 * c + 4 * q + 3) + 1"
  have 4: "n mod 4 = 0" by (simp add: n_def; presburger)
  show ?thesis
  proof (cases "q = 24")
    case True
    with assms have "n = (era + 1) * 400" by (simp add: n_def)
    then have "n mod 400 = 0" by simp
    with 4 show ?thesis by (simp add: is_leap_def n_def)
  next
    case False
    with assms have q: "q < 24" by simp
    have "n = (4 * era + int c) * 100 + (4 * int q + 4)" by (simp add: n_def)
    then have "n mod 100 = (4 * int q + 4) mod 100" by (simp only: mod_mult_self3)
    also have "\<dots> = 4 * int q + 4" using q by simp
    finally have "n mod 100 \<noteq> 0" by simp
    with 4 show ?thesis by (simp add: is_leap_def n_def)
  qed
qed

text \<open>Month and day from the day of a year that begins in March.\<close>

lemma month_of_doy:
  fixes doy :: nat
  assumes "doy \<le> 365"
  defines "mp \<equiv> (5 * doy + 2) div 153"
  shows "mp \<le> 11" "(153 * mp + 2) div 5 \<le> doy"
    "mp = 11 \<Longrightarrow> doy - (153 * mp + 2) div 5 + 1 \<le> (if doy = 365 then 29 else 28)"
    "mp \<in> {1, 3, 6, 8} \<Longrightarrow> doy - (153 * mp + 2) div 5 + 1 \<le> 30"
    "doy - (153 * mp + 2) div 5 + 1 \<le> 31"
proof -
  have lo: "153 * mp \<le> 5 * doy + 2" and hi: "5 * doy + 2 < 153 * mp + 153"
    unfolding mp_def by linarith+
  show m11: "mp \<le> 11" using lo assms(1) by linarith
  show "(153 * mp + 2) div 5 \<le> doy" using lo by linarith
  show "doy - (153 * mp + 2) div 5 + 1 \<le> (if doy = 365 then 29 else 28)" if "mp = 11"
    using that assms(1) by (simp; linarith)
  show "doy - (153 * mp + 2) div 5 + 1 \<le> 30" if "mp \<in> {1, 3, 6, 8}"
    using that hi by auto
  have "mp \<in> {0, 1, 2, 3, 4, 5, 6, 7, 8, 9, 10, 11}" using m11 by simp presburger
  then show "doy - (153 * mp + 2) div 5 + 1 \<le> 31"
    using hi assms(1) by auto
qed

lemma civil_from_days_cycle:
  assumes "civil_from_days z = (y, m, d)"
  obtains era c q y1 doy mp where
    "c \<le> 3" "q \<le> 24" "y1 \<le> 3" "doy \<le> 365" "doy = 365 \<longrightarrow> y1 = 3 \<and> (q = 24 \<longrightarrow> c = 3)"
    "z + 719468 = era * 146097 + int (36524 * c + 1461 * q + 365 * y1 + doy)"
    "mp = (5 * doy + 2) div 153" "d = doy - (153 * mp + 2) div 5 + 1"
    "m = (if mp < 10 then mp + 3 else mp - 9)"
    "y = era * 400 + int (100 * c + 4 * q + y1) + (if m \<le> 2 then 1 else 0)"
proof -
  define era where "era = (z + 719468) div 146097"
  define doe where "doe = nat ((z + 719468) mod 146097)"
  define c where "c = min 3 (doe div 36524)"
  define r where "r = doe - c * 36524"
  define q where "q = r div 1461"
  define r2 where "r2 = r - q * 1461"
  define y1 where "y1 = min 3 (r2 div 365)"
  define doy where "doy = r2 - y1 * 365"
  define mp where "mp = (5 * doy + 2) div 153"
  have lt: "doe < 146097" by (simp add: doe_def nat_less_iff)
  have z: "z + 719468 = era * 146097 + int doe" by (simp add: era_def doe_def)
  note sp = cycle_split [OF lt c_def r_def q_def r2_def y1_def doy_def]
  have eqs: "m = (if mp < 10 then mp + 3 else mp - 9)"
    "d = doy - (153 * mp + 2) div 5 + 1"
    "y = era * 400 + int (100 * c + 4 * q + y1) + (if m \<le> 2 then 1 else 0)"
    using assms [symmetric]
    unfolding civil_from_days_def Let_def era_def [symmetric] doe_def [symmetric]
      c_def [symmetric] r_def [symmetric] q_def [symmetric] r2_def [symmetric]
      y1_def [symmetric] doy_def [symmetric] mp_def [symmetric]
    by auto
  show ?thesis
    by (rule that [OF sp(1-4) sp(6) _ mp_def eqs(2,1,3)]) (simp only: z sp(5) [symmetric])
qed

theorem civil_from_days_valid:
  assumes "civil_from_days z = (y, m, d)"
  shows "1 \<le> m" "m \<le> 12" "1 \<le> d" "d \<le> days_in m y" "d \<le> 31"
proof -
  from civil_from_days_cycle [OF assms] obtain era c q y1 doy mp where
    b: "c \<le> 3" "q \<le> 24" "y1 \<le> 3" "doy \<le> 365" "doy = 365 \<longrightarrow> y1 = 3 \<and> (q = 24 \<longrightarrow> c = 3)"
    and mp: "mp = (5 * doy + 2) div 153" and d: "d = doy - (153 * mp + 2) div 5 + 1"
    and m: "m = (if mp < 10 then mp + 3 else mp - 9)"
    and y: "y = era * 400 + int (100 * c + 4 * q + y1) + (if m \<le> 2 then 1 else 0)" by metis
  note mo = month_of_doy [OF b(4), folded mp, folded d]
  show "1 \<le> m" "m \<le> 12" "1 \<le> d" "d \<le> 31" using mo(1,5) by (auto simp: m d)
  show "d \<le> days_in m y"
  proof (cases "mp = 11")
    case True
    then have "m = 2" by (simp add: m)
    moreover have "is_leap y" if "doy = 365"
      using leap_after_cycle [of c q era] b that \<open>m = 2\<close> by (simp add: y add.assoc)
    ultimately show ?thesis using mo(3) [OF True] by (auto simp: days_in_def split: if_splits)
  next
    case False
    then have "m \<noteq> 2" "m \<in> {4, 6, 9, 11} \<longleftrightarrow> mp \<in> {1, 3, 6, 8}" using mo(1) by (auto simp: m)
    then show ?thesis using mo(4,5) by (simp add: days_in_def)
  qed
qed

theorem days_from_civil_from_days:
  assumes "civil_from_days z = (y, m, d)"
  shows "days_from_civil y m d = z"
proof -
  from civil_from_days_cycle [OF assms] obtain era c q y1 doy mp where
    b: "c \<le> 3" "q \<le> 24" "y1 \<le> 3" "doy \<le> 365"
    and z: "z + 719468 = era * 146097 + int (36524 * c + 1461 * q + 365 * y1 + doy)"
    and mp: "mp = (5 * doy + 2) div 153" and d: "d = doy - (153 * mp + 2) div 5 + 1"
    and m: "m = (if mp < 10 then mp + 3 else mp - 9)"
    and y: "y = era * 400 + int (100 * c + 4 * q + y1) + (if m \<le> 2 then 1 else 0)" by metis
  define yoe where "yoe = 100 * c + 4 * q + y1"
  note yo = year_of_cycle [OF b(1-3), folded yoe_def] and mo = month_of_doy [OF b(4), folded mp]
  have y': "(if m \<le> 2 then y - 1 else y) = era * 400 + int yoe" by (simp add: y yoe_def)
  have mp': "(if 2 < m then m - 3 else m + 9) = mp" using mo(1) by (auto simp: m)
  have doy: "(153 * mp + 2) div 5 + d - 1 = doy" using mo(2) by (simp add: d)
  have era: "(era * 400 + int yoe) div 400 = era" "nat ((era * 400 + int yoe) mod 400) = yoe"
    using yo(1) by simp_all
  show ?thesis
    unfolding days_from_civil_def Let_def y' mp' doy era yo(2) using z by simp
qed

section \<open>RFC3339Nano\<close>

definition formatRFC3339Nano :: "instant \<Rightarrow> string" where
  "formatRFC3339Nano t =
     (let sec = t div 1000000000; tod = nat (sec mod 86400); (y, m, d) = civil_from_days (sec div 86400)
      in (if y < 0 then ''-'' else []) @ pad 4 (nat \<bar>y\<bar>) @ ''-'' @ pad 2 m @ ''-'' @ pad 2 d @ ''T'' @
         pad 2 (tod div 3600) @ '':'' @ pad 2 (tod div 60 mod 60) @ '':'' @ pad 2 (tod mod 60) @
         fmtFrac 9 (nat (t mod 1000000000)) @ ''Z'')"

text \<open>
  The steps of \<^verbatim>\<open>time.Parse\<close> for this layout: fields of a fixed number of digits, the hour
  of one or two, an optional fraction of which nine digits count, and the zone.
\<close>

definition getfixed :: "nat \<Rightarrow> string \<Rightarrow> (nat \<times> string) option" where
  "getfixed w s =
     (if length s < w then None
      else case dec_val 0 (take w s) of None \<Rightarrow> None | Some n \<Rightarrow> Some (n, drop w s))"

definition gethour :: "string \<Rightarrow> (nat \<times> string) option" where
  "gethour s = (case getfixed 2 s of None \<Rightarrow> getfixed 1 s | Some r \<Rightarrow> Some r)"

definition expect :: "char \<Rightarrow> string \<Rightarrow> string option" where
  "expect c s = (case s of [] \<Rightarrow> None | x # r \<Rightarrow> if x = c then Some r else None)"

definition scan_nanos :: "string \<Rightarrow> nat \<times> string" where
  "scan_nanos s =
     (case s of
        c # r \<Rightarrow>
          (let ds = takeWhile is_digit r; e = take 9 ds in
           if (c = CHR ''.'' \<or> c = CHR '','') \<and> ds \<noteq> []
           then (case dec_val 0 e of None \<Rightarrow> 0 | Some n \<Rightarrow> n * 10 ^ (9 - length e), dropWhile is_digit r)
           else (0, s))
      | [] \<Rightarrow> (0, s))"

definition scan_zone :: "string \<Rightarrow> (int \<times> string) option" where
  "scan_zone s =
     (case s of
        [] \<Rightarrow> None
      | c # r \<Rightarrow>
          if c = CHR ''Z'' then Some (0, r)
          else do {
            (hr, r) \<leftarrow> getfixed 2 r;
            r \<leftarrow> expect CHR '':'' r;
            (mm, r) \<leftarrow> getfixed 2 r;
            let off = int ((hr * 60 + mm) * 60);
            if 24 < hr \<or> 60 < mm then None
            else if c = CHR ''+'' then Some (off, r)
            else if c = CHR ''-'' then Some (- off, r) else None })"

definition parseRFC3339Nano :: "string \<Rightarrow> instant option" where
  "parseRFC3339Nano s = do {
     (y, s) \<leftarrow> getfixed 4 s;
     s \<leftarrow> expect CHR ''-'' s;
     (mo, s) \<leftarrow> getfixed 2 s;
     s \<leftarrow> expect CHR ''-'' s;
     (d, s) \<leftarrow> getfixed 2 s;
     s \<leftarrow> expect CHR ''T'' s;
     (h, s) \<leftarrow> gethour s;
     s \<leftarrow> expect CHR '':'' s;
     (mi, s) \<leftarrow> getfixed 2 s;
     s \<leftarrow> expect CHR '':'' s;
     (sec, s) \<leftarrow> getfixed 2 s;
     let (ns, s) = scan_nanos s;
     (off, s) \<leftarrow> scan_zone s;
     if s = [] \<and> 1 \<le> mo \<and> mo \<le> 12 \<and> 1 \<le> d \<and> d \<le> days_in mo (int y) \<and> h < 24 \<and> mi < 60 \<and> sec < 60
     then Some ((days_from_civil (int y) mo d * 86400 + int (h * 3600 + mi * 60 + sec) - off)
                  * 1000000000 + int ns)
     else None }"

text \<open>The instants whose year has four digits.\<close>

definition four_digit_year :: "instant \<Rightarrow> bool" where
  "four_digit_year t \<longleftrightarrow>
     (let y = fst (civil_from_days (t div 1000000000 div 86400)) in 0 \<le> y \<and> y \<le> 9999)"

text \<open>Every instant from the epoch on that an int64 of nanoseconds can hold is one.\<close>

lemma four_digit_year_int64:
  assumes "0 \<le> t" "t < 2 ^ 63"
  shows "four_digit_year t"
proof -
  define z where "z = t div 1000000000 div 86400"
  have z: "0 \<le> z" "z \<le> 106751" using assms unfolding z_def by (simp_all add: zdiv_zmult2_eq [symmetric] pos_imp_zdiv_nonneg_iff; linarith?)+
  obtain y m d where c: "civil_from_days z = (y, m, d)" by (metis prod_cases3)
  from civil_from_days_cycle [OF c] obtain era c q y1 doy mp where
    b: "c \<le> 3" "q \<le> 24" "y1 \<le> 3" "doy \<le> 365"
    "z + 719468 = era * 146097 + int (36524 * c + 1461 * q + 365 * y1 + doy)"
    "y = era * 400 + int (100 * c + 4 * q + y1) + (if m \<le> 2 then 1 else 0)" by metis
  have "1 \<le> era" "era \<le> 5" using b(1-5) z by (simp_all; linarith)+
  then have "0 \<le> y" "y \<le> 9999" using b(1-3) unfolding b(6) by (simp_all split: if_splits; linarith)+
  with c show ?thesis by (simp add: four_digit_year_def z_def [symmetric])
qed

lemma getfixed_pad [simp]: "0 < w \<Longrightarrow> n < 10 ^ w \<Longrightarrow> getfixed w (pad w n @ s) = Some (n, s)"
  by (simp add: getfixed_def length_pad)

lemma gethour_pad [simp]: "n < 100 \<Longrightarrow> gethour (pad 2 n @ s) = Some (n, s)"
  by (simp add: gethour_def)

lemma expect_Cons [simp]: "expect c (c # s) = Some s"
  by (simp add: expect_def)

lemma not_digit_Z [simp]: "\<not> is_digit CHR ''Z''"
  by (simp add: is_digit_def digit_val_def)

lemma scan_nanos_fmtFrac:
  assumes "q < 10 ^ 9"
  shows "scan_nanos (fmtFrac 9 q @ ''Z'') = (q, ''Z'')"
proof (cases "q = 0")
  case True
  then show ?thesis by (simp add: fmtFrac_def scan_nanos_def)
next
  case False
  define e where "e = strip_zeros (pad 9 q)"
  from strip_zeros_pad [of 9 q] assms obtain f where
    f: "dec_val 0 e = Some f" "length e \<le> 9" "q = f * 10 ^ (9 - length e)"
      "\<And>c. c \<in> set e \<Longrightarrow> is_digit c"
    unfolding e_def by auto
  have ne: "e \<noteq> []" using f(1,3) False by auto
  have "takeWhile is_digit (e @ ''Z'') = e" "dropWhile is_digit (e @ ''Z'') = ''Z''"
    using digit_scan [of e "''Z''"] f(4) by simp_all
  moreover have "fmtFrac 9 q = CHR ''.'' # e" using False by (simp add: fmtFrac_def e_def)
  ultimately show ?thesis
    using f(1,2) ne by (simp add: scan_nanos_def Let_def f(3) [symmetric])
qed

lemma time_of_day:
  fixes s :: int
  defines "tod \<equiv> nat (s mod 86400)"
  shows "tod div 3600 < 24" "int (tod div 3600 * 3600 + tod div 60 mod 60 * 60 + tod mod 60) = s mod 86400"
proof -
  have lt: "tod < 86400" "int tod = s mod 86400" by (simp_all add: tod_def nat_less_iff)
  show "tod div 3600 < 24" using lt(1) by linarith
  have "tod div 3600 = tod div 60 div 60" by (simp add: div_mult2_eq [symmetric])
  then have "tod div 3600 * 3600 + tod div 60 mod 60 * 60 + tod mod 60 = tod"
    using div_mult_mod_eq [of "tod div 60" 60] div_mult_mod_eq [of tod 60] by linarith
  then show "int (tod div 3600 * 3600 + tod div 60 mod 60 * 60 + tod mod 60) = s mod 86400"
    using lt(2) by simp
qed

theorem parse_formatRFC3339Nano:
  assumes "four_digit_year t"
  shows "parseRFC3339Nano (formatRFC3339Nano t) = Some t"
proof -
  define s where "s = t div 1000000000"
  define tod where "tod = nat (s mod 86400)"
  obtain y m d where c: "civil_from_days (s div 86400) = (y, m, d)" by (metis prod_cases3)
  obtain Y where y: "y = int Y" "Y < 10 ^ 4"
    using assms c by (cases y) (auto simp: four_digit_year_def s_def Let_def)
  note v = civil_from_days_valid [OF c] and tod = time_of_day [of s, folded tod_def]
  have q: "nat (t mod 1000000000) < 10 ^ 9" by (simp add: nat_less_iff)
  have eq: "(s div 86400 * 86400 + int (tod div 3600 * 3600 + tod div 60 mod 60 * 60 + tod mod 60)) * 1000000000
      + int (nat (t mod 1000000000)) = t"
    unfolding tod(2) by (simp add: s_def)
  have lt: "tod div 3600 < 100" "m < 10 ^ 2" "d < 10 ^ 2" "tod div 60 mod 60 < 10 ^ 2" "tod mod 60 < 10 ^ 2"
    using tod(1) v pos_mod_bound [of 60 "int tod"] by (simp_all add: less_le_trans [OF mod_less_divisor])
  show ?thesis
    unfolding formatRFC3339Nano_def s_def [symmetric] Let_def tod_def [symmetric] c prod.case
      parseRFC3339Nano_def
    using v tod(1) y lt eq unfolding y(1)
    by (simp add: scan_nanos_fmtFrac [OF q] scan_zone_def days_from_civil_from_days [OF c, unfolded y(1)])
qed

interpretation rfc3339: codec formatRFC3339Nano parseRFC3339Nano four_digit_year
  by unfold_locales (rule parse_formatRFC3339Nano)

text \<open>A printed instant is read back only if its year has four digits.\<close>

lemma dec_val_bound: "dec_val a s = Some n \<Longrightarrow> n < (a + 1) * 10 ^ length s"
proof (induction s arbitrary: a)
  case (Cons c s)
  then obtain d where d: "digit_val c = Some d" "dec_val (10 * a + d) s = Some n" by (auto split: option.splits)
  have "d \<le> 9" using d(1) by (auto simp: digit_val_def Let_def split: if_splits)
  have "n < (10 * a + d + 1) * 10 ^ length s" using Cons.IH [OF d(2)] by simp
  also have "\<dots> \<le> (10 * a + 10) * 10 ^ length s" using \<open>d \<le> 9\<close> by (intro mult_right_mono) simp_all
  finally show ?case by (simp add: algebra_simps)
qed simp

lemma getfixed_long:
  assumes "10000 \<le> n" "getfixed 4 (pad 4 n @ s) = Some (m, r)"
  shows "expect CHR ''-'' r = None"
proof -
  have "n < 10 ^ length (dec_nat n)" using dec_val_bound [of 0 "dec_nat n" n] dec_val_dec_nat [of n] by simp
  then have "4 < length (dec_nat n)"
    using assms(1) power_increasing [of "length (dec_nat n)" 4 "10 :: nat"] by (cases "4 < length (dec_nat n)") auto
  then have "pad 4 n = dec_nat n" "drop 4 (dec_nat n) \<noteq> []" by (simp_all add: pad_def)
  moreover have "r = drop 4 (pad 4 n @ s)" using assms(2) by (auto simp: getfixed_def split: if_splits option.splits)
  ultimately obtain c r' where "r = c # r'" "c \<in> set (dec_nat n)"
    using in_set_dropD [of _ 4 "dec_nat n"] \<open>4 < length (dec_nat n)\<close> by (cases "drop 4 (dec_nat n)") (auto intro: that)
  moreover have "is_digit c" using dec_nat_digits calculation by blast
  ultimately show ?thesis by (auto simp: expect_def)
qed

lemma parse_format_year:
  assumes "parseRFC3339Nano (formatRFC3339Nano t) = Some u"
  shows "four_digit_year t"
proof -
  obtain y m d where c: "civil_from_days (t div 1000000000 div 86400) = (y, m, d)" by (metis prod_cases3)
  obtain x s where f: "formatRFC3339Nano t = (if y < 0 then ''-'' else []) @ pad 4 (nat \<bar>y\<bar>) @ s" "x = nat \<bar>y\<bar>"
    by (simp add: formatRFC3339Nano_def Let_def c)
  have "\<not> y < 0"
  proof
    assume "y < 0"
    then have "getfixed 4 (formatRFC3339Nano t) = None" by (simp add: f getfixed_def digit_val_def)
    with assms show False by (simp add: parseRFC3339Nano_def)
  qed
  moreover have "y \<le> 9999"
  proof (rule ccontr)
    assume "\<not> y \<le> 9999"
    then have y: "10000 \<le> nat \<bar>y\<bar>" "formatRFC3339Nano t = pad 4 (nat \<bar>y\<bar>) @ s" using f by auto
    then show False
      using assms getfixed_long [OF y(1), of s]
      by (auto simp: parseRFC3339Nano_def bind_eq_Some_conv split: prod.splits)
  qed
  ultimately show ?thesis by (simp add: four_digit_year_def c)
qed

lemma zero_time_year: "four_digit_year zero_time"
  by code_simp

end
