(* ===== verification/Go_Decode.thy ===== *)
theory Go_Decode
  imports Go_Json Go_Calendar
begin

text \<open>
  How \<^verbatim>\<open>encoding/json\<close> fills a Go struct from a value: the field of an object member by exact
  name and else without regard to case, what each kind of field accepts, what a null and
  a repeated member leave behind, and the refusal of unknown members on request. Byte
  slices travel as padded base64.
\<close>

section \<open>Padded base64\<close>

definition to_std :: "char \<Rightarrow> char" where
  "to_std c = (if c = CHR ''-'' then CHR ''+'' else if c = CHR ''_'' then CHR ''/'' else c)"

definition std_val :: "char \<Rightarrow> nat option" where
  "std_val c =
     (if c = CHR ''+'' then Some 62 else if c = CHR ''/'' then Some 63
      else if c = CHR ''-'' \<or> c = CHR ''_'' then None else b64val c)"

definition stdEncode :: "string \<Rightarrow> string" where
  "stdEncode bs = map to_std (b64encode bs) @ replicate ((3 - length bs mod 3) mod 3) CHR ''=''"

definition stdDecode :: "string \<Rightarrow> string option" where
  "stdDecode s =
     (let t = filter (\<lambda>c. \<not> is_newline c) s; body = takeWhile (\<lambda>c. c \<noteq> CHR ''='') t; pads = dropWhile (\<lambda>c. c \<noteq> CHR ''='') t
      in if length t mod 4 = 0 \<and> length pads \<le> 2 \<and> list_all (\<lambda>c. c = CHR ''='') pads
         then Option.bind (those (map std_val body)) b64quanta else None)"

lemma length_b64encode: "(length (b64encode bs) + (3 - length bs mod 3) mod 3) mod 4 = 0"
proof (induction bs rule: b64encode.induct)
  case (4 a b c r)
  have "length (a # b # c # r) mod 3 = length r mod 3" by simp
  with 4 show ?case by simp
qed simp_all

lemma std_val_to_std:
  assumes "b64val c \<noteq> None"
  shows "std_val (to_std c) = b64val c \<and> to_std c \<noteq> CHR ''='' \<and> \<not> is_newline (to_std c)"
proof -
  have "b64val (CHR ''+'') = None" "b64val (CHR ''/'') = None" "b64val (CHR ''='') = None"
    "b64val (CHR 0x0A) = None" "b64val (CHR 0x0D) = None" "b64val (CHR ''-'') = Some 62" "b64val (CHR ''_'') = Some 63"
    by code_simp+
  with assms show ?thesis
    by (cases "c = CHR ''-'' \<or> c = CHR ''_''") (auto simp: std_val_def to_std_def is_newline_def)
qed

lemma stdDecode_stdEncode: "stdDecode (stdEncode bs) = Some bs"
proof -
  have al: "b64val c \<noteq> None" if "c \<in> set (b64encode bs)" for c using b64encode_alphabet that by blast
  let ?b = "map to_std (b64encode bs)" and ?p = "replicate ((3 - length bs mod 3) mod 3) CHR ''=''"
  have "filter (\<lambda>c. \<not> is_newline c) (stdEncode bs) = stdEncode bs"
    unfolding stdEncode_def using std_val_to_std al by (auto simp: filter_id_conv is_newline_def)
  moreover have "takeWhile (\<lambda>c. c \<noteq> CHR ''='') (stdEncode bs) = ?b" "dropWhile (\<lambda>c. c \<noteq> CHR ''='') (stdEncode bs) = ?p"
    unfolding stdEncode_def using std_val_to_std al
    by (auto simp: takeWhile_append dropWhile_append takeWhile_eq_all_conv)
  moreover have "length (stdEncode bs) mod 4 = 0" using length_b64encode [of bs] by (simp add: stdEncode_def)
  moreover have eq: "map std_val ?b = map b64val (b64encode bs)" using std_val_to_std al by simp
  have "Option.bind (those (map std_val ?b)) b64quanta = Some bs"
    unfolding eq using b64decode_encode [of bs] filter_b64encode [of bs] by (simp add: b64decode_def)
  moreover have "(3 - length bs mod 3) mod 3 \<le> 2" using mod_less_divisor [of 3 "3 - length bs mod 3"] by linarith
  ultimately show ?thesis by (simp only: stdDecode_def Let_def) (simp add: list_all_iff)
qed

section \<open>Fields\<close>

text \<open>
  The content of a field. A slice keeps its backing array and its length: an element that
  is null leaves what the array held.
\<close>

datatype fval =
    FStr string
  | FStrs "string list" nat
  | FMap gomap
  | FBytes "char list" nat
  | FInt int
  | FBool bool
  | FTime instant

fun decodeFrom :: "('a \<Rightarrow> json \<Rightarrow> 'a option) \<Rightarrow> 'a \<Rightarrow> 'a list \<Rightarrow> json list \<Rightarrow> 'a list option" where
  "decodeFrom dec zero back [] = Some back"
| "decodeFrom dec zero back (j # js) =
     (case dec (case back of [] \<Rightarrow> zero | b # _ \<Rightarrow> b) j of
        None \<Rightarrow> None
      | Some x \<Rightarrow> map_option ((#) x) (decodeFrom dec zero (tl back) js))"

definition decodeElems :: "('a \<Rightarrow> json \<Rightarrow> 'a option) \<Rightarrow> 'a \<Rightarrow> 'a list \<Rightarrow> json list \<Rightarrow> 'a list option" where
  "decodeElems dec zero back js = (if js = [] then Some [] else decodeFrom dec zero back js)"

definition decodeString :: "string \<Rightarrow> json \<Rightarrow> string option" where
  "decodeString old j = (case j of JNull \<Rightarrow> Some old | JStr s \<Rightarrow> Some s | _ \<Rightarrow> None)"

definition decodeByte :: "char \<Rightarrow> json \<Rightarrow> char option" where
  "decodeByte old j =
     (case j of JNull \<Rightarrow> Some old | JNum t \<Rightarrow> map_option char_of (parseUint 8 t) | _ \<Rightarrow> None)"

fun decodeLabels :: "gomap \<Rightarrow> (string \<times> json) list \<Rightarrow> gomap option" where
  "decodeLabels m [] = Some m"
| "decodeLabels m ((k, j) # ms) =
     (case decodeString [] j of None \<Rightarrow> None | Some s \<Rightarrow> decodeLabels (mput k s m) ms)"

definition decodeInto :: "fval \<Rightarrow> json \<Rightarrow> fval option" where
  "decodeInto f j =
     (case f of
        FStr old \<Rightarrow> map_option FStr (decodeString old j)
      | FStrs back n \<Rightarrow>
          (case j of JNull \<Rightarrow> Some (FStrs [] 0)
           | JArr js \<Rightarrow> map_option (\<lambda>b. FStrs b (length js)) (decodeElems decodeString [] back js) | _ \<Rightarrow> None)
      | FMap m \<Rightarrow>
          (case j of JNull \<Rightarrow> Some (FMap []) | JObj ms \<Rightarrow> map_option FMap (decodeLabels m ms) | _ \<Rightarrow> None)
      | FBytes back n \<Rightarrow>
          (case j of JNull \<Rightarrow> Some (FBytes [] 0)
           | JStr s \<Rightarrow> map_option (\<lambda>b. FBytes b (length b)) (stdDecode s)
           | JArr js \<Rightarrow> map_option (\<lambda>b. FBytes b (length js)) (decodeElems decodeByte (CHR 0x00) back js) | _ \<Rightarrow> None)
      | FInt old \<Rightarrow> (case j of JNull \<Rightarrow> Some f | JNum t \<Rightarrow> map_option FInt (parseInt64 t) | _ \<Rightarrow> None)
      | FBool old \<Rightarrow> (case j of JNull \<Rightarrow> Some f | JBool b \<Rightarrow> Some (FBool b) | _ \<Rightarrow> None)
      | FTime old \<Rightarrow> (case j of JNull \<Rightarrow> Some f | JStr s \<Rightarrow> map_option FTime (parseRFC3339Nano s) | _ \<Rightarrow> None))"

text \<open>Case folding, on the runes that can fold to an ASCII letter.\<close>

fun foldName :: "string \<Rightarrow> string" where
  "foldName [] = []"
| "foldName (a # s) =
     (if 97 \<le> byte a \<and> byte a \<le> 122 then char_of (byte a - 32) # foldName s
      else case s of
        b # t \<Rightarrow>
          (if byte a = 197 \<and> byte b = 191 then CHR ''S'' # foldName t
           else case t of
             c # u \<Rightarrow> if byte a = 226 \<and> byte b = 132 \<and> byte c = 170 then CHR ''K'' # foldName u else a # foldName s
           | [] \<Rightarrow> a # foldName s)
      | [] \<Rightarrow> [a])"

definition fieldFor :: "(string \<times> fval) list \<Rightarrow> string \<Rightarrow> string option" where
  "fieldFor fs k =
     (if map_of fs k \<noteq> None then Some k
      else map_option fst (List.find (\<lambda>(f, _). foldName f = foldName k) fs))"

fun decodeMembers :: "bool \<Rightarrow> (string \<times> fval) list \<Rightarrow> (string \<times> json) list \<Rightarrow> (string \<times> fval) list option" where
  "decodeMembers strict fs [] = Some fs"
| "decodeMembers strict fs ((k, j) # ms) =
     (case fieldFor fs k of
        None \<Rightarrow> if strict then None else decodeMembers strict fs ms
      | Some f \<Rightarrow>
          (case Option.bind (map_of fs f) (\<lambda>old. decodeInto old j) of
             None \<Rightarrow> None
           | Some new \<Rightarrow> decodeMembers strict (mput f new fs) ms))"

definition decodeStruct :: "bool \<Rightarrow> (string \<times> fval) list \<Rightarrow> json \<Rightarrow> (string \<times> fval) list option" where
  "decodeStruct strict fs j =
     (case j of JNull \<Rightarrow> Some fs | JObj ms \<Rightarrow> decodeMembers strict fs ms | _ \<Rightarrow> None)"

text \<open>Reading a field of a decoded struct.\<close>

definition theStr :: "(string \<times> fval) list \<Rightarrow> string \<Rightarrow> string" where
  "theStr fs f = (case map_of fs f of Some (FStr s) \<Rightarrow> s | _ \<Rightarrow> [])"

definition theStrs :: "(string \<times> fval) list \<Rightarrow> string \<Rightarrow> string list" where
  "theStrs fs f = (case map_of fs f of Some (FStrs back n) \<Rightarrow> take n back | _ \<Rightarrow> [])"

definition theMap :: "(string \<times> fval) list \<Rightarrow> string \<Rightarrow> gomap" where
  "theMap fs f = (case map_of fs f of Some (FMap m) \<Rightarrow> m | _ \<Rightarrow> [])"

definition theBytes :: "(string \<times> fval) list \<Rightarrow> string \<Rightarrow> string" where
  "theBytes fs f = (case map_of fs f of Some (FBytes back n) \<Rightarrow> take n back | _ \<Rightarrow> [])"

definition theInt :: "(string \<times> fval) list \<Rightarrow> string \<Rightarrow> int" where
  "theInt fs f = (case map_of fs f of Some (FInt n) \<Rightarrow> n | _ \<Rightarrow> 0)"

definition theBool :: "(string \<times> fval) list \<Rightarrow> string \<Rightarrow> bool" where
  "theBool fs f = (case map_of fs f of Some (FBool b) \<Rightarrow> b | _ \<Rightarrow> False)"

definition theTime :: "(string \<times> fval) list \<Rightarrow> string \<Rightarrow> instant" where
  "theTime fs f = (case map_of fs f of Some (FTime t) \<Rightarrow> t | _ \<Rightarrow> zero_time)"

section \<open>Lemmas\<close>

lemma decodeFrom_strings: "decodeFrom decodeString [] [] (map JStr xs) = Some xs"
  by (induction xs) (simp_all add: decodeString_def)

lemma decodeElems_strings: "decodeElems decodeString [] [] (map JStr xs) = Some xs"
  by (simp add: decodeElems_def decodeFrom_strings)

lemma decodeInto_strings: "decodeInto (FStrs [] 0) (JArr (map JStr xs)) = Some (FStrs xs (length xs))"
  by (simp add: decodeInto_def decodeElems_strings)

lemma decodeInto_bytes: "decodeInto (FBytes [] 0) (JStr (stdEncode bs)) = Some (FBytes bs (length bs))"
  by (simp add: decodeInto_def stdDecode_stdEncode)

lemma decodeLabels_map: "decodeLabels m (map (\<lambda>(k, v). (k, JStr v)) ls) = Some (fold (\<lambda>(k, v). mput k v) ls m)"
  by (induction ls arbitrary: m) (auto simp: decodeString_def)


lemma decodeMembers_exact:
  assumes "map_of fs f = Some old" "decodeInto old j = Some new"
  shows "decodeMembers strict fs ((f, j) # ms) = decodeMembers strict (mput f new fs) ms"
  using assms by (simp add: fieldFor_def)

end
