(* ===== verification/Sandbox_Contract.thy ===== *)
theory Sandbox_Contract
  imports Ob_Errors Go_Time
begin

text \<open>
  Package \<^verbatim>\<open>pkg/sandbox\<close>: the data every backend shares (\<open>Info\<close>, \<open>Command\<close>, \<open>Result\<close>,
  \<open>Preview\<close>, \<open>Spec\<close>), the validation of commands and specs, the secure defaults with
  the options that override them, and the timeout rule.
\<close>

section \<open>Data (sandbox.go)\<close>

definition StateRunning :: string where "StateRunning = ''running''"
definition StateStopped :: string where "StateStopped = ''stopped''"
definition StateError :: string where "StateError = ''error''"

record Info =
  i_Name :: string
  i_ID :: string
  i_Image :: string
  i_State :: string
  i_CreatedAt :: instant
  i_Labels :: gomap

text \<open>A reader given as stdin is the bytes it will deliver; no reader is \<^const>\<open>None\<close>.\<close>

record Command =
  c_Argv :: "string list"
  c_Env :: "string list"
  c_Dir :: string
  c_Stdin :: "string option"
  c_Timeout :: duration

record Result =
  r_Stdout :: string
  r_Stderr :: string
  r_ExitCode :: int
  r_Truncated :: bool
  r_Stopped :: bool
  r_OOMKilled :: bool

definition MaxOutputBytes :: nat where
  "MaxOutputBytes = 16 * 2 ^ 20"

record Preview =
  p_URL :: string
  p_Token :: string
  p_Port :: int
  p_ExpiresAt :: instant

definition Expired :: "Preview \<Rightarrow> instant \<Rightarrow> bool" where
  "Expired p now \<longleftrightarrow> \<not> now < p_ExpiresAt p"

definition newInvalidError :: "string \<Rightarrow> gerr" where
  "newInvalidError f = Errorf (''%w: '' @ f) [Sentinel ErrInvalid]"

text \<open>The loop of \<^verbatim>\<open>isEnvEntry\<close> over the bytes, with the index it has reached.\<close>

fun isEnvEntry_from :: "nat \<Rightarrow> string \<Rightarrow> bool" where
  "isEnvEntry_from i [] = False"
| "isEnvEntry_from i (c # s) = (if c = CHR ''='' then 0 < i else isEnvEntry_from (Suc i) s)"

definition isEnvEntry :: "string \<Rightarrow> bool" where
  "isEnvEntry s = isEnvEntry_from 0 s"

definition Command_Validate :: "Command \<Rightarrow> gerr option" where
  "Command_Validate c =
     (if c_Argv c = [] then Some (newInvalidError ''command has no argv'')
      else if hd (c_Argv c) = [] then Some (newInvalidError ''command program is empty'')
      else if c_Timeout c < 0 then Some (newInvalidError ''command timeout is negative'')
      else case find (\<lambda>e. \<not> isEnvEntry e) (c_Env c) of
             Some e \<Rightarrow> Some (newInvalidError ''environment entry %q is not KEY=value'')
           | None \<Rightarrow> None)"

section \<open>Specs (options.go)\<close>

definition EgressNone :: int where "EgressNone = 0"
definition EgressUnrestricted :: int where "EgressUnrestricted = 1"

record Resources =
  CPUs :: float64
  MemoryBytes :: int
  DiskBytes :: int
  MaxProcesses :: int

record Lifetime =
  IdleTimeout :: duration
  MaxAge :: duration

record Spec =
  sp_Image :: string
  sp_Runtime :: string
  sp_User :: string
  sp_Resources :: Resources
  sp_Lifetime :: Lifetime
  sp_Egress :: int
  sp_Env :: "string list"
  sp_Labels :: gomap
  sp_DefaultTimeout :: duration
  sp_MaxTimeout :: duration

definition validateEgress :: "int \<Rightarrow> gerr option" where
  "validateEgress p =
     (if p = EgressNone \<or> p = EgressUnrestricted then None
      else Some (newInvalidError ''egress policy %d is not a known policy''))"

definition validateId :: "string \<Rightarrow> gerr option" where
  "validateId v =
     (case parseUint 31 v of
        None \<Rightarrow> Some (newInvalidError ''user %q: %s %q is not numeric; names resolve inside the untrusted image'')
      | Some n \<Rightarrow>
          if n = 0
          then Some (newInvalidError ''user %q: %s 0 is root; sandboxes must run unprivileged'')
          else None)"

definition validateUser :: "string \<Rightarrow> gerr option" where
  "validateUser user =
     (case cut user CHR '':'' of
        None \<Rightarrow> Some (newInvalidError ''user %q: want numeric uid:gid; a bare uid takes its groups from the untrusted image'')
      | Some (uid, gid) \<Rightarrow>
          (case validateId uid of Some e \<Rightarrow> Some e | None \<Rightarrow> validateId gid))"

definition Resources_Validate :: "Resources \<Rightarrow> gerr option" where
  "Resources_Validate r =
     (if DiskBytes r > MemoryBytes r
      then Some (newInvalidError ''DiskBytes (%d) exceeds MemoryBytes (%d): scratch space is tmpfs and is drawn from the memory budget'')
      else None)"

definition Spec_Validate :: "Spec \<Rightarrow> gerr option" where
  "Spec_Validate s =
     (case validateUser (sp_User s) of
        Some e \<Rightarrow> Some e
      | None \<Rightarrow>
          (case validateEgress (sp_Egress s) of
             Some e \<Rightarrow> Some e
           | None \<Rightarrow> Resources_Validate (sp_Resources s)))"

definition DefaultRuntime :: string where "DefaultRuntime = ''runsc''"
definition DefaultUser :: string where "DefaultUser = ''1000:1000''"
definition DefaultCPUs :: float64 where "DefaultCPUs = Fin 2"
definition DefaultMemoryBytes :: int where "DefaultMemoryBytes = 2 * 2 ^ 30"
definition DefaultDiskBytes :: int where "DefaultDiskBytes = 2 ^ 30"
definition DefaultMaxProcesses :: int where "DefaultMaxProcesses = 256"
definition DefaultIdleTimeout :: duration where "DefaultIdleTimeout = minutes 15"
definition DefaultMaxAge :: duration where "DefaultMaxAge = hours 2"
definition DefaultCommandTimeout :: duration where "DefaultCommandTimeout = seconds 60"
definition MaxCommandTimeout :: duration where "MaxCommandTimeout = minutes 10"

lemmas spec_defaults =
  DefaultRuntime_def DefaultUser_def DefaultCPUs_def DefaultMemoryBytes_def DefaultDiskBytes_def
  DefaultMaxProcesses_def DefaultIdleTimeout_def DefaultMaxAge_def DefaultCommandTimeout_def
  MaxCommandTimeout_def minutes_def hours_def seconds_def

text \<open>A \<^verbatim>\<open>CreateOption\<close> mutates the spec it is given.\<close>

type_synonym CreateOption = "Spec \<Rightarrow> Spec"

definition defaultSpec :: Spec where
  "defaultSpec =
     \<lparr> sp_Image = [], sp_Runtime = DefaultRuntime, sp_User = DefaultUser,
       sp_Resources = \<lparr> CPUs = DefaultCPUs, MemoryBytes = DefaultMemoryBytes,
         DiskBytes = DefaultDiskBytes, MaxProcesses = DefaultMaxProcesses \<rparr>,
       sp_Lifetime = \<lparr> IdleTimeout = DefaultIdleTimeout, MaxAge = DefaultMaxAge \<rparr>,
       sp_Egress = EgressNone, sp_Env = [], sp_Labels = [],
       sp_DefaultTimeout = DefaultCommandTimeout, sp_MaxTimeout = MaxCommandTimeout \<rparr>"

definition newSpec :: "CreateOption list \<Rightarrow> Spec" where
  "newSpec opts = fold (\<lambda>opt s. opt s) opts defaultSpec"

definition ResolveTimeout :: "Spec \<Rightarrow> duration \<Rightarrow> duration" where
  "ResolveTimeout s requested =
     (let requested = (if requested \<le> 0 then sp_DefaultTimeout s else requested)
      in if sp_MaxTimeout s > 0 \<and> requested > sp_MaxTimeout s then sp_MaxTimeout s else requested)"

definition WithImage :: "string \<Rightarrow> CreateOption" where
  "WithImage ref = (\<lambda>s. s\<lparr>sp_Image := ref\<rparr>)"

definition WithRuntime :: "string \<Rightarrow> CreateOption" where
  "WithRuntime name = (\<lambda>s. s\<lparr>sp_Runtime := name\<rparr>)"

definition WithUser :: "string \<Rightarrow> CreateOption" where
  "WithUser user = (\<lambda>s. s\<lparr>sp_User := user\<rparr>)"

definition WithResources :: "Resources \<Rightarrow> CreateOption" where
  "WithResources r = (\<lambda>s. s\<lparr>sp_Resources :=
     (let old = sp_Resources s in
      \<lparr> CPUs = (if f64_pos (CPUs r) then CPUs r else CPUs old),
        MemoryBytes = (if MemoryBytes r > 0 then MemoryBytes r else MemoryBytes old),
        DiskBytes = (if DiskBytes r > 0 then DiskBytes r else DiskBytes old),
        MaxProcesses = (if MaxProcesses r > 0 then MaxProcesses r else MaxProcesses old) \<rparr>)\<rparr>)"

definition WithLifetime :: "Lifetime \<Rightarrow> CreateOption" where
  "WithLifetime l = (\<lambda>s. s\<lparr>sp_Lifetime :=
     (let old = sp_Lifetime s in
      \<lparr> IdleTimeout = (if IdleTimeout l \<noteq> 0 then IdleTimeout l else IdleTimeout old),
        MaxAge = (if MaxAge l \<noteq> 0 then MaxAge l else MaxAge old) \<rparr>)\<rparr>)"

definition WithEgress :: "int \<Rightarrow> CreateOption" where
  "WithEgress p = (\<lambda>s. s\<lparr>sp_Egress := p\<rparr>)"

definition WithEnv :: "string list \<Rightarrow> CreateOption" where
  "WithEnv entries = (\<lambda>s. s\<lparr>sp_Env := sp_Env s @ entries\<rparr>)"

definition WithLabel :: "string \<Rightarrow> string \<Rightarrow> CreateOption" where
  "WithLabel key val = (\<lambda>s. s\<lparr>sp_Labels := mput key val (sp_Labels s)\<rparr>)"

definition WithCommandTimeouts :: "duration \<Rightarrow> duration \<Rightarrow> CreateOption" where
  "WithCommandTimeouts def most = (\<lambda>s.
     s\<lparr> sp_DefaultTimeout := (if def > 0 then def else sp_DefaultTimeout s),
        sp_MaxTimeout := (if most > 0 then most else sp_MaxTimeout s) \<rparr>)"

lemmas option_defs =
  WithImage_def WithRuntime_def WithUser_def WithResources_def WithLifetime_def WithEgress_def
  WithEnv_def WithLabel_def WithCommandTimeouts_def

section \<open>Validation\<close>

lemma errIs_newInvalidError [simp]: "errIs (newInvalidError f) s \<longleftrightarrow> s = ErrInvalid"
  by (auto simp: newInvalidError_def)

lemma isEnvEntry_from_iff:
  "isEnvEntry_from i s \<longleftrightarrow> (\<exists>k v. s = k @ CHR ''='' # v \<and> CHR ''='' \<notin> set k \<and> 0 < i + length k)"
proof (induction s arbitrary: i)
  case (Cons c s)
  show ?case
  proof (cases "c = CHR ''=''")
    case True
    then show ?thesis by (auto simp: Cons_eq_append_conv)
  next
    case False
    then have "isEnvEntry_from i (c # s) \<longleftrightarrow>
      (\<exists>k v. s = k @ CHR ''='' # v \<and> CHR ''='' \<notin> set k)" by (simp add: Cons.IH)
    also have "\<dots> \<longleftrightarrow>
      (\<exists>k v. c # s = k @ CHR ''='' # v \<and> CHR ''='' \<notin> set k \<and> 0 < i + length k)"
      using False by (fastforce simp: Cons_eq_append_conv)
    finally show ?thesis .
  qed
qed simp

lemma isEnvEntry_iff:
  "isEnvEntry s \<longleftrightarrow> (\<exists>k v. s = k @ CHR ''='' # v \<and> k \<noteq> [] \<and> CHR ''='' \<notin> set k)"
  by (auto simp: isEnvEntry_def isEnvEntry_from_iff)

lemma Command_Validate_None:
  "Command_Validate c = None \<longleftrightarrow>
     c_Argv c \<noteq> [] \<and> hd (c_Argv c) \<noteq> [] \<and> 0 \<le> c_Timeout c \<and> (\<forall>e \<in> set (c_Env c). isEnvEntry e)"
  by (auto simp: Command_Validate_def find_None_iff find_Some_iff split: option.splits)

lemma Command_Validate_Some:
  "Command_Validate c = Some e \<Longrightarrow> errIs e s \<longleftrightarrow> s = ErrInvalid"
  by (auto simp: Command_Validate_def split: if_splits option.splits)

lemma validateId_None: "validateId v = None \<longleftrightarrow> v \<noteq> [] \<and> (\<exists>n. dec_val 0 v = Some n \<and> 0 < n \<and> n < 2 ^ 31)"
  by (auto simp: validateId_def parseUint_def split: option.splits)

lemma dec_val_no_colon: "dec_val a v = Some n \<Longrightarrow> CHR '':'' \<notin> set v"
  using dec_val_digits not_digit_sep(1) by blast

lemma validateUser_None_iff:
  "validateUser u = None \<longleftrightarrow>
     (\<exists>uid gid. u = uid @ CHR '':'' # gid \<and> validateId uid = None \<and> validateId gid = None)"
proof
  assume "validateUser u = None"
  then obtain uid gid where "cut u CHR '':'' = Some (uid, gid)" "validateId uid = None" "validateId gid = None"
    by (auto simp: validateUser_def split: option.splits)
  then show "\<exists>uid gid. u = uid @ CHR '':'' # gid \<and> validateId uid = None \<and> validateId gid = None"
    using cut_Some by blast
next
  assume "\<exists>uid gid. u = uid @ CHR '':'' # gid \<and> validateId uid = None \<and> validateId gid = None"
  then obtain uid gid where u: "u = uid @ CHR '':'' # gid" "validateId uid = None" "validateId gid = None"
    by blast
  then have "CHR '':'' \<notin> set uid" by (auto simp: validateId_None dest: dec_val_no_colon)
  with u show "validateUser u = None" by (simp add: validateUser_def cut_append)
qed

lemma validateUser_Some: "validateUser u = Some e \<Longrightarrow> errIs e s \<longleftrightarrow> s = ErrInvalid"
  by (auto simp: validateUser_def validateId_def split: option.splits if_splits)

lemma Spec_Validate_None:
  "Spec_Validate s = None \<longleftrightarrow>
     validateUser (sp_User s) = None \<and> (sp_Egress s = EgressNone \<or> sp_Egress s = EgressUnrestricted) \<and>
     DiskBytes (sp_Resources s) \<le> MemoryBytes (sp_Resources s)"
  by (auto simp: Spec_Validate_def validateEgress_def Resources_Validate_def split: option.splits)

lemma Spec_Validate_Some: "Spec_Validate s = Some e \<Longrightarrow> errIs e t \<longleftrightarrow> t = ErrInvalid"
  by (auto simp: Spec_Validate_def validateEgress_def Resources_Validate_def
      split: option.splits if_splits dest: validateUser_Some)

section \<open>Options over the defaults\<close>

text \<open>What the exported \<^verbatim>\<open>With...\<close> functions can produce.\<close>

inductive lib_option :: "CreateOption \<Rightarrow> bool" where
  "lib_option (WithImage ref)"
| "lib_option (WithRuntime name)"
| "lib_option (WithUser user)"
| "lib_option (WithResources r)"
| "lib_option (WithLifetime l)"
| "lib_option (WithEgress p)"
| "lib_option (WithEnv es)"
| "lib_option (WithLabel k v)"
| "lib_option (WithCommandTimeouts d m)"

text \<open>Every bound is set: positive sizes and timeouts, lifetimes that are set or disabled on purpose.\<close>

definition bounded_spec :: "Spec \<Rightarrow> bool" where
  "bounded_spec s \<longleftrightarrow>
     f64_pos (CPUs (sp_Resources s)) \<and> 0 < MemoryBytes (sp_Resources s) \<and>
     0 < DiskBytes (sp_Resources s) \<and> 0 < MaxProcesses (sp_Resources s) \<and>
     IdleTimeout (sp_Lifetime s) \<noteq> 0 \<and> MaxAge (sp_Lifetime s) \<noteq> 0 \<and>
     0 < sp_DefaultTimeout s \<and> 0 < sp_MaxTimeout s \<and> wf_map (sp_Labels s)"

lemma bounded_defaultSpec: "bounded_spec defaultSpec"
  by (simp add: bounded_spec_def defaultSpec_def spec_defaults)

lemma bounded_lib_option: "lib_option opt \<Longrightarrow> bounded_spec s \<Longrightarrow> bounded_spec (opt s)"
  by (induction rule: lib_option.induct) (simp_all add: bounded_spec_def option_defs Let_def)

lemma newSpec_fold_invariant:
  assumes "P defaultSpec" "\<And>opt s. opt \<in> set opts \<Longrightarrow> P s \<Longrightarrow> P (opt s)"
  shows "P (newSpec opts)"
proof -
  have "P (fold (\<lambda>opt s. opt s) os s)" if "P s" "set os \<subseteq> set opts" for os s
    using that by (induction os arbitrary: s) (auto intro: assms(2))
  from this [OF assms(1), of opts] show ?thesis by (simp add: newSpec_def)
qed

lemma newSpec_append: "newSpec (xs @ ys) = fold (\<lambda>opt s. opt s) ys (newSpec xs)"
  by (simp add: newSpec_def)

lemma newSpec_bounded_lib: "\<forall>opt \<in> set opts. lib_option opt \<Longrightarrow> bounded_spec (newSpec opts)"
  by (rule newSpec_fold_invariant) (auto intro: bounded_defaultSpec bounded_lib_option)

text \<open>The part of a spec an isolation policy decides: everything but environment and labels.\<close>

definition policy :: "Spec \<Rightarrow> Spec" where
  "policy s = s\<lparr>sp_Env := [], sp_Labels := []\<rparr>"

lemma policy_WithEnv [simp]: "policy (WithEnv es s) = policy s"
  and policy_WithLabel [simp]: "policy (WithLabel k v s) = policy s"
  by (simp_all add: policy_def option_defs)

lemma ResolveTimeout_bound:
  "0 < sp_DefaultTimeout s \<Longrightarrow> 0 < sp_MaxTimeout s \<Longrightarrow>
     0 < ResolveTimeout s t \<and> ResolveTimeout s t \<le> sp_MaxTimeout s"
  by (simp add: ResolveTimeout_def Let_def)

lemma validateUser_default: "validateUser DefaultUser = None"
proof -
  have "validateId ''1000'' = None" by (simp add: validateId_def parseUint_def digit_val_def)
  then show ?thesis
    using validateUser_None_iff [of "''1000:1000''"] unfolding DefaultUser_def by (metis append_Cons append_Nil)
qed

section \<open>Properties\<close>

text \<open>
  C40: a spec is well formed by construction. Whatever library options are applied, in
  whatever order and with whatever arguments, the spec has positive CPU, memory, disk and
  process limits, lifetime bounds that are set, positive command timeouts and a proper map
  of labels; and every timeout a command resolves to is positive and within the maximum.
\<close>

theorem newSpec_well_formed:
  assumes "\<forall>opt \<in> set opts. lib_option opt"
  shows "bounded_spec (newSpec opts) \<and> 0 < ResolveTimeout (newSpec opts) d \<and>
    ResolveTimeout (newSpec opts) d \<le> sp_MaxTimeout (newSpec opts)"
  using newSpec_bounded_lib [OF assms] by (auto simp: bounded_spec_def ResolveTimeout_def Let_def)

theorem newSpec_well_formed_witness:
  "bounded_spec (newSpec [WithResources \<lparr> CPUs = NaN, MemoryBytes = - 1, DiskBytes = 0, MaxProcesses = 3 \<rparr>, WithCommandTimeouts (hours 2) (- 1)]) \<and>
   ResolveTimeout (newSpec [WithResources \<lparr> CPUs = NaN, MemoryBytes = - 1, DiskBytes = 0, MaxProcesses = 3 \<rparr>, WithCommandTimeouts (hours 2) (- 1)]) 0
     \<le> minutes 10"
  using newSpec_well_formed [of "[WithResources \<lparr> CPUs = NaN, MemoryBytes = - 1, DiskBytes = 0, MaxProcesses = 3 \<rparr>, WithCommandTimeouts (hours 2) (- 1)]" 0]
  by (simp add: lib_option.intros) (simp add: newSpec_def option_defs defaultSpec_def MaxCommandTimeout_def)

end
