(* ===== verification/Broker_Api.thy ===== *)
theory Broker_Api
  imports Sandbox_Contract
begin

text \<open>
  Package \<^verbatim>\<open>pkg/brokerapi\<close>: the bodies openbloxd and its client exchange, and the map
  between error sentinels and the kinds sent over the wire. The lemmas show what a
  caller's \<^verbatim>\<open>errors.Is\<close> sees after an error has crossed the wire.
\<close>

section \<open>Bodies (types.go)\<close>

definition UpgradeProto :: string where "UpgradeProto = ''openblox-stream''"

record CreateRequest =
  cr_Name :: string
  cr_Profile :: string
  cr_Env :: "string list"
  cr_Labels :: gomap

record WireInfo =
  w_Name :: string
  w_ID :: string
  w_Image :: string
  w_State :: string
  w_CreatedAt :: instant
  w_Profile :: string
  w_Labels :: gomap

record ExecRequest =
  er_Argv :: "string list"
  er_Env :: "string list"
  er_Dir :: string
  er_Timeout :: string

record ExecResponse =
  x_Stdout :: string
  x_Stderr :: string
  x_ExitCode :: int
  x_Truncated :: bool
  x_Stopped :: bool
  x_OOMKilled :: bool

record ProcessRequest =
  pr_Name :: string
  pr_Argv :: "string list"
  pr_Env :: "string list"
  pr_Dir :: string

record ProfileInfo =
  pi_Name :: string
  pi_IdleTimeout :: string
  pi_MaxAge :: string

text \<open>The text of an error body is the error's own, or a fixed one.\<close>

datatype message = MsgOf gerr | MsgText string

record WireError =
  we_Message :: message
  we_Kind :: string

section \<open>Kinds (errors.go)\<close>

definition KindNotFound :: string where "KindNotFound = ''not_found''"
definition KindInvalid :: string where "KindInvalid = ''invalid''"
definition KindConflict :: string where "KindConflict = ''conflict''"
definition KindStopped :: string where "KindStopped = ''stopped''"
definition KindTimeout :: string where "KindTimeout = ''timeout''"
definition KindRuntimeUnavailable :: string where "KindRuntimeUnavailable = ''runtime_unavailable''"
definition KindImageUnavailable :: string where "KindImageUnavailable = ''image_unavailable''"
definition KindAtCapacity :: string where "KindAtCapacity = ''at_capacity''"
definition KindInternal :: string where "KindInternal = ''internal''"

lemmas kind_defs =
  KindNotFound_def KindInvalid_def KindConflict_def KindStopped_def KindTimeout_def
  KindRuntimeUnavailable_def KindImageUnavailable_def KindAtCapacity_def KindInternal_def

definition KindOf :: "gerr \<Rightarrow> string \<times> nat" where
  "KindOf err =
     (if errIs err ErrNotFound then (KindNotFound, 404)
      else if errIs err ErrInvalid then (KindInvalid, 400)
      else if errIs err ErrProfileConflict then (KindConflict, 409)
      else if errIs err ErrStopped then (KindStopped, 409)
      else if errIs err ErrAtCapacity then (KindAtCapacity, 429)
      else if errIs err ErrTimeout then (KindTimeout, 504)
      else if errIs err ErrRuntimeUnavailable then (KindRuntimeUnavailable, 503)
      else if errIs err ErrImageUnavailable then (KindImageUnavailable, 503)
      else (KindInternal, 500))"

definition ErrorFor :: "string \<Rightarrow> gerr" where
  "ErrorFor kind =
     (if kind = KindNotFound then Sentinel ErrNotFound
      else if kind = KindInvalid then Sentinel ErrInvalid
      else if kind = KindConflict then Sentinel ErrProfileConflict
      else if kind = KindStopped then Sentinel ErrStopped
      else if kind = KindAtCapacity then Sentinel ErrAtCapacity
      else if kind = KindTimeout then Sentinel ErrTimeout
      else if kind = KindRuntimeUnavailable then Sentinel ErrRuntimeUnavailable
      else if kind = KindImageUnavailable then Sentinel ErrImageUnavailable
      else Sentinel ErrInternal)"

section \<open>What survives the wire\<close>

text \<open>The sentinels that have a kind of their own.\<close>

definition wire_sentinels :: "sentinel set" where
  "wire_sentinels = {ErrNotFound, ErrInvalid, ErrProfileConflict, ErrStopped, ErrAtCapacity,
     ErrTimeout, ErrRuntimeUnavailable, ErrImageUnavailable}"

lemma kinds_distinct:
  "distinct [KindNotFound, KindInvalid, KindConflict, KindStopped, KindTimeout,
     KindRuntimeUnavailable, KindImageUnavailable, KindAtCapacity, KindInternal]"
  by (simp add: kind_defs)

lemma ErrorFor_kinds [simp]:
  "ErrorFor KindNotFound = Sentinel ErrNotFound" "ErrorFor KindInvalid = Sentinel ErrInvalid"
  "ErrorFor KindConflict = Sentinel ErrProfileConflict" "ErrorFor KindStopped = Sentinel ErrStopped"
  "ErrorFor KindAtCapacity = Sentinel ErrAtCapacity" "ErrorFor KindTimeout = Sentinel ErrTimeout"
  "ErrorFor KindRuntimeUnavailable = Sentinel ErrRuntimeUnavailable"
  "ErrorFor KindImageUnavailable = Sentinel ErrImageUnavailable"
  "ErrorFor KindInternal = Sentinel ErrInternal"
  by (simp_all add: ErrorFor_def kind_defs)

lemma ErrorFor_KindOf_cases:
  obtains s where "s \<in> wire_sentinels" "errIs err s" "ErrorFor (fst (KindOf err)) = Sentinel s"
  | "\<forall>s \<in> wire_sentinels. \<not> errIs err s" "ErrorFor (fst (KindOf err)) = Sentinel ErrInternal"
proof (cases "\<exists>s \<in> wire_sentinels. errIs err s")
  case True
  then have "\<exists>s \<in> wire_sentinels. errIs err s \<and> ErrorFor (fst (KindOf err)) = Sentinel s"
    by (auto simp: KindOf_def wire_sentinels_def)
  then show thesis using that(1) by blast
next
  case False
  then have "ErrorFor (fst (KindOf err)) = Sentinel ErrInternal"
    by (simp add: KindOf_def wire_sentinels_def)
  with False show thesis using that(2) by blast
qed

lemma KindOf_internal:
  "fst (KindOf err) = KindInternal \<longleftrightarrow> (\<forall>s \<in> wire_sentinels. \<not> errIs err s)"
  unfolding KindOf_def wire_sentinels_def by (simp add: kind_defs)

lemma KindOf_status: "400 \<le> snd (KindOf err) \<and> snd (KindOf err) < 600"
  by (simp add: KindOf_def)

lemma KindOf_ErrInvalid:
  "(\<And>s. errIs err s \<longleftrightarrow> s = ErrInvalid) \<Longrightarrow> KindOf err = (KindInvalid, 400)"
  by (simp add: KindOf_def)

end
