(* ===== verification/Broker_Wire.thy ===== *)
theory Broker_Wire
  imports Go_Decode Broker_Api "HOL-Library.List_Lexorder" "HOL-Library.Char_ord"
begin

text \<open>
  The JSON form of the bodies of \<^verbatim>\<open>pkg/brokerapi\<close>, as their struct tags prescribe it: which
  members are written, under which names, what is left out when empty, and how the other
  side reads them. The locale \<open>wire\<close> is what both sides rely on: a body that was written
  reads back, up to the order of labels and to bytes that are not UTF-8.
\<close>

section \<open>Writing\<close>

text \<open>
  A slice without \<^verbatim>\<open>omitempty\<close> is null when nil; the empty list stands for the nil slice.
  Map keys are written in order.
\<close>

definition omit :: "bool \<Rightarrow> string \<Rightarrow> json \<Rightarrow> (string \<times> json) list" where
  "omit isEmpty k j = (if isEmpty then [] else [(k, j)])"

definition strs_json :: "string list \<Rightarrow> json" where
  "strs_json xs = (if xs = [] then JNull else JArr (map JStr xs))"

definition map_json :: "gomap \<Rightarrow> json" where
  "map_json m = JObj (map (\<lambda>(k, v). (k, JStr v)) (sort_key fst m))"

definition bytes_json :: "string \<Rightarrow> json" where
  "bytes_json bs = (if bs = [] then JNull else JStr (stdEncode bs))"

definition CreateRequest_json :: "CreateRequest \<Rightarrow> json" where
  "CreateRequest_json r = JObj
     ([(''name'', JStr (cr_Name r)), (''profile'', JStr (cr_Profile r))]
      @ omit (cr_Env r = []) ''env'' (strs_json (cr_Env r))
      @ omit (cr_Labels r = []) ''labels'' (map_json (cr_Labels r)))"

definition WireInfo_json :: "WireInfo \<Rightarrow> json" where
  "WireInfo_json i = JObj
     ([(''name'', JStr (w_Name i)), (''id'', JStr (w_ID i)), (''image'', JStr (w_Image i)), (''state'', JStr (w_State i)),
       (''created_at'', JStr (formatRFC3339Nano (w_CreatedAt i))), (''profile'', JStr (w_Profile i))]
      @ omit (w_Labels i = []) ''labels'' (map_json (w_Labels i)))"

definition ExecRequest_json :: "ExecRequest \<Rightarrow> json" where
  "ExecRequest_json r = JObj
     ([(''argv'', strs_json (er_Argv r))]
      @ omit (er_Env r = []) ''env'' (strs_json (er_Env r))
      @ omit (er_Dir r = []) ''dir'' (JStr (er_Dir r))
      @ omit (er_Timeout r = []) ''timeout'' (JStr (er_Timeout r)))"

definition ExecResponse_json :: "ExecResponse \<Rightarrow> json" where
  "ExecResponse_json r = JObj
     ([(''stdout'', bytes_json (x_Stdout r)), (''stderr'', bytes_json (x_Stderr r)), (''exit_code'', JNum (itoa (x_ExitCode r)))]
      @ omit (\<not> x_Truncated r) ''truncated'' (JBool (x_Truncated r))
      @ omit (\<not> x_Stopped r) ''stopped'' (JBool (x_Stopped r))
      @ omit (\<not> x_OOMKilled r) ''oom_killed'' (JBool (x_OOMKilled r)))"

definition ProcessRequest_json :: "ProcessRequest \<Rightarrow> json" where
  "ProcessRequest_json r = JObj
     ([(''name'', JStr (pr_Name r)), (''argv'', strs_json (pr_Argv r))]
      @ omit (pr_Env r = []) ''env'' (strs_json (pr_Env r))
      @ omit (pr_Dir r = []) ''dir'' (JStr (pr_Dir r)))"

definition ProfileInfo_json :: "ProfileInfo \<Rightarrow> json" where
  "ProfileInfo_json p = JObj
     [(''name'', JStr (pi_Name p)), (''idle_timeout'', JStr (pi_IdleTimeout p)), (''max_age'', JStr (pi_MaxAge p))]"

text \<open>The text of an error is the concern of the parameter \<open>render\<close>.\<close>

definition messageText :: "(gerr \<Rightarrow> string) \<Rightarrow> message \<Rightarrow> string" where
  "messageText render m = (case m of MsgOf e \<Rightarrow> render e | MsgText s \<Rightarrow> s)"

definition WireError_json :: "(gerr \<Rightarrow> string) \<Rightarrow> WireError \<Rightarrow> json" where
  "WireError_json render e = JObj
     [(''error'', JStr (messageText render (we_Message e))), (''kind'', JStr (we_Kind e))]"

section \<open>Reading\<close>

definition CreateRequest_dec :: "bool \<Rightarrow> json \<Rightarrow> CreateRequest option" where
  "CreateRequest_dec strict j =
     map_option (\<lambda>fs. \<lparr> cr_Name = theStr fs ''name'', cr_Profile = theStr fs ''profile'',
                        cr_Env = theStrs fs ''env'', cr_Labels = theMap fs ''labels'' \<rparr>)
       (decodeStruct strict [(''name'', FStr []), (''profile'', FStr []), (''env'', FStrs [] 0), (''labels'', FMap [])] j)"

definition WireInfo_dec :: "bool \<Rightarrow> json \<Rightarrow> WireInfo option" where
  "WireInfo_dec strict j =
     map_option (\<lambda>fs. \<lparr> w_Name = theStr fs ''name'', w_ID = theStr fs ''id'', w_Image = theStr fs ''image'',
                        w_State = theStr fs ''state'', w_CreatedAt = theTime fs ''created_at'',
                        w_Profile = theStr fs ''profile'', w_Labels = theMap fs ''labels'' \<rparr>)
       (decodeStruct strict
          [(''name'', FStr []), (''id'', FStr []), (''image'', FStr []), (''state'', FStr []),
           (''created_at'', FTime zero_time), (''profile'', FStr []), (''labels'', FMap [])] j)"

definition ExecRequest_dec :: "bool \<Rightarrow> json \<Rightarrow> ExecRequest option" where
  "ExecRequest_dec strict j =
     map_option (\<lambda>fs. \<lparr> er_Argv = theStrs fs ''argv'', er_Env = theStrs fs ''env'',
                        er_Dir = theStr fs ''dir'', er_Timeout = theStr fs ''timeout'' \<rparr>)
       (decodeStruct strict [(''argv'', FStrs [] 0), (''env'', FStrs [] 0), (''dir'', FStr []), (''timeout'', FStr [])] j)"

definition ExecResponse_dec :: "bool \<Rightarrow> json \<Rightarrow> ExecResponse option" where
  "ExecResponse_dec strict j =
     map_option (\<lambda>fs. \<lparr> x_Stdout = theBytes fs ''stdout'', x_Stderr = theBytes fs ''stderr'', x_ExitCode = theInt fs ''exit_code'',
                        x_Truncated = theBool fs ''truncated'', x_Stopped = theBool fs ''stopped'',
                        x_OOMKilled = theBool fs ''oom_killed'' \<rparr>)
       (decodeStruct strict
          [(''stdout'', FBytes [] 0), (''stderr'', FBytes [] 0), (''exit_code'', FInt 0),
           (''truncated'', FBool False), (''stopped'', FBool False), (''oom_killed'', FBool False)] j)"

definition ProcessRequest_dec :: "bool \<Rightarrow> json \<Rightarrow> ProcessRequest option" where
  "ProcessRequest_dec strict j =
     map_option (\<lambda>fs. \<lparr> pr_Name = theStr fs ''name'', pr_Argv = theStrs fs ''argv'',
                        pr_Env = theStrs fs ''env'', pr_Dir = theStr fs ''dir'' \<rparr>)
       (decodeStruct strict [(''name'', FStr []), (''argv'', FStrs [] 0), (''env'', FStrs [] 0), (''dir'', FStr [])] j)"

definition ProfileInfo_dec :: "bool \<Rightarrow> json \<Rightarrow> ProfileInfo option" where
  "ProfileInfo_dec strict j =
     map_option (\<lambda>fs. \<lparr> pi_Name = theStr fs ''name'', pi_IdleTimeout = theStr fs ''idle_timeout'', pi_MaxAge = theStr fs ''max_age'' \<rparr>)
       (decodeStruct strict [(''name'', FStr []), (''idle_timeout'', FStr []), (''max_age'', FStr [])] j)"

definition WireError_dec :: "bool \<Rightarrow> json \<Rightarrow> WireError option" where
  "WireError_dec strict j =
     map_option (\<lambda>fs. \<lparr> we_Message = MsgText (theStr fs ''error''), we_Kind = theStr fs ''kind'' \<rparr>)
       (decodeStruct strict [(''error'', FStr []), (''kind'', FStr [])] j)"

text \<open>A slice of structs, read into a nil slice.\<close>

definition list_dec :: "(json \<Rightarrow> 'a option) \<Rightarrow> json \<Rightarrow> 'a list option" where
  "list_dec dec j = (case j of JNull \<Rightarrow> Some [] | JArr js \<Rightarrow> those (map dec js) | _ \<Rightarrow> None)"

text \<open>\<^verbatim>\<open>Decoder.Decode\<close> reads one value and leaves the rest.\<close>

definition unmarshal :: "(json \<Rightarrow> 'a option) \<Rightarrow> string \<Rightarrow> 'a option" where
  "unmarshal dec s = Option.bind (readValue s) (\<lambda>(j, _). dec j)"


section \<open>The contract of the wire\<close>

locale wire =
  fixes enc :: "'a \<Rightarrow> json" and dec :: "bool \<Rightarrow> json \<Rightarrow> 'a option" and valid :: "'a \<Rightarrow> bool" and received :: "'a \<Rightarrow> 'a"
  assumes enc_obj: "\<exists>ms. enc x = JObj ms"
    and enc_int: "int_json (enc x)"
    and dec_enc: "valid x \<Longrightarrow> dec strict (coerce_json (enc x)) = Some (received x)"
begin

lemma readValue_enc: "num_end r \<Longrightarrow> readValue (print_json (enc x) @ r) = Some (coerce_json (enc x), r)"
  by (rule readValue_print [OF enc_int])

lemma unmarshal_enc: "valid x \<Longrightarrow> num_end r \<Longrightarrow> unmarshal (dec strict) (print_json (enc x) @ r) = Some (received x)"
  by (simp add: unmarshal_def readValue_enc dec_enc)

lemma coerced_obj: "coerce_json (enc x) \<noteq> JNull"
  using enc_obj [of x] by auto

lemma unmarshal_list:
  assumes "\<forall>x \<in> set xs. valid x" "num_end r"
  shows "unmarshal (list_dec (dec strict)) (print_json (JArr (map enc xs)) @ r) = Some (map received xs)"
proof -
  have "int_json (JArr (map enc xs))" by (auto simp: enc_int)
  from readValue_print [OF this assms(2)] have "readValue (print_json (JArr (map enc xs)) @ r) = Some (JArr (map coerce_json (map enc xs)), r)"
    by simp
  moreover have "those (map (dec strict) (map coerce_json (map enc xs))) = Some (map received xs)"
    using assms(1) by (induction xs) (simp_all add: dec_enc)
  ultimately show ?thesis by (simp add: unmarshal_def list_dec_def del: print_json.simps)
qed

end

text \<open>
  What arrives of a map: its entries in the order of their keys, each put in under its
  UTF-8 spelling. With labels that are UTF-8 it is the map itself.
\<close>

definition map_received :: "gomap \<Rightarrow> gomap" where
  "map_received m = fold (\<lambda>(k, v). mput (coerceUTF8 k) (coerceUTF8 v)) (sort_key fst m) []"

lemma map_of_fold_mput:
  "distinct (map fst ls) \<Longrightarrow> map_of (fold (\<lambda>(k, v). mput k v) ls m) = map_of m ++ map_of ls"
proof (induction ls arbitrary: m)
  case (Cons x ls)
  then have "map_of ls (fst x) = None" by (auto simp: map_of_eq_None_iff)
  with Cons show ?case by (cases x) (auto simp: fun_eq_iff map_add_def split: option.splits)
qed simp

lemma map_of_sort_key: "wf_map m \<Longrightarrow> map_of (sort_key fst m) = map_of m"
  by (rule map_of_inject_set [THEN iffD2]) (simp_all add: wf_map_def distinct_map inj_on_def image_def)

lemma map_received_utf8:
  assumes "wf_map m" "\<And>k v. (k, v) \<in> set m \<Longrightarrow> valid_utf8 k \<and> valid_utf8 v"
  shows "map_of (map_received m) = map_of m"
proof -
  have "fold (\<lambda>(k, v). mput (coerceUTF8 k) (coerceUTF8 v)) ls a = fold (\<lambda>(k, v). mput k v) ls a"
    if "set ls \<subseteq> set m" for ls and a :: gomap
    using that by (induction ls arbitrary: a) (use assms(2) in \<open>auto simp: valid_utf8_def\<close>)
  moreover have "distinct (map fst (sort_key fst m))"
    using assms(1) by (simp add: wf_map_def distinct_map)
  ultimately show ?thesis
    by (simp add: map_received_def map_of_fold_mput map_of_sort_key assms(1))
qed

lemma decodeLabels_received: "decodeInto (FMap []) (coerce_json (map_json m)) = Some (FMap (map_received m))"
proof -
  have "decodeLabels a (map ((\<lambda>(k, v). (coerceUTF8 k, coerce_json v)) \<circ> (\<lambda>(k, v). (k, JStr v))) ls)
      = Some (fold (\<lambda>(k, v). mput (coerceUTF8 k) (coerceUTF8 v)) ls a)" for ls a
    by (induction ls arbitrary: a) (auto simp: decodeString_def)
  then show ?thesis by (simp add: decodeInto_def map_json_def map_received_def)
qed

lemma decodeStrs_received:
  "decodeInto (FStrs [] 0) (coerce_json (strs_json xs)) = Some (FStrs (map coerceUTF8 xs) (length xs))"
proof -
  have "decodeElems decodeString [] [] (map coerce_json (map JStr xs)) = Some (map coerceUTF8 xs)"
    using decodeElems_strings [of "map coerceUTF8 xs"] by (simp add: comp_def)
  then show ?thesis by (simp add: strs_json_def decodeInto_def)
qed

text \<open>Base64 and timestamps are ASCII, so they cross unchanged.\<close>

lemma digit_ascii: "is_digit c \<Longrightarrow> byte c < 128"
  by (auto simp: is_digit_def digit_val_def Let_def split: if_splits)

lemma b64char_ascii: "byte (b64char n) < 128"
  by (auto simp: b64char_def)

lemma stdEncode_ascii: "c \<in> set (stdEncode bs) \<Longrightarrow> byte c < 128"
proof -
  have "byte c < 128" if "c \<in> set (b64encode bs)" for c
    using that by (induction bs rule: b64encode.induct) (auto simp: b64char_ascii)
  then show "c \<in> set (stdEncode bs) \<Longrightarrow> byte c < 128"
    by (auto simp: stdEncode_def to_std_def)
qed

lemma format_ascii: "c \<in> set (formatRFC3339Nano t) \<Longrightarrow> byte c < 128"
proof -
  have "byte c < 128" if "c \<in> set (fmtFrac 9 q)" for c q
    using that pad_digits [of c 9 q] by (auto simp: fmtFrac_def strip_zeros_def digit_ascii dest: set_dropWhileD split: if_splits)
  then show "c \<in> set (formatRFC3339Nano t) \<Longrightarrow> byte c < 128"
    by (auto simp: formatRFC3339Nano_def Let_def digit_ascii dest: pad_digits split: prod.splits if_splits)
qed

lemma decodeBytes_received:
  "decodeInto (FBytes [] 0) (coerce_json (bytes_json bs)) = Some (FBytes bs (length bs))"
proof -
  have "coerceUTF8 (stdEncode bs) = stdEncode bs"
    using coerceUTF8_ascii stdEncode_ascii by blast
  then show ?thesis by (simp add: bytes_json_def decodeInto_def stdDecode_stdEncode)
qed

lemma decodeStr_received: "decodeInto (FStr old) (coerce_json (JStr s)) = Some (FStr (coerceUTF8 s))"
  by (simp add: decodeInto_def decodeString_def)

lemma decodeTime_received:
  "four_digit_year t \<Longrightarrow> decodeInto (FTime old) (coerce_json (JStr (formatRFC3339Nano t))) = Some (FTime t)"
  using coerceUTF8_ascii [of "formatRFC3339Nano t"] format_ascii [of _ t]
  by (simp add: decodeInto_def parse_formatRFC3339Nano)

lemma decodeInt_received: "in_int64 i \<Longrightarrow> decodeInto (FInt old) (JNum (itoa i)) = Some (FInt i)"
  by (simp add: decodeInto_def parseInt64_itoa)

lemma decodeBool_received: "decodeInto (FBool old) (JBool b) = Some (FBool b)"
  by (simp add: decodeInto_def)

lemmas received_simps =
  decodeLabels_received decodeStrs_received decodeBytes_received decodeStr_received decodeTime_received
  decodeInt_received decodeBool_received

lemma int_json_parts [simp]: "int_json (strs_json xs)" "int_json (map_json m)" "int_json (bytes_json bs)"
  by (auto simp: strs_json_def map_json_def bytes_json_def)

lemmas wire_dec_simps = decodeStruct_def fieldFor_def mput_def omit_def theStr_def theStrs_def theMap_def theBytes_def theInt_def theBool_def theTime_def received_simps

lemma coerce_names:
  "coerceUTF8 ''name'' = ''name''" "coerceUTF8 ''profile'' = ''profile''" "coerceUTF8 ''env'' = ''env''" "coerceUTF8 ''labels'' = ''labels''"
  "coerceUTF8 ''id'' = ''id''" "coerceUTF8 ''image'' = ''image''" "coerceUTF8 ''state'' = ''state''" "coerceUTF8 ''created_at'' = ''created_at''"
  "coerceUTF8 ''argv'' = ''argv''" "coerceUTF8 ''dir'' = ''dir''" "coerceUTF8 ''timeout'' = ''timeout''"
  "coerceUTF8 ''stdout'' = ''stdout''" "coerceUTF8 ''stderr'' = ''stderr''" "coerceUTF8 ''exit_code'' = ''exit_code''"
  "coerceUTF8 ''truncated'' = ''truncated''" "coerceUTF8 ''stopped'' = ''stopped''" "coerceUTF8 ''oom_killed'' = ''oom_killed''"
  "coerceUTF8 ''idle_timeout'' = ''idle_timeout''" "coerceUTF8 ''max_age'' = ''max_age''" "coerceUTF8 ''error'' = ''error''" "coerceUTF8 ''kind'' = ''kind''"
  by (rule coerceUTF8_ascii, simp)+

definition CreateRequest_received :: "CreateRequest \<Rightarrow> CreateRequest" where
  "CreateRequest_received r =
     \<lparr> cr_Name = coerceUTF8 (cr_Name r), cr_Profile = coerceUTF8 (cr_Profile r),
       cr_Env = map coerceUTF8 (cr_Env r), cr_Labels = map_received (cr_Labels r) \<rparr>"

interpretation create_wire: wire CreateRequest_json CreateRequest_dec "\<lambda>_. True" CreateRequest_received
proof
  fix r :: CreateRequest and strict
  show "CreateRequest_dec strict (coerce_json (CreateRequest_json r)) = Some (CreateRequest_received r)"
    by (cases "cr_Env r = []"; cases "cr_Labels r = []")
      (simp_all add: CreateRequest_dec_def CreateRequest_json_def CreateRequest_received_def wire_dec_simps coerce_names
        map_received_def del: coerce_json.simps(1))
qed (simp_all add: CreateRequest_json_def omit_def)


definition WireInfo_received :: "WireInfo \<Rightarrow> WireInfo" where
  "WireInfo_received i =
     \<lparr> w_Name = coerceUTF8 (w_Name i), w_ID = coerceUTF8 (w_ID i), w_Image = coerceUTF8 (w_Image i),
       w_State = coerceUTF8 (w_State i), w_CreatedAt = w_CreatedAt i, w_Profile = coerceUTF8 (w_Profile i),
       w_Labels = map_received (w_Labels i) \<rparr>"

interpretation info_wire: wire WireInfo_json WireInfo_dec "\<lambda>i. four_digit_year (w_CreatedAt i)" WireInfo_received
proof
  fix i :: WireInfo and strict assume "four_digit_year (w_CreatedAt i)"
  then show "WireInfo_dec strict (coerce_json (WireInfo_json i)) = Some (WireInfo_received i)"
    by (cases "w_Labels i = []")
      (simp_all add: WireInfo_dec_def WireInfo_json_def WireInfo_received_def wire_dec_simps coerce_names
        map_received_def del: coerce_json.simps(1))
qed (simp_all add: WireInfo_json_def omit_def)

definition ExecRequest_received :: "ExecRequest \<Rightarrow> ExecRequest" where
  "ExecRequest_received r =
     \<lparr> er_Argv = map coerceUTF8 (er_Argv r), er_Env = map coerceUTF8 (er_Env r),
       er_Dir = coerceUTF8 (er_Dir r), er_Timeout = coerceUTF8 (er_Timeout r) \<rparr>"

interpretation exec_wire: wire ExecRequest_json ExecRequest_dec "\<lambda>_. True" ExecRequest_received
proof
  fix r :: ExecRequest and strict
  show "ExecRequest_dec strict (coerce_json (ExecRequest_json r)) = Some (ExecRequest_received r)"
    by (cases "er_Env r = []"; cases "er_Dir r = []"; cases "er_Timeout r = []")
      (simp_all add: ExecRequest_dec_def ExecRequest_json_def ExecRequest_received_def wire_dec_simps coerce_names
        del: coerce_json.simps(1))
qed (simp_all add: ExecRequest_json_def omit_def)

interpretation result_wire: wire ExecResponse_json ExecResponse_dec "\<lambda>r. in_int64 (x_ExitCode r)" "\<lambda>r. r"
proof
  fix r :: ExecResponse and strict assume "in_int64 (x_ExitCode r)"
  then show "ExecResponse_dec strict (coerce_json (ExecResponse_json r)) = Some r"
    by (cases "x_Truncated r"; cases "x_Stopped r"; cases "x_OOMKilled r")
      (simp_all add: ExecResponse_dec_def ExecResponse_json_def wire_dec_simps coerce_names
        del: coerce_json.simps(1))
qed (auto simp: ExecResponse_json_def omit_def)

definition ProcessRequest_received :: "ProcessRequest \<Rightarrow> ProcessRequest" where
  "ProcessRequest_received r =
     \<lparr> pr_Name = coerceUTF8 (pr_Name r), pr_Argv = map coerceUTF8 (pr_Argv r),
       pr_Env = map coerceUTF8 (pr_Env r), pr_Dir = coerceUTF8 (pr_Dir r) \<rparr>"

interpretation process_wire: wire ProcessRequest_json ProcessRequest_dec "\<lambda>_. True" ProcessRequest_received
proof
  fix r :: ProcessRequest and strict
  show "ProcessRequest_dec strict (coerce_json (ProcessRequest_json r)) = Some (ProcessRequest_received r)"
    by (cases "pr_Env r = []"; cases "pr_Dir r = []")
      (simp_all add: ProcessRequest_dec_def ProcessRequest_json_def ProcessRequest_received_def wire_dec_simps coerce_names
        del: coerce_json.simps(1))
qed (simp_all add: ProcessRequest_json_def omit_def)

definition ProfileInfo_received :: "ProfileInfo \<Rightarrow> ProfileInfo" where
  "ProfileInfo_received p =
     \<lparr> pi_Name = coerceUTF8 (pi_Name p), pi_IdleTimeout = coerceUTF8 (pi_IdleTimeout p), pi_MaxAge = coerceUTF8 (pi_MaxAge p) \<rparr>"

interpretation profile_wire: wire ProfileInfo_json ProfileInfo_dec "\<lambda>_. True" ProfileInfo_received
  by unfold_locales
    (simp_all add: ProfileInfo_dec_def ProfileInfo_json_def ProfileInfo_received_def wire_dec_simps coerce_names
      del: coerce_json.simps(1))

definition WireError_received :: "(gerr \<Rightarrow> string) \<Rightarrow> WireError \<Rightarrow> WireError" where
  "WireError_received render e =
     \<lparr> we_Message = MsgText (coerceUTF8 (messageText render (we_Message e))), we_Kind = coerceUTF8 (we_Kind e) \<rparr>"

interpretation error_wire: wire "WireError_json render" WireError_dec "\<lambda>_. True" "WireError_received render" for render
  by unfold_locales
    (simp_all add: WireError_dec_def WireError_json_def WireError_received_def wire_dec_simps coerce_names
      del: coerce_json.simps(1))

end
