(* ===== verification/Go_Net.thy ===== *)
theory Go_Net
  imports Go_Encoding
begin

text \<open>
  \<^verbatim>\<open>net.ParseIP\<close>, as far as telling the unspecified addresses apart needs it: an address is
  its sixteen bytes, an IPv4 address in its IPv6-mapped form.
\<close>

definition is_hex :: "char \<Rightarrow> bool" where
  "is_hex c \<longleftrightarrow> unhex c \<noteq> None"

definition hex_val :: "string \<Rightarrow> nat" where
  "hex_val s = fold (\<lambda>c a. 16 * a + (case unhex c of None \<Rightarrow> 0 | Some d \<Rightarrow> d)) s 0"

definition parseOctet :: "string \<Rightarrow> nat option" where
  "parseOctet p =
     (if p = [] \<or> 1 < length p \<and> hd p = CHR ''0'' then None
      else case dec_val 0 p of None \<Rightarrow> None | Some n \<Rightarrow> if n \<le> 255 then Some n else None)"

definition parseIPv4 :: "string \<Rightarrow> nat list option" where
  "parseIPv4 s =
     (let ps = split_on CHR ''.'' s
      in if length ps \<noteq> 4 then None else those (map parseOctet ps))"

text \<open>
  The loop over the groups: the bytes so far, where the ellipsis was, and the rest of the
  text. Each round adds two bytes or stops, so nine rounds of fuel reach sixteen bytes.
\<close>

fun ipv6_loop :: "nat \<Rightarrow> nat list \<Rightarrow> nat option \<Rightarrow> string \<Rightarrow> (nat list \<times> nat option \<times> string) option" where
  "ipv6_loop 0 ip el s = Some (ip, el, s)"
| "ipv6_loop (Suc f) ip el s =
     (let h = takeWhile is_hex s; r = dropWhile is_hex s; ip' = ip @ [hex_val h div 256, hex_val h mod 256]
      in if 16 \<le> length ip then Some (ip, el, s)
         else if h = [] \<or> 4 < length h then None
         else if r = [] then Some (ip', el, [])
         else if hd r = CHR ''.'' then
           (if el = None \<and> length ip \<noteq> 12 \<or> 12 < length ip then None
            else map_option (\<lambda>q. (ip @ q, el, [])) (parseIPv4 s))
         else if hd r \<noteq> CHR '':'' \<or> tl r = [] then None
         else if hd (tl r) = CHR '':'' then
           (if el \<noteq> None then None
            else if tl (tl r) = [] then Some (ip', Some (length ip'), [])
            else ipv6_loop f ip' (Some (length ip')) (tl (tl r)))
         else ipv6_loop f ip' el (tl r))"

definition ipv6_fill :: "nat list \<times> nat option \<times> string \<Rightarrow> nat list option" where
  "ipv6_fill x = (case x of (ip, el, s) \<Rightarrow>
     if s \<noteq> [] then None
     else if length ip < 16 then
       (case el of
          None \<Rightarrow> None
        | Some e \<Rightarrow> Some (take e ip @ replicate (16 - length ip) 0 @ drop e ip))
     else if el \<noteq> None then None else Some ip)"

text \<open>A zone makes \<^verbatim>\<open>ParseIP\<close> refuse the address.\<close>

definition parseIPv6 :: "string \<Rightarrow> nat list option" where
  "parseIPv6 s =
     (if CHR ''%'' \<in> set s then None
      else if hasPrefix s ''::'' then
        (if drop 2 s = [] then Some (replicate 16 0)
         else Option.bind (ipv6_loop 9 [] (Some 0) (drop 2 s)) ipv6_fill)
      else Option.bind (ipv6_loop 9 [] None s) ipv6_fill)"

definition parseIP :: "string \<Rightarrow> nat list option" where
  "parseIP s =
     (case List.find (\<lambda>c. c = CHR ''.'' \<or> c = CHR '':'' \<or> c = CHR ''%'') s of
        None \<Rightarrow> None
      | Some c \<Rightarrow>
          if c = CHR ''.'' then map_option (\<lambda>q. replicate 10 0 @ [255, 255] @ q) (parseIPv4 s)
          else if c = CHR '':'' then parseIPv6 s else None)"

definition isUnspecified :: "nat list \<Rightarrow> bool" where
  "isUnspecified ip \<longleftrightarrow> ip = replicate 16 0 \<or> ip = replicate 10 0 @ [255, 255, 0, 0, 0, 0]"

text \<open>\<^verbatim>\<open>tls.VersionTLS13\<close>.\<close>

definition VersionTLS13 :: nat where "VersionTLS13 = 772"

end
