(* ===== verification/Docker_Engine.thy ===== *)
theory Docker_Engine
  imports Sandbox_Contract Go_Calendar
begin

text \<open>
  The Docker daemon as \<^verbatim>\<open>pkg/docker\<close> sees it: the payloads of the client calls it makes
  and, as a record of functions over an unspecified world, the calls themselves. The
  client and the daemon are not part of this program, so the record is a parameter of
  every definition that uses it; so are the clock, the random source and the timers the
  calls are raced against. \<open>traced\<close> adds a log of the calls made, on which the safety
  theorems are stated.
\<close>

section \<open>Payloads\<close>

record ContainerConfig =
  cc_Image :: string
  cc_Labels :: gomap
  cc_User :: string
  cc_Env :: "string list"
  cc_Entrypoint :: "string list"
  cc_Cmd :: "string list"
  cc_WorkingDir :: string

text \<open>The fields the program sets, and those of the zero value that containment rests on.\<close>

record HostConfig =
  hc_Runtime :: string
  hc_ReadonlyRootfs :: bool
  hc_CapDrop :: "string list"
  hc_SecurityOpt :: "string list"
  hc_Tmpfs :: gomap
  hc_NanoCPUs :: int
  hc_Memory :: int
  hc_MemorySwap :: int
  hc_PidsLimit :: "int option"
  hc_RestartPolicy :: string
  hc_NetworkMode :: string
  hc_Privileged :: bool
  hc_Binds :: "string list"
  hc_CapAdd :: "string list"

record ContainerState =
  st_Status :: string
  st_Running :: bool
  st_OOMKilled :: bool

text \<open>A nil \<^verbatim>\<open>Config\<close> or \<^verbatim>\<open>State\<close> is \<^const>\<open>None\<close>.\<close>

record Inspect =
  in_ID :: string
  in_Config :: "ContainerConfig option"
  in_State :: "ContainerState option"

record Summary =
  cs_ID :: string
  cs_Labels :: gomap
  cs_Image :: string
  cs_State :: string

record ExecOptions =
  eo_Cmd :: "string list"
  eo_Env :: "string list"
  eo_WorkingDir :: string
  eo_User :: string
  eo_AttachStdin :: bool

datatype stream = Stdout | Stderr

text \<open>
  How the race between copying an exec's output and its context ends: the stream closed
  after these writes, the stream failed, or the context was done first (by its deadline
  or by cancellation).
\<close>

datatype copied = CopyDone "(stream \<times> string) list" | CopyFailed | DeadlineDone | CancelDone

section \<open>The calls\<close>

record 'w engine =
  ContainerInspect :: "string \<Rightarrow> ('w, cerr + Inspect) state"
  ContainerCreate :: "ContainerConfig \<Rightarrow> HostConfig \<Rightarrow> string \<Rightarrow> ('w, cerr + string) state"
  ContainerStart :: "string \<Rightarrow> ('w, cerr option) state"
  ContainerRemove :: "string \<Rightarrow> bool \<Rightarrow> bool \<Rightarrow> ('w, cerr option) state"
  ContainerStop :: "string \<Rightarrow> ('w, cerr option) state"
  ContainerList :: "string \<Rightarrow> ('w, cerr + Summary list) state"
  DaemonRuntimes :: "('w, cerr + string list) state"
  ImageInspect :: "string \<Rightarrow> ('w, cerr option) state"
  ImagePull :: "string \<Rightarrow> string \<Rightarrow> ('w, cerr + bool) state"
  ExecCreate :: "string \<Rightarrow> ExecOptions \<Rightarrow> ('w, cerr + string) state"
  ExecAttach :: "string \<Rightarrow> ('w, cerr option) state"
  ExecCopy :: "string \<Rightarrow> string option \<Rightarrow> duration \<Rightarrow> ('w, copied) state"
  ExecInspect :: "string \<Rightarrow> ('w, cerr + int) state"
  ContainerWait :: "string \<Rightarrow> duration \<Rightarrow> ('w, bool) state"
  timeNow :: "('w, instant) state"
  timeAfter :: "duration \<Rightarrow> ('w, bool) state"
  randRead :: "nat \<Rightarrow> ('w, string option) state"
  floatOutOfRange :: "float64 \<Rightarrow> int"

text \<open>
  \<^const>\<open>ContainerRemove\<close> takes the flags \<^verbatim>\<open>Force\<close> and \<^verbatim>\<open>RemoveVolumes\<close>, \<^const>\<open>ContainerList\<close> the
  label it filters on, \<^const>\<open>ImagePull\<close> the registry credential (its result tells whether
  the response body could be drained), \<^const>\<open>ExecCopy\<close> the stdin to feed and the time the
  command may take, \<^const>\<open>ContainerWait\<close> the time it may wait (true: the container is not
  running), \<^const>\<open>timeAfter\<close> a pause (true: it elapsed, false: the context was done first).
\<close>

section \<open>A log of the calls\<close>

datatype call =
    CInspect string
  | CCreate ContainerConfig HostConfig string
  | CStart string
  | CRemove string
  | CStop string
  | CList string
  | CInfo
  | CImageInspect string
  | CImagePull string string
  | CExecCreate string ExecOptions
  | CExecAttach string
  | CExecCopy string duration
  | CExecInspect string
  | CWait string

definition lift :: "('w, 'a) state \<Rightarrow> ('w \<times> call list, 'a) state" where
  "lift m = State (\<lambda>(w, l). case run_state m w of (a, w') \<Rightarrow> (a, (w', l)))"

definition logged :: "call \<Rightarrow> ('w, 'a) state \<Rightarrow> ('w \<times> call list, 'a) state" where
  "logged c m = State (\<lambda>(w, l). case run_state m w of (a, w') \<Rightarrow> (a, (w', l @ [c])))"

definition traced :: "'w engine \<Rightarrow> ('w \<times> call list) engine" where
  "traced eng =
     \<lparr> ContainerInspect = (\<lambda>n. logged (CInspect n) (ContainerInspect eng n)),
       ContainerCreate = (\<lambda>c h n. logged (CCreate c h n) (ContainerCreate eng c h n)),
       ContainerStart = (\<lambda>i. logged (CStart i) (ContainerStart eng i)),
       ContainerRemove = (\<lambda>i f v. logged (CRemove i) (ContainerRemove eng i f v)),
       ContainerStop = (\<lambda>i. logged (CStop i) (ContainerStop eng i)),
       ContainerList = (\<lambda>l. logged (CList l) (ContainerList eng l)),
       DaemonRuntimes = logged CInfo (DaemonRuntimes eng),
       ImageInspect = (\<lambda>r. logged (CImageInspect r) (ImageInspect eng r)),
       ImagePull = (\<lambda>r a. logged (CImagePull r a) (ImagePull eng r a)),
       ExecCreate = (\<lambda>i e. logged (CExecCreate i e) (ExecCreate eng i e)),
       ExecAttach = (\<lambda>i. logged (CExecAttach i) (ExecAttach eng i)),
       ExecCopy = (\<lambda>i s t. logged (CExecCopy i t) (ExecCopy eng i s t)),
       ExecInspect = (\<lambda>i. logged (CExecInspect i) (ExecInspect eng i)),
       ContainerWait = (\<lambda>i t. logged (CWait i) (ContainerWait eng i t)),
       timeNow = lift (timeNow eng),
       timeAfter = (\<lambda>d. lift (timeAfter eng d)),
       randRead = (\<lambda>n. lift (randRead eng n)),
       floatOutOfRange = floatOutOfRange eng \<rparr>"

text \<open>
  \<open>emits P m\<close>: whatever the engine answers, every call \<open>m\<close> adds to the log satisfies \<open>P\<close>.
  It is closed under the ways programs are put together, so a component proves it for its
  calls and its clients combine the results.
\<close>

definition log_grows :: "(call \<Rightarrow> bool) \<Rightarrow> 'w \<times> call list \<Rightarrow> 'w \<times> call list \<Rightarrow> bool" where
  "log_grows P s t \<longleftrightarrow> (\<exists>l. snd t = snd s @ l \<and> list_all P l)"

definition emits :: "(call \<Rightarrow> bool) \<Rightarrow> ('w \<times> call list, 'a) state \<Rightarrow> bool" where
  "emits P m \<longleftrightarrow> keeps (log_grows P) m"

lemma log_grows_refl: "reflp (log_grows P)"
  by (auto simp: log_grows_def intro!: reflpI)

lemma log_grows_trans: "transp (log_grows P)"
  by (rule transpI) (force simp: log_grows_def)

named_theorems emits_intros \<open>which calls a component makes\<close>

lemma emits_return [emits_intros]: "emits P (State_Monad.return a)"
  by (simp add: emits_def keeps_return log_grows_refl)

lemma emits_bind [emits_intros]:
  "emits P m \<Longrightarrow> (\<And>a. emits P (f a)) \<Longrightarrow> emits P (State_Monad.bind m f)"
  by (simp add: emits_def keeps_bind log_grows_trans)

text \<open>As \<open>emits_bind\<close>, with something known of what the first part returns.\<close>

definition returns :: "('a \<Rightarrow> bool) \<Rightarrow> ('s, 'a) state \<Rightarrow> bool" where
  "returns Q m \<longleftrightarrow> (\<forall>s. Q (fst (run_state m s)))"

lemma emits_bind_returns:
  assumes "returns Q m" "emits P m" "\<And>a. Q a \<Longrightarrow> emits P (f a)"
  shows "emits P (State_Monad.bind m f)"
  unfolding emits_def keeps_def
proof
  fix s
  obtain a s' where m: "run_state m s = (a, s')" by (metis prod.exhaust)
  then have "Q a" using assms(1) unfolding returns_def by (metis fst_conv)
  have "log_grows P s s'" using assms(2) m unfolding emits_def keeps_def by (metis snd_conv)
  moreover have "log_grows P s' (snd (run_state (f a) s'))"
    using assms(3) [OF \<open>Q a\<close>] unfolding emits_def keeps_def by blast
  ultimately show "log_grows P s (snd (run_state (State_Monad.bind m f) s))"
    unfolding run_bind m prod.case by (rule transpD [OF log_grows_trans])
qed

lemma emits_lift [emits_intros]: "emits P (lift m)"
  by (auto simp: emits_def keeps_def log_grows_def lift_def split: prod.splits)

lemma emits_logged: "P c \<Longrightarrow> emits P (logged c m)"
  by (auto simp: emits_def keeps_def log_grows_def logged_def split: prod.splits)

lemma emits_if [emits_intros]: "(b \<Longrightarrow> emits P m) \<Longrightarrow> (\<not> b \<Longrightarrow> emits P n) \<Longrightarrow> emits P (if b then m else n)"
  by simp

lemma emits_case_option [emits_intros]:
  "(x = None \<Longrightarrow> emits P m) \<Longrightarrow> (\<And>a. x = Some a \<Longrightarrow> emits P (f a)) \<Longrightarrow>
     emits P (case x of None \<Rightarrow> m | Some a \<Rightarrow> f a)"
  by (cases x) simp_all

lemma emits_case_sum [emits_intros]:
  "(\<And>e. x = Inl e \<Longrightarrow> emits P (f e)) \<Longrightarrow> (\<And>a. x = Inr a \<Longrightarrow> emits P (g a)) \<Longrightarrow>
     emits P (case x of Inl e \<Rightarrow> f e | Inr a \<Rightarrow> g a)"
  by (cases x) simp_all

lemma emits_log:
  assumes "emits P m" "run_state m (w, l) = (a, (w', l'))"
  shows "\<exists>k. l' = l @ k \<and> list_all P k"
proof -
  have "log_grows P (w, l) (snd (run_state m (w, l)))" using assms(1) by (simp add: emits_def keeps_def)
  then show ?thesis by (simp add: assms(2) log_grows_def)
qed

lemma emits_weaken: "emits P m \<Longrightarrow> (\<And>c. P c \<Longrightarrow> Q c) \<Longrightarrow> emits Q m"
  unfolding emits_def keeps_def log_grows_def by (meson list.pred_mono_strong)

end
