(* ===== verification/Docker_Backend.thy ===== *)
theory Docker_Backend
  imports Docker_Engine Preview_Proxy
begin

text \<open>
  Package \<^verbatim>\<open>pkg/docker\<close>: the registry of sandboxes in container labels (\<^verbatim>\<open>backend.go\<close>,
  \<^verbatim>\<open>image.go\<close>) and preview credentials (\<^verbatim>\<open>expose.go\<close>). The lemmas show what every container
  the backend creates looks like, whatever the spec, that labels carry a spec's bounds
  and the caller's own labels unchanged, and on which answers of the daemon a sandbox is
  handed out.
\<close>

section \<open>Labels and names (backend.go)\<close>

definition labelManaged :: string where "labelManaged = ''sh.openblox.managed''"
definition labelName :: string where "labelName = ''sh.openblox.name''"
definition labelCreatedAt :: string where "labelCreatedAt = ''sh.openblox.created-at''"
definition labelIdle :: string where "labelIdle = ''sh.openblox.idle-timeout''"
definition labelMaxAge :: string where "labelMaxAge = ''sh.openblox.max-age''"
definition labelDefTmo :: string where "labelDefTmo = ''sh.openblox.default-timeout''"
definition labelMaxTmo :: string where "labelMaxTmo = ''sh.openblox.max-timeout''"
definition labelUserPfx :: string where "labelUserPfx = ''sh.openblox.user.''"

lemmas label_defs =
  labelManaged_def labelName_def labelCreatedAt_def labelIdle_def labelMaxAge_def
  labelDefTmo_def labelMaxTmo_def

definition containerPrefix :: string where "containerPrefix = ''openblox-''"
definition scratchPaths :: "string list" where "scratchPaths = [''/tmp'', ''/workspace'']"
definition stateDir :: string where "stateDir = ''/run/openblox''"
definition lastUsedPath :: string where "lastUsedPath = stateDir @ ''/last-used''"
definition stateDirBytes :: int where "stateDirBytes = 64 * 2 ^ 10"

definition containerName :: "string \<Rightarrow> string" where
  "containerName name = containerPrefix @ take 32 (hexEncode (sha256 name))"

definition stateFromStatus :: "string \<Rightarrow> string" where
  "stateFromStatus status =
     (if status \<in> {''running'', ''restarting''} then StateRunning
      else if status \<in> {''created'', ''paused'', ''exited'', ''removing''} then StateStopped
      else StateError)"

definition parseDurationLabel :: "string \<Rightarrow> duration \<Rightarrow> duration" where
  "parseDurationLabel v fallback =
     (case parseDuration v of None \<Rightarrow> fallback | Some d \<Rightarrow> if d \<le> 0 then fallback else d)"

definition userLabels :: "gomap \<Rightarrow> gomap" where
  "userLabels labels =
     List.map_filter (\<lambda>(k, v). map_option (\<lambda>name. (name, v)) (cutPrefix k labelUserPfx)) labels"

definition parseTimeLabel :: "string \<Rightarrow> instant" where
  "parseTimeLabel v = (case parseRFC3339Nano v of None \<Rightarrow> zero_time | Some t \<Rightarrow> t)"

section \<open>The create payload (buildConfig)\<close>

text \<open>Go's integer division truncates towards zero.\<close>

definition quot_int :: "int \<Rightarrow> int \<Rightarrow> int" where
  "quot_int a b = sgn a * sgn b * (\<bar>a\<bar> div \<bar>b\<bar>)"

definition scratchMounts :: "int \<Rightarrow> gomap" where
  "scratchMounts diskBytes =
     (let per = quot_int diskBytes (int (length scratchPaths)) in
      map (\<lambda>p. (p, ''rw,nosuid,nodev,noexec,size='' @ itoa per @ '',mode='' @
                    (if p \<noteq> ''/tmp'' then ''0777'' else ''1777''))) scratchPaths
      @ [(stateDir, ''rw,nosuid,nodev,noexec,size='' @ itoa stateDirBytes @ '',mode=0755'')])"

definition pidsLimit :: "int \<Rightarrow> int option" where
  "pidsLimit n = (if n \<le> 0 then None else Some n)"

definition baseLabels :: "instant \<Rightarrow> string \<Rightarrow> Spec \<Rightarrow> gomap" where
  "baseLabels now name spec =
     [(labelManaged, ''true''), (labelName, name), (labelCreatedAt, formatRFC3339Nano now),
      (labelIdle, durString (IdleTimeout (sp_Lifetime spec))),
      (labelMaxAge, durString (MaxAge (sp_Lifetime spec))),
      (labelDefTmo, durString (sp_DefaultTimeout spec)),
      (labelMaxTmo, durString (sp_MaxTimeout spec))]"

definition buildConfig ::
    "(float64 \<Rightarrow> int) \<Rightarrow> instant \<Rightarrow> string \<Rightarrow> Spec \<Rightarrow> ContainerConfig \<times> HostConfig" where
  "buildConfig oor now name spec =
     (\<lparr> cc_Image = sp_Image spec,
        cc_Labels = fold (\<lambda>(k, v). mput (labelUserPfx @ k) v) (sp_Labels spec) (baseLabels now name spec),
        cc_User = sp_User spec,
        cc_Env = sp_Env spec,
        cc_Entrypoint = [''/bin/sh'', ''-c'', ''while :; do sleep 3600; done''],
        cc_Cmd = [],
        cc_WorkingDir = ''/workspace'' \<rparr>,
      \<lparr> hc_Runtime = sp_Runtime spec,
        hc_ReadonlyRootfs = True,
        hc_CapDrop = [''ALL''],
        hc_SecurityOpt = [''no-new-privileges''],
        hc_Tmpfs = scratchMounts (DiskBytes (sp_Resources spec)),
        hc_NanoCPUs = f64_to_int64 oor (f64_scale (CPUs (sp_Resources spec)) 1000000000),
        hc_Memory = MemoryBytes (sp_Resources spec),
        hc_MemorySwap = MemoryBytes (sp_Resources spec),
        hc_PidsLimit = pidsLimit (MaxProcesses (sp_Resources spec)),
        hc_RestartPolicy = ''no'',
        hc_NetworkMode = (if sp_Egress spec = EgressNone then ''none'' else []),
        hc_Privileged = False, hc_Binds = [], hc_CapAdd = [] \<rparr>)"

section \<open>Backends and handles\<close>

record previews =
  pv_signer :: Signer
  pv_baseURL :: string

record Backend =
  b_previews :: "previews option"
  b_registryAuth :: string

record dockerSandbox =
  ds_id :: string
  ds_info :: Info
  ds_defaultTimeout :: duration
  ds_maxTimeout :: duration
  ds_previews :: "previews option"

type_synonym BackendOption = "Backend \<Rightarrow> Backend result"

text \<open>\<^verbatim>\<open>registry.EncodeAuthConfig\<close> is Docker's and a parameter here.\<close>

definition WithRegistryAuth :: "(string \<Rightarrow> string \<Rightarrow> string result) \<Rightarrow> string \<Rightarrow> string \<Rightarrow> BackendOption" where
  "WithRegistryAuth encodeAuthConfig username password = (\<lambda>b.
     if username = [] then Inl (wrapErr ''%w: registry username is empty'' ErrInvalid)
     else case encodeAuthConfig username password of
            Inl err \<Rightarrow> Inl (Errorf ''encode registry auth: %w'' [err])
          | Inr blob \<Rightarrow> Inr (b\<lparr>b_registryAuth := blob\<rparr>))"

definition WithPreviews :: "string \<Rightarrow> string \<Rightarrow> BackendOption" where
  "WithPreviews key baseURL = (\<lambda>b.
     case NewSigner key of
       Inl err \<Rightarrow> Inl err
     | Inr signer \<Rightarrow>
         if baseURL = [] then Inl (wrapErr ''%w: preview base URL is empty'' ErrInvalid)
         else Inr (b\<lparr>b_previews := Some \<lparr> pv_signer = signer, pv_baseURL = baseURL \<rparr>\<rparr>))"

fun applyOptions :: "BackendOption list \<Rightarrow> Backend \<Rightarrow> Backend result" where
  "applyOptions [] b = Inr b"
| "applyOptions (opt # opts) b =
     (case opt b of Inl err \<Rightarrow> Inl err | Inr b' \<Rightarrow> applyOptions opts b')"

text \<open>\<^verbatim>\<open>docker.New\<close>, given whether the client could be set up.\<close>

definition NewBackend :: "cerr option \<Rightarrow> BackendOption list \<Rightarrow> Backend result" where
  "NewBackend client opts =
     (case client of
        Some e \<Rightarrow> Inl (Errorf ''connect to docker: %w'' [dockerErr e])
      | None \<Rightarrow> applyOptions opts \<lparr> b_previews = None, b_registryAuth = [] \<rparr>)"

definition infoFrom :: "string \<Rightarrow> gomap \<Rightarrow> string \<Rightarrow> ContainerState option \<Rightarrow> Info" where
  "infoFrom cid labels img state =
     \<lparr> i_Name = mget labels labelName, i_ID = cid, i_Image = img,
       i_State = stateFromStatus (case state of None \<Rightarrow> [] | Some s \<Rightarrow> st_Status s),
       i_CreatedAt = parseTimeLabel (mget labels labelCreatedAt),
       i_Labels = userLabels labels \<rparr>"

section \<open>Operations of the backend\<close>

definition sandboxOf :: "Backend \<Rightarrow> Inspect \<Rightarrow> ContainerConfig \<Rightarrow> dockerSandbox" where
  "sandboxOf b ins cfg =
     \<lparr> ds_id = in_ID ins,
       ds_info = infoFrom (in_ID ins) (cc_Labels cfg) (cc_Image cfg) (in_State ins),
       ds_defaultTimeout = parseDurationLabel (mget (cc_Labels cfg) labelDefTmo) DefaultCommandTimeout,
       ds_maxTimeout = parseDurationLabel (mget (cc_Labels cfg) labelMaxTmo) MaxCommandTimeout,
       ds_previews = b_previews b \<rparr>"

definition Open :: "'w engine \<Rightarrow> Backend \<Rightarrow> string \<Rightarrow> ('w, dockerSandbox result) state" where
  "Open eng b name = do {
     r \<leftarrow> ContainerInspect eng (containerName name);
     State_Monad.return (case r of
       Inl e \<Rightarrow>
         if e = CNotFound then Inl (wrapErr ''%w: %q'' ErrNotFound)
         else Inl (Errorf ''inspect sandbox %q: %w'' [dockerErr e])
     | Inr ins \<Rightarrow>
         (case in_Config ins of
            None \<Rightarrow> Inl (wrapErr ''%w: %q exists but is not managed by openblox'' ErrInvalid)
          | Some cfg \<Rightarrow>
              if mget (cc_Labels cfg) labelManaged \<noteq> ''true''
              then Inl (wrapErr ''%w: %q exists but is not managed by openblox'' ErrInvalid)
              else Inr (sandboxOf b ins cfg)))
   }"

definition managedFilter :: string where
  "managedFilter = labelManaged @ ''=true''"

definition ListSandboxes :: "'w engine \<Rightarrow> ('w, Info list result) state" where
  "ListSandboxes eng = do {
     r \<leftarrow> ContainerList eng managedFilter;
     State_Monad.return (case r of
       Inl e \<Rightarrow> Inl (Errorf ''list sandboxes: %w'' [dockerErr e])
     | Inr containers \<Rightarrow>
         Inr (map (\<lambda>c. \<lparr> i_Name = mget (cs_Labels c) labelName, i_ID = cs_ID c, i_Image = cs_Image c,
                          i_State = stateFromStatus (cs_State c),
                          i_CreatedAt = parseTimeLabel (mget (cs_Labels c) labelCreatedAt),
                          i_Labels = userLabels (cs_Labels c) \<rparr>) containers))
   }"

definition Destroy :: "'w engine \<Rightarrow> string \<Rightarrow> ('w, gerr option) state" where
  "Destroy eng name = do {
     err \<leftarrow> ContainerRemove eng (containerName name) True True;
     State_Monad.return (case err of
       None \<Rightarrow> None
     | Some e \<Rightarrow> if e = CNotFound then None else Some (Errorf ''destroy sandbox %q: %w'' [dockerErr e]))
   }"

definition halted :: "'w engine \<Rightarrow> string \<Rightarrow> ('w, bool result) state" where
  "halted eng cid = do {
     r \<leftarrow> ContainerInspect eng cid;
     State_Monad.return (case r of
       Inl e \<Rightarrow>
         if e = CNotFound then Inr True
         else Inl (Errorf ''inspect sandbox %q: %w'' [dockerErr e])
     | Inr ins \<Rightarrow>
         (case in_State ins of
            None \<Rightarrow> Inl (errorsNew ''inspect sandbox %q: the daemon reported no state'')
          | Some st \<Rightarrow> Inr (st_Status st = ''exited'' \<or> st_Status st = ''dead'')))
   }"

definition assertRuntime :: "'w engine \<Rightarrow> string \<Rightarrow> ('w, gerr option) state" where
  "assertRuntime eng runtime = do {
     r \<leftarrow> DaemonRuntimes eng;
     State_Monad.return (case r of
       Inl e \<Rightarrow> Some (Errorf ''inspect docker daemon: %w'' [dockerErr e])
     | Inr runtimes \<Rightarrow>
         if runtime \<in> set runtimes then None
         else Some (wrapErr ''%w: runtime %q is not registered with the docker daemon'' ErrRuntimeUnavailable))
   }"

definition ensureImage :: "'w engine \<Rightarrow> Backend \<Rightarrow> string \<Rightarrow> ('w, gerr option) state" where
  "ensureImage eng b ref = do {
     r \<leftarrow> ImageInspect eng ref;
     (case r of
        None \<Rightarrow> State_Monad.return None
      | Some e \<Rightarrow>
          if e \<noteq> CNotFound then State_Monad.return (Some (Errorf ''inspect image %q: %w'' [dockerErr e]))
          else do {
            p \<leftarrow> ImagePull eng ref (b_registryAuth b);
            (case p of
               Inl e \<Rightarrow> State_Monad.return (Some (Errorf ''%w: pull image %q: %w'' [Sentinel ErrImageUnavailable, dockerErr e]))
             | Inr drained \<Rightarrow>
                 if \<not> drained
                 then State_Monad.return (Some (Errorf ''%w: pull image %q: %w'' [Sentinel ErrImageUnavailable, Sentinel (LibraryErr ''io'')]))
                 else do {
                   again \<leftarrow> ImageInspect eng ref;
                   State_Monad.return (case again of
                     None \<Rightarrow> None
                   | Some _ \<Rightarrow> Some (wrapErr ''%w: image %q is still absent after pulling'' ErrImageUnavailable)) }) })
   }"

definition IsDigestPinned :: "string \<Rightarrow> bool" where
  "IsDigestPinned ref =
     (case lastIndexOf CHR ''@'' ref of
        None \<Rightarrow> False
      | Some at_sign \<Rightarrow> hasPrefix (drop (at_sign + 1) ref) ''sha256:'')"

text \<open>The second half of \<^verbatim>\<open>Create\<close>: no live sandbox stands under the name.\<close>

definition provision :: "'w engine \<Rightarrow> Backend \<Rightarrow> string \<Rightarrow> Spec \<Rightarrow> ('w, dockerSandbox result) state" where
  "provision eng b name spec = do {
     rt \<leftarrow> assertRuntime eng (sp_Runtime spec);
     (case rt of
        Some err \<Rightarrow> State_Monad.return (Inl err)
      | None \<Rightarrow> do {
          img \<leftarrow> ensureImage eng b (sp_Image spec);
          (case img of
             Some err \<Rightarrow> State_Monad.return (Inl err)
           | None \<Rightarrow> do {
               now \<leftarrow> timeNow eng;
               let (cfg, hostCfg) = buildConfig (floatOutOfRange eng) now name spec;
               created \<leftarrow> ContainerCreate eng cfg hostCfg (containerName name);
               (case created of
                  Inl e \<Rightarrow>
                    if e = CConflict then Open eng b name
                    else State_Monad.return (Inl (Errorf ''create sandbox %q: %w'' [dockerErr e]))
                | Inr cid \<Rightarrow> do {
                    started \<leftarrow> ContainerStart eng cid;
                    (case started of
                       Some e \<Rightarrow> do {
                         _ \<leftarrow> ContainerRemove eng cid True False;
                         State_Monad.return (Inl (Errorf ''start sandbox %q: %w'' [dockerErr e])) }
                     | None \<Rightarrow> Open eng b name) }) }) })
   }"

definition Create :: "'w engine \<Rightarrow> Backend \<Rightarrow> string \<Rightarrow> CreateOption list \<Rightarrow> ('w, dockerSandbox result) state" where
  "Create eng b name opts =
     (if name = [] then State_Monad.return (Inl (wrapErr ''%w: sandbox name is empty'' ErrInvalid))
      else let spec = newSpec opts in
        case Spec_Validate spec of
          Some err \<Rightarrow> State_Monad.return (Inl err)
        | None \<Rightarrow>
            if sp_Image spec = [] then State_Monad.return (Inl (wrapErr ''%w: no image; pass WithImage'' ErrInvalid))
            else do {
              opened \<leftarrow> Open eng b name;
              (case opened of
                 Inr sb \<Rightarrow> do {
                   st \<leftarrow> halted eng (i_ID (ds_info sb));
                   (case st of
                      Inl err \<Rightarrow> State_Monad.return (Inl err)
                    | Inr stopped \<Rightarrow>
                        if \<not> stopped then State_Monad.return (Inr sb)
                        else do {
                          gone \<leftarrow> Destroy eng name;
                          (case gone of
                             Some err \<Rightarrow> State_Monad.return (Inl err)
                           | None \<Rightarrow> provision eng b name spec) }) }
               | Inl err \<Rightarrow>
                   if \<not> errIs err ErrNotFound then State_Monad.return (Inl err)
                   else provision eng b name spec) })"

section \<open>Previews (expose.go)\<close>

definition DefaultPreviewTTL :: duration where "DefaultPreviewTTL = minutes 10"

definition Expose :: "'w engine \<Rightarrow> dockerSandbox \<Rightarrow> int \<Rightarrow> duration \<Rightarrow> ('w, Preview result) state" where
  "Expose eng s port ttl =
     (case ds_previews s of
        None \<Rightarrow> State_Monad.return (Inl (wrapErr ''%w: previews are not configured; pass docker.WithPreviews to New'' ErrInvalid))
      | Some pv \<Rightarrow>
          if port < 1 \<or> port > 65535
          then State_Monad.return (Inl (wrapErr ''%w: port %d is out of range'' ErrInvalid))
          else do {
            now \<leftarrow> timeNow eng;
            let expiresAt = now + ClampTTL ttl DefaultPreviewTTL;
            nonce \<leftarrow> (if i_Name (ds_info s) = [] then State_Monad.return None else randRead eng nonceBytes);
            State_Monad.return (case Sign (pv_signer pv) (i_Name (ds_info s)) port expiresAt nonce of
              Inl err \<Rightarrow> Inl (Errorf ''%w: %w'' [Sentinel ErrInvalid, err])
            | Inr token \<Rightarrow>
                Inr \<lparr> p_URL = URL (pv_baseURL pv) (i_Name (ds_info s)) port,
                      p_Token = token, p_Port = port, p_ExpiresAt = expiresAt \<rparr>) })"

text \<open>\<^verbatim>\<open>Revoke\<close> acts on the handler the backend's previews share.\<close>

definition RevokePreview :: "dockerSandbox \<Rightarrow> int \<Rightarrow> string \<Rightarrow> instant \<Rightarrow> Handler \<Rightarrow> gerr option \<times> Handler" where
  "RevokePreview s port token now handler =
     (case ds_previews s of
        None \<Rightarrow> (Some (wrapErr ''%w: previews are not configured'' ErrInvalid), handler)
      | Some pv \<Rightarrow>
          (case Verify (pv_signer pv) token (i_Name (ds_info s)) port now of
             Some err \<Rightarrow> (Some (Errorf ''%w: %w'' [Sentinel ErrInvalid, err]), handler)
           | None \<Rightarrow> (None, Revoke handler token now)))"

definition PreviewHandler :: "Backend \<Rightarrow> Handler option" where
  "PreviewHandler b = map_option (\<lambda>pv. NewHandler (pv_signer pv)) (b_previews b)"

section \<open>What the labels carry\<close>

lemma map_of_userLabels: "map_of (userLabels L) k = map_of L (labelUserPfx @ k)"
proof (induction L)
  case (Cons e L)
  obtain n v where e: "e = (n, v)" by force
  show ?case
  proof (cases "cutPrefix n labelUserPfx")
    case None
    then have "n \<noteq> labelUserPfx @ k" by auto
    with None Cons show ?thesis by (simp add: e userLabels_def map_filter_simps)
  next
    case (Some m)
    then have "n = labelUserPfx @ m" by (simp add: cutPrefix_Some_iff)
    with Some Cons show ?thesis by (simp add: e userLabels_def map_filter_simps)
  qed
qed (simp add: userLabels_def map_filter_simps)

lemma map_of_user_fold:
  assumes "wf_map ls"
  shows "map_of (fold (\<lambda>(k, v). mput (pfx @ k) v) ls base) key =
    (if \<exists>k. key = pfx @ k \<and> map_of ls k \<noteq> None
     then map_of ls (drop (length pfx) key) else map_of base key)"
  using assms
proof (induction ls arbitrary: base)
  case (Cons e ls)
  obtain n v where e: "e = (n, v)" by force
  have n: "map_of ls n = None" and wf: "wf_map ls"
    using Cons.prems by (auto simp: e wf_map_def map_of_eq_None_iff)
  show ?case
  proof (cases "key = pfx @ n")
    case True
    with n Cons.IH [OF wf] show ?thesis by (simp add: e)
  next
    case False
    then have "(\<exists>k. key = pfx @ k \<and> map_of (e # ls) k \<noteq> None) \<longleftrightarrow> (\<exists>k. key = pfx @ k \<and> map_of ls k \<noteq> None)"
      by (auto simp: e)
    with False Cons.IH [OF wf] show ?thesis by (auto simp: e)
  qed
qed simp

lemma bookkeeping_not_user:
  "labelManaged \<noteq> labelUserPfx @ k" "labelName \<noteq> labelUserPfx @ k" "labelCreatedAt \<noteq> labelUserPfx @ k"
  "labelIdle \<noteq> labelUserPfx @ k" "labelMaxAge \<noteq> labelUserPfx @ k" "labelDefTmo \<noteq> labelUserPfx @ k"
  "labelMaxTmo \<noteq> labelUserPfx @ k"
  by (simp_all add: label_defs labelUserPfx_def)

lemma baseLabels_get:
  "map_of (baseLabels now name spec) labelManaged = Some ''true''"
  "map_of (baseLabels now name spec) labelName = Some name"
  "map_of (baseLabels now name spec) labelCreatedAt = Some (formatRFC3339Nano now)"
  "map_of (baseLabels now name spec) labelIdle = Some (durString (IdleTimeout (sp_Lifetime spec)))"
  "map_of (baseLabels now name spec) labelMaxAge = Some (durString (MaxAge (sp_Lifetime spec)))"
  "map_of (baseLabels now name spec) labelDefTmo = Some (durString (sp_DefaultTimeout spec))"
  "map_of (baseLabels now name spec) labelMaxTmo = Some (durString (sp_MaxTimeout spec))"
  by (simp_all add: baseLabels_def label_defs)

lemma baseLabels_no_user: "map_of (baseLabels now name spec) (labelUserPfx @ k) = None"
  using bookkeeping_not_user [of k, symmetric] by (simp add: baseLabels_def)

definition createdLabels :: "instant \<Rightarrow> string \<Rightarrow> Spec \<Rightarrow> gomap" where
  "createdLabels now name spec =
     fold (\<lambda>(k, v). mput (labelUserPfx @ k) v) (sp_Labels spec) (baseLabels now name spec)"

lemma cc_Labels_buildConfig: "cc_Labels (fst (buildConfig oor now name spec)) = createdLabels now name spec"
  by (simp add: buildConfig_def createdLabels_def)

lemma createdLabels_get:
  assumes "wf_map (sp_Labels spec)"
  shows "mget (createdLabels now name spec) labelManaged = ''true''"
    "mget (createdLabels now name spec) labelName = name"
    "mget (createdLabels now name spec) labelCreatedAt = formatRFC3339Nano now"
    "mget (createdLabels now name spec) labelIdle = durString (IdleTimeout (sp_Lifetime spec))"
    "mget (createdLabels now name spec) labelMaxAge = durString (MaxAge (sp_Lifetime spec))"
    "mget (createdLabels now name spec) labelDefTmo = durString (sp_DefaultTimeout spec)"
    "mget (createdLabels now name spec) labelMaxTmo = durString (sp_MaxTimeout spec)"
  unfolding mget_def createdLabels_def map_of_user_fold [OF assms] baseLabels_get
  by (simp_all add: bookkeeping_not_user baseLabels_get)

lemma userLabels_created:
  assumes "wf_map (sp_Labels spec)"
  shows "map_of (userLabels (createdLabels now name spec)) = map_of (sp_Labels spec)"
  by (rule ext)
    (simp add: map_of_userLabels createdLabels_def map_of_user_fold [OF assms] baseLabels_no_user)

lemma wf_map_userLabels: "wf_map ls \<Longrightarrow> wf_map (userLabels ls)"
proof (induction ls)
  case (Cons e ls)
  obtain n v where e: "e = (n, v)" by force
  have "m \<notin> fst ` set (userLabels ls)" if "n = labelUserPfx @ m" for m
  proof -
    have "map_of ls n = None" using Cons.prems by (simp add: e wf_map_def map_of_eq_None_iff)
    then have "map_of (userLabels ls) m = None" by (simp add: map_of_userLabels that)
    then show ?thesis by (simp add: map_of_eq_None_iff)
  qed
  with Cons show ?case
    by (cases "cutPrefix n labelUserPfx")
      (simp_all add: e userLabels_def map_filter_simps wf_map_def cutPrefix_Some_iff)
qed (simp add: userLabels_def map_filter_simps)

lemma wf_createdLabels: "wf_map (createdLabels now name spec)"
proof -
  have "wf_map (fold (\<lambda>(k, v). mput (pfx @ k) v) ls m)" if "wf_map m" for pfx ls and m :: gomap
    using that by (induction ls arbitrary: m) auto
  moreover have "wf_map (baseLabels now name spec)" by (simp add: baseLabels_def label_defs wf_map_def)
  ultimately show ?thesis by (simp add: createdLabels_def)
qed

lemma parseDurationLabel_durString:
  "0 < d \<Longrightarrow> in_int64 d \<Longrightarrow> parseDurationLabel (durString d) fb = d"
  by (simp add: parseDurationLabel_def parseDuration_durString)

lemma parseTimeLabel_format: "four_digit_year t \<Longrightarrow> parseTimeLabel (formatRFC3339Nano t) = t"
  by (simp add: parseTimeLabel_def parse_formatRFC3339Nano)

lemma parseTimeLabel_year: "four_digit_year (parseTimeLabel (formatRFC3339Nano t))"
proof (cases "parseRFC3339Nano (formatRFC3339Nano t)")
  case (Some u)
  then have "four_digit_year t" by (rule parse_format_year)
  then show ?thesis by (simp add: parseTimeLabel_format)
qed (simp add: parseTimeLabel_def zero_time_year)

section \<open>Which calls the operations make\<close>

lemma traced_sel [simp]:
  "ContainerInspect (traced eng) n = logged (CInspect n) (ContainerInspect eng n)"
  "ContainerCreate (traced eng) c h n = logged (CCreate c h n) (ContainerCreate eng c h n)"
  "ContainerStart (traced eng) i = logged (CStart i) (ContainerStart eng i)"
  "ContainerRemove (traced eng) i f v = logged (CRemove i) (ContainerRemove eng i f v)"
  "ContainerStop (traced eng) i = logged (CStop i) (ContainerStop eng i)"
  "ContainerList (traced eng) l = logged (CList l) (ContainerList eng l)"
  "DaemonRuntimes (traced eng) = logged CInfo (DaemonRuntimes eng)"
  "ImageInspect (traced eng) r = logged (CImageInspect r) (ImageInspect eng r)"
  "ImagePull (traced eng) r a = logged (CImagePull r a) (ImagePull eng r a)"
  "ExecCreate (traced eng) i e = logged (CExecCreate i e) (ExecCreate eng i e)"
  "ExecAttach (traced eng) i = logged (CExecAttach i) (ExecAttach eng i)"
  "ExecCopy (traced eng) i st t = logged (CExecCopy i t) (ExecCopy eng i st t)"
  "ExecInspect (traced eng) i = logged (CExecInspect i) (ExecInspect eng i)"
  "ContainerWait (traced eng) i t = logged (CWait i) (ContainerWait eng i t)"
  "timeNow (traced eng) = lift (timeNow eng)"
  "timeAfter (traced eng) d = lift (timeAfter eng d)"
  "randRead (traced eng) k = lift (randRead eng k)"
  "floatOutOfRange (traced eng) = floatOutOfRange eng"
  by (simp_all add: traced_def)

text \<open>\<open>harmless\<close> calls create no container, run nothing and wait for nothing that runs.\<close>

fun harmless :: "call \<Rightarrow> bool" where
  "harmless (CCreate _ _ _) = False"
| "harmless (CExecCreate _ _) = False"
| "harmless (CExecCopy _ _) = False"
| "harmless _ = True"

lemma emits_harmless: "harmless c \<Longrightarrow> (\<And>c. harmless c \<Longrightarrow> P c) \<Longrightarrow> emits P (logged c m)"
  by (rule emits_logged) blast

text \<open>Calls that only ask the daemon something.\<close>

fun query :: "call \<Rightarrow> bool" where
  "query (CInspect _) = True"
| "query (CList _) = True"
| "query CInfo = True"
| "query (CImageInspect _) = True"
| "query (CExecAttach _) = True"
| "query (CExecInspect _) = True"
| "query (CWait _) = True"
| "query _ = False"

lemma query_harmless: "query c \<Longrightarrow> harmless c"
  by (cases c) simp_all

lemma emits_query: "query c \<Longrightarrow> (\<And>c. query c \<Longrightarrow> P c) \<Longrightarrow> emits P (logged c m)"
  by (rule emits_logged) blast

lemma Open_emits [emits_intros]:
  "(\<And>c. query c \<Longrightarrow> P c) \<Longrightarrow> emits P (Open (traced eng) b name)"
  unfolding Open_def by (auto intro!: emits_intros emits_query)

lemma halted_emits [emits_intros]:
  "(\<And>c. query c \<Longrightarrow> P c) \<Longrightarrow> emits P (halted (traced eng) cid)"
  unfolding halted_def by (auto intro!: emits_intros emits_query)

lemma Destroy_emits [emits_intros]:
  "(\<And>c. harmless c \<Longrightarrow> P c) \<Longrightarrow> emits P (Destroy (traced eng) name)"
  unfolding Destroy_def by (auto intro!: emits_intros emits_harmless)

lemma ListSandboxes_emits [emits_intros]:
  "(\<And>c. query c \<Longrightarrow> P c) \<Longrightarrow> emits P (ListSandboxes (traced eng))"
  unfolding ListSandboxes_def by (auto intro!: emits_intros emits_query)

lemma assertRuntime_emits [emits_intros]:
  "(\<And>c. query c \<Longrightarrow> P c) \<Longrightarrow> emits P (assertRuntime (traced eng) rt)"
  unfolding assertRuntime_def by (auto intro!: emits_intros emits_query)

lemma ensureImage_emits [emits_intros]:
  "(\<And>c. harmless c \<Longrightarrow> P c) \<Longrightarrow> emits P (ensureImage (traced eng) b ref)"
  unfolding ensureImage_def by (auto intro!: emits_intros emits_harmless)

lemma provision_emits [emits_intros]:
  assumes "\<And>c. harmless c \<Longrightarrow> P c"
    and "\<And>now cfg hc. buildConfig (floatOutOfRange eng) now name spec = (cfg, hc) \<Longrightarrow> P (CCreate cfg hc (containerName name))"
  shows "emits P (provision (traced eng) b name spec)"
  unfolding provision_def Let_def
  by (auto intro!: emits_intros emits_harmless emits_logged [of P "CCreate _ _ _"] assms intro: query_harmless split: prod.splits)

lemma Create_emits [emits_intros]:
  assumes "\<And>c. harmless c \<Longrightarrow> P c"
    and "\<And>now cfg hc. Spec_Validate (newSpec opts) = None \<Longrightarrow>
      buildConfig (floatOutOfRange eng) now name (newSpec opts) = (cfg, hc) \<Longrightarrow> P (CCreate cfg hc (containerName name))"
  shows "emits P (Create (traced eng) b name opts)"
  unfolding Create_def Let_def by (auto intro!: emits_intros intro: assms query_harmless)

text \<open>Containment, stated on the payload alone.\<close>

definition mount_ok :: "string \<Rightarrow> bool" where
  "mount_ok opt \<longleftrightarrow> hasPrefix opt ''rw,nosuid,nodev,noexec,''"

definition hardened :: "ContainerConfig \<Rightarrow> HostConfig \<Rightarrow> bool" where
  "hardened cfg hc \<longleftrightarrow>
     hc_ReadonlyRootfs hc \<and> hc_CapDrop hc = [''ALL''] \<and> hc_CapAdd hc = [] \<and> \<not> hc_Privileged hc \<and>
     hc_Binds hc = [] \<and> ''no-new-privileges'' \<in> set (hc_SecurityOpt hc) \<and> hc_RestartPolicy hc = ''no'' \<and>
     0 < hc_Memory hc \<and> hc_MemorySwap hc = hc_Memory hc \<and> (\<exists>n > 0. hc_PidsLimit hc = Some n) \<and>
     list_all (\<lambda>(p, opt). mount_ok opt) (hc_Tmpfs hc) \<and> validateUser (cc_User cfg) = None"

lemma mount_ok_size: "mount_ok (''rw,nosuid,nodev,noexec,size='' @ r)"
  using hasPrefix_append [of "''rw,nosuid,nodev,noexec,''" "''size='' @ r"] by (simp add: mount_ok_def)

lemma scratchMounts_ok: "list_all (\<lambda>(p, opt). mount_ok opt) (scratchMounts d)"
  by (simp add: scratchMounts_def scratchPaths_def Let_def mount_ok_size del: append_Cons append.simps)

lemma buildConfig_hardened:
  assumes "buildConfig oor now name spec = (cfg, hc)" "bounded_spec spec" "Spec_Validate spec = None"
  shows "hardened cfg hc"
  using assms
  by (auto simp: buildConfig_def hardened_def scratchMounts_ok bounded_spec_def pidsLimit_def Spec_Validate_None)

end
