(* ===== verification/Docker_Registry.thy ===== *)
theory Docker_Registry
  imports Docker_Backend
begin

text \<open>
  What \<^verbatim>\<open>pkg/docker\<close> promises when the daemon is healthy. The abstract state is a map from
  container names to containers. \<open>healthy\<close> states Docker's documented behaviour of the
  calls the backend makes; the refinement theorems show that \<^verbatim>\<open>Create\<close>, \<^verbatim>\<open>Open\<close> and
  \<^verbatim>\<open>Destroy\<close> then act on the map as the sandbox contract says. An in-memory daemon shows
  that the hypothesis can hold.
\<close>

section \<open>A healthy daemon\<close>

record ctr =
  k_id :: string
  k_cfg :: ContainerConfig
  k_host :: HostConfig
  k_status :: string

type_synonym registry = "string \<rightharpoonup> ctr"

text \<open>
  A reference names a container or is its id. Ids are unique, are never names, and never
  begin like the names this backend gives its containers (Docker's are hexadecimal).
\<close>

definition resolves :: "registry \<Rightarrow> string \<Rightarrow> string \<Rightarrow> ctr \<Rightarrow> bool" where
  "resolves V ref n k \<longleftrightarrow> V n = Some k \<and> (ref = n \<or> ref = k_id k)"

definition wf_registry :: "registry \<Rightarrow> bool" where
  "wf_registry V \<longleftrightarrow>
     (\<forall>n k. V n = Some k \<longrightarrow> \<not> hasPrefix (k_id k) containerPrefix \<and> V (k_id k) = None) \<and>
     (\<forall>n k m l. V n = Some k \<longrightarrow> V m = Some l \<longrightarrow> k_id k = k_id l \<longrightarrow> n = m)"

definition inspected :: "ctr \<Rightarrow> Inspect" where
  "inspected k =
     \<lparr> in_ID = k_id k, in_Config = Some (k_cfg k),
       in_State = Some \<lparr> st_Status = k_status k, st_Running = (k_status k = ''running''), st_OOMKilled = False \<rparr> \<rparr>"

text \<open>
  A daemon that answers: it finds and removes containers by reference, gives a new
  container a fresh id, starts what it is asked to start, knows the runtimes \<open>rts\<close> and
  holds every image.
\<close>

definition inspect_law :: "'w engine \<Rightarrow> ('w \<Rightarrow> registry) \<Rightarrow> bool" where
  "inspect_law eng view \<longleftrightarrow> (\<forall>w ref r w'. wf_registry (view w) \<longrightarrow>
     run_state (ContainerInspect eng ref) w = (r, w') \<longrightarrow>
     view w' = view w \<and> (\<forall>n k. resolves (view w) ref n k \<longrightarrow> r = Inr (inspected k)) \<and>
     ((\<forall>n k. \<not> resolves (view w) ref n k) \<longrightarrow> r = Inl CNotFound))"

definition create_law :: "'w engine \<Rightarrow> ('w \<Rightarrow> registry) \<Rightarrow> bool" where
  "create_law eng view \<longleftrightarrow> (\<forall>w c h n r w'. wf_registry (view w) \<longrightarrow> view w n = None \<longrightarrow> hasPrefix n containerPrefix \<longrightarrow>
     run_state (ContainerCreate eng c h n) w = (r, w') \<longrightarrow>
     (\<exists>cid. r = Inr cid \<and> wf_registry (view w') \<and>
        view w' = (view w)(n \<mapsto> \<lparr> k_id = cid, k_cfg = c, k_host = h, k_status = ''created'' \<rparr>)))"

definition start_law :: "'w engine \<Rightarrow> ('w \<Rightarrow> registry) \<Rightarrow> bool" where
  "start_law eng view \<longleftrightarrow> (\<forall>w ref n k r w'. wf_registry (view w) \<longrightarrow> resolves (view w) ref n k \<longrightarrow>
     run_state (ContainerStart eng ref) w = (r, w') \<longrightarrow>
     r = None \<and> view w' = (view w)(n \<mapsto> k\<lparr>k_status := ''running''\<rparr>))"

definition remove_law :: "'w engine \<Rightarrow> ('w \<Rightarrow> registry) \<Rightarrow> bool" where
  "remove_law eng view \<longleftrightarrow> (\<forall>w ref f v r w'. wf_registry (view w) \<longrightarrow>
     run_state (ContainerRemove eng ref f v) w = (r, w') \<longrightarrow>
     (\<forall>n k. resolves (view w) ref n k \<longrightarrow> r = None \<and> view w' = (view w)(n := None)) \<and>
     ((\<forall>n k. \<not> resolves (view w) ref n k) \<longrightarrow> r = Some CNotFound \<and> view w' = view w))"

definition host_law :: "'w engine \<Rightarrow> ('w \<Rightarrow> registry) \<Rightarrow> string set \<Rightarrow> bool" where
  "host_law eng view rts \<longleftrightarrow> (\<forall>w.
     (\<forall>r w'. run_state (DaemonRuntimes eng) w = (r, w') \<longrightarrow> view w' = view w \<and> (\<exists>l. r = Inr l \<and> set l = rts)) \<and>
     (\<forall>ref r w'. run_state (ImageInspect eng ref) w = (r, w') \<longrightarrow> view w' = view w \<and> r = None) \<and>
     (\<forall>t w'. run_state (timeNow eng) w = (t, w') \<longrightarrow> view w' = view w))"

definition healthy :: "'w engine \<Rightarrow> ('w \<Rightarrow> registry) \<Rightarrow> string set \<Rightarrow> bool" where
  "healthy eng view rts \<longleftrightarrow>
     inspect_law eng view \<and> create_law eng view \<and> start_law eng view \<and> remove_law eng view \<and>
     host_law eng view rts"

section \<open>The calls, one at a time\<close>

lemma healthy_inspect_Some:
  assumes "healthy eng view rts" "wf_registry (view w)" "resolves (view w) ref n k"
  obtains w' where "run_state (ContainerInspect eng ref) w = (Inr (inspected k), w')" "view w' = view w"
  using assms unfolding healthy_def inspect_law_def
  by (cases "run_state (ContainerInspect eng ref) w") blast

lemma healthy_inspect_None:
  assumes "healthy eng view rts" "wf_registry (view w)" "\<forall>n k. \<not> resolves (view w) ref n k"
  obtains w' where "run_state (ContainerInspect eng ref) w = (Inl CNotFound, w')" "view w' = view w"
  using assms unfolding healthy_def inspect_law_def
  by (cases "run_state (ContainerInspect eng ref) w") blast

lemma healthy_create:
  assumes "healthy eng view rts" "wf_registry (view w)" "view w n = None" "hasPrefix n containerPrefix"
  obtains cid w' where "run_state (ContainerCreate eng c h n) w = (Inr cid, w')" "wf_registry (view w')"
    "view w' = (view w)(n \<mapsto> \<lparr> k_id = cid, k_cfg = c, k_host = h, k_status = ''created'' \<rparr>)"
  using assms unfolding healthy_def create_law_def
  by (cases "run_state (ContainerCreate eng c h n) w") blast

lemma healthy_start:
  assumes "healthy eng view rts" "wf_registry (view w)" "resolves (view w) ref n k"
  obtains w' where "run_state (ContainerStart eng ref) w = (None, w')"
    "view w' = (view w)(n \<mapsto> k\<lparr>k_status := ''running''\<rparr>)"
  using assms unfolding healthy_def start_law_def
  by (cases "run_state (ContainerStart eng ref) w") blast

lemma healthy_remove_Some:
  assumes "healthy eng view rts" "wf_registry (view w)" "resolves (view w) ref n k"
  obtains w' where "run_state (ContainerRemove eng ref f v) w = (None, w')" "view w' = (view w)(n := None)"
  using assms unfolding healthy_def remove_law_def
  by (cases "run_state (ContainerRemove eng ref f v) w") blast

lemma healthy_remove_None:
  assumes "healthy eng view rts" "wf_registry (view w)" "\<forall>n k. \<not> resolves (view w) ref n k"
  obtains w' where "run_state (ContainerRemove eng ref f v) w = (Some CNotFound, w')" "view w' = view w"
  using assms unfolding healthy_def remove_law_def
  by (cases "run_state (ContainerRemove eng ref f v) w") blast

lemma healthy_runtimes:
  assumes "healthy eng view rts"
  obtains l w' where "run_state (DaemonRuntimes eng) w = (Inr l, w')" "set l = rts" "view w' = view w"
  using assms unfolding healthy_def host_law_def
  by (cases "run_state (DaemonRuntimes eng) w") blast

lemma healthy_image:
  assumes "healthy eng view rts"
  obtains w' where "run_state (ImageInspect eng ref) w = (None, w')" "view w' = view w"
  using assms unfolding healthy_def host_law_def
  by (cases "run_state (ImageInspect eng ref) w") blast

lemma healthy_now:
  assumes "healthy eng view rts"
  obtains t w' where "run_state (timeNow eng) w = (t, w')" "view w' = view w"
  using assms unfolding healthy_def host_law_def
  by (cases "run_state (timeNow eng) w") blast

section \<open>The registry the backend keeps\<close>

definition managed :: "ctr \<Rightarrow> bool" where
  "managed k \<longleftrightarrow> mget (cc_Labels (k_cfg k)) labelManaged = ''true''"

definition is_halted :: "ctr \<Rightarrow> bool" where
  "is_halted k \<longleftrightarrow> k_status k = ''exited'' \<or> k_status k = ''dead''"

definition handle :: "Backend \<Rightarrow> ctr \<Rightarrow> dockerSandbox" where
  "handle b k = sandboxOf b (inspected k) (k_cfg k)"

text \<open>The contract of \<^verbatim>\<open>Open\<close>.\<close>

definition open_spec :: "Backend \<Rightarrow> registry \<Rightarrow> string \<Rightarrow> dockerSandbox result" where
  "open_spec b V name =
     (case V (containerName name) of
        None \<Rightarrow> Inl (wrapErr ''%w: %q'' ErrNotFound)
      | Some k \<Rightarrow>
          if managed k then Inr (handle b k)
          else Inl (wrapErr ''%w: %q exists but is not managed by openblox'' ErrInvalid))"

text \<open>The contract of \<^verbatim>\<open>Create\<close>: a live sandbox stays, a halted or absent one is replaced.\<close>

definition create_spec :: "registry \<Rightarrow> string \<Rightarrow> ctr \<Rightarrow> registry" where
  "create_spec V n new =
     (case V n of
        Some k \<Rightarrow> if is_halted k then V(n \<mapsto> new) else V
      | None \<Rightarrow> V(n \<mapsto> new))"

lemma wf_registry_remove: "wf_registry V \<Longrightarrow> wf_registry (V(n := None))"
  by (auto simp: wf_registry_def)

lemma wf_registry_status:
  assumes "wf_registry V" "V n = Some k"
  shows "wf_registry (V(n \<mapsto> k\<lparr>k_status := st\<rparr>))"
proof -
  have "k_id l \<noteq> n" if "V m = Some l" for m l using assms that by (auto simp: wf_registry_def)
  then show ?thesis using assms by (auto simp: wf_registry_def)
qed

lemma hasPrefix_containerName: "hasPrefix (containerName name) containerPrefix"
  by (simp add: containerName_def)

lemma resolves_containerName:
  assumes "wf_registry V"
  shows "resolves V (containerName name) n k \<longleftrightarrow> n = containerName name \<and> V n = Some k"
proof
  assume r: "resolves V (containerName name) n k"
  have "k_id k \<noteq> containerName name"
    using assms r hasPrefix_containerName [of name] unfolding wf_registry_def resolves_def by metis
  with r show "n = containerName name \<and> V n = Some k" by (auto simp: resolves_def)
qed (auto simp: resolves_def)

lemma resolves_id: "V n = Some k \<Longrightarrow> resolves V (k_id k) n k"
  by (simp add: resolves_def)

lemma Open_healthy:
  assumes "healthy eng view rts" "wf_registry (view w)"
  obtains w' where "view w' = view w"
    "run_state (Open eng b name) w = (open_spec b (view w) name, w')"
proof (cases "view w (containerName name)")
  case None
  then have "\<forall>n k. \<not> resolves (view w) (containerName name) n k"
    using resolves_containerName [OF assms(2)] by simp
  from healthy_inspect_None [OF assms this] obtain w' where
    "run_state (ContainerInspect eng (containerName name)) w = (Inl CNotFound, w')" "view w' = view w" .
  with None that [of w'] show thesis by (simp add: Open_def open_spec_def)
next
  case (Some k)
  then have "resolves (view w) (containerName name) (containerName name) k"
    using resolves_containerName [OF assms(2)] by simp
  from healthy_inspect_Some [OF assms this] obtain w' where
    "run_state (ContainerInspect eng (containerName name)) w = (Inr (inspected k), w')" "view w' = view w" .
  with Some that [of w'] show thesis by (simp add: Open_def open_spec_def inspected_def managed_def handle_def)
qed

lemma halted_healthy:
  assumes "healthy eng view rts" "wf_registry (view w)" "view w n = Some k"
  obtains w' where "run_state (halted eng (k_id k)) w = (Inr (is_halted k), w')" "view w' = view w"
proof -
  from healthy_inspect_Some [OF assms(1,2) resolves_id [of "view w" n k, OF assms(3)]] obtain w' where
    "run_state (ContainerInspect eng (k_id k)) w = (Inr (inspected k), w')" "view w' = view w" .
  with that [of w'] show thesis by (simp add: halted_def inspected_def is_halted_def)
qed

lemma Destroy_healthy:
  assumes "healthy eng view rts" "wf_registry (view w)"
  obtains w' where "run_state (Destroy eng name) w = (None, w')"
    "view w' = (view w)(containerName name := None)"
proof (cases "view w (containerName name)")
  case None
  then have "\<forall>n k. \<not> resolves (view w) (containerName name) n k"
    using resolves_containerName [OF assms(2)] by simp
  from healthy_remove_None [OF assms this] obtain w' where
    "run_state (ContainerRemove eng (containerName name) True True) w = (Some CNotFound, w')" "view w' = view w" .
  with None that [of w'] show thesis by (simp add: Destroy_def fun_upd_idem)
next
  case (Some k)
  then have "resolves (view w) (containerName name) (containerName name) k"
    using resolves_containerName [OF assms(2)] by simp
  from healthy_remove_Some [OF assms this] obtain w' where
    "run_state (ContainerRemove eng (containerName name) True True) w = (None, w')"
    "view w' = (view w)(containerName name := None)" .
  with that [of w'] show thesis by (simp add: Destroy_def)
qed

lemma provision_healthy:
  assumes h: "healthy eng view rts" and wf: "wf_registry (view w)" and absent: "view w (containerName name) = None"
    and rt: "sp_Runtime spec \<in> rts" and lb: "wf_map (sp_Labels spec)"
  obtains now new w' where
    "run_state (provision eng b name spec) w = (Inr (handle b new), w')"
    "view w' = (view w)(containerName name \<mapsto> new)" "wf_registry (view w')" "k_status new = ''running''"
    "buildConfig (floatOutOfRange eng) now name spec = (k_cfg new, k_host new)"
proof -
  let ?n = "containerName name"
  obtain l w1 where w1: "run_state (DaemonRuntimes eng) w = (Inr l, w1)" "set l = rts" "view w1 = view w"
    using healthy_runtimes [OF h] .
  obtain w2 where w2: "run_state (ImageInspect eng (sp_Image spec)) w1 = (None, w2)" "view w2 = view w1"
    using healthy_image [OF h] .
  obtain now w3 where w3: "run_state (timeNow eng) w2 = (now, w3)" "view w3 = view w2" using healthy_now [OF h] .
  obtain cfg hc where bc: "buildConfig (floatOutOfRange eng) now name spec = (cfg, hc)" by force
  have v3: "view w3 = view w" using w1 w2 w3 by simp
  have "wf_registry (view w3)" "view w3 ?n = None" using wf absent v3 by simp_all
  from healthy_create [OF h this hasPrefix_containerName, of cfg hc] obtain cid w4 where
    w4: "run_state (ContainerCreate eng cfg hc ?n) w3 = (Inr cid, w4)" "wf_registry (view w4)"
      "view w4 = (view w3)(?n \<mapsto> \<lparr> k_id = cid, k_cfg = cfg, k_host = hc, k_status = ''created'' \<rparr>)" .
  define c where "c = \<lparr> k_id = cid, k_cfg = cfg, k_host = hc, k_status = ''created'' \<rparr>"
  have c4: "view w4 ?n = Some c" by (simp add: w4 c_def)
  from healthy_start [OF h w4(2) resolves_id [of "view w4" ?n c, OF c4]] obtain w5 where
    w5: "run_state (ContainerStart eng (k_id c)) w4 = (None, w5)" "view w5 = (view w4)(?n \<mapsto> c\<lparr>k_status := ''running''\<rparr>)" .
  have cid: "k_id c = cid" by (simp add: c_def)
  have wf5: "wf_registry (view w5)" using wf_registry_status [OF w4(2) c4] w5(2) by simp
  let ?new = "c\<lparr>k_status := ''running''\<rparr>"
  have mg: "managed ?new"
    using createdLabels_get(1) [OF lb] cc_Labels_buildConfig [of "floatOutOfRange eng" now name spec] bc
    by (simp add: managed_def c_def)
  obtain w6 where v6: "view w6 = view w5" and
    r6: "run_state (Open eng b name) w5 = (open_spec b (view w5) name, w6)"
    using Open_healthy [OF h wf5, of b name] .
  have w6: "run_state (Open eng b name) w5 = (Inr (handle b ?new), w6)"
    using mg unfolding r6 w5(2) open_spec_def by simp
  have "run_state (provision eng b name spec) w = (Inr (handle b ?new), w6)"
    using w1(1,2) rt w2(1) w3(1) bc w4(1) w5(1) [unfolded cid] w6
    by (simp add: provision_def assertRuntime_def ensureImage_def)
  moreover have "view w6 = (view w)(?n \<mapsto> ?new)" using v6 w5(2) w4(3) v3 by simp
  ultimately show thesis
    using that [of ?new w6 now] wf5 v6 bc by (simp add: c_def)
qed

lemma handle_id: "i_ID (ds_info (handle b k)) = k_id k"
  by (simp add: handle_def sandboxOf_def infoFrom_def inspected_def)

lemma Create_unfold:
  assumes "name \<noteq> []" "Spec_Validate (newSpec opts) = None" "sp_Image (newSpec opts) \<noteq> []"
  shows "Create eng b name opts = do {
     opened \<leftarrow> Open eng b name;
     (case opened of
        Inr sb \<Rightarrow> do {
          st \<leftarrow> halted eng (i_ID (ds_info sb));
          (case st of
             Inl err \<Rightarrow> State_Monad.return (Inl err)
           | Inr stopped \<Rightarrow>
               if \<not> stopped then State_Monad.return (Inr sb)
               else do {
                 gone \<leftarrow> Destroy eng name;
                 (case gone of
                    Some err \<Rightarrow> State_Monad.return (Inl err)
                  | None \<Rightarrow> provision eng b name (newSpec opts)) }) }
      | Inl err \<Rightarrow>
          if \<not> errIs err ErrNotFound then State_Monad.return (Inl err)
          else provision eng b name (newSpec opts)) }"
  using assms by (simp add: Create_def Let_def)

section \<open>An in-memory daemon\<close>

text \<open>Containers by name; a new id is longer than every name and id in use.\<close>

type_synonym mem = "(string \<times> ctr) list"

definition mem_find :: "string \<Rightarrow> mem \<Rightarrow> (string \<times> ctr) option" where
  "mem_find ref m = List.find (\<lambda>(n, k). map_of m n = Some k \<and> (ref = n \<or> ref = k_id k)) m"

definition mem_fresh :: "string \<Rightarrow> mem \<Rightarrow> string" where
  "mem_fresh n m = replicate (Suc (length n + sum_list (map (\<lambda>(n, k). length n + length (k_id k)) m))) CHR ''f''"

definition mem_engine :: "mem engine" where
  "mem_engine =
     \<lparr> ContainerInspect = (\<lambda>ref. State (\<lambda>m.
         (case mem_find ref m of None \<Rightarrow> Inl CNotFound | Some (n, k) \<Rightarrow> Inr (inspected k), m))),
       ContainerCreate = (\<lambda>c h n. State (\<lambda>m.
         case map_of m n of
           Some _ \<Rightarrow> (Inl CConflict, m)
         | None \<Rightarrow> (let cid = mem_fresh n m in
             (Inr cid, (n, \<lparr> k_id = cid, k_cfg = c, k_host = h, k_status = ''created'' \<rparr>) # m)))),
       ContainerStart = (\<lambda>ref. State (\<lambda>m.
         case mem_find ref m of
           None \<Rightarrow> (Some CNotFound, m)
         | Some (n, k) \<Rightarrow> (None, mput n (k\<lparr>k_status := ''running''\<rparr>) m))),
       ContainerRemove = (\<lambda>ref f v. State (\<lambda>m.
         case mem_find ref m of None \<Rightarrow> (Some CNotFound, m) | Some (n, k) \<Rightarrow> (None, mdel n m))),
       ContainerStop = (\<lambda>ref. State (\<lambda>m.
         case mem_find ref m of
           None \<Rightarrow> (Some CNotFound, m)
         | Some (n, k) \<Rightarrow> (None, mput n (k\<lparr>k_status := ''exited''\<rparr>) m))),
       ContainerList = (\<lambda>label. State (\<lambda>m.
         (Inr (map (\<lambda>(n, k). \<lparr> cs_ID = k_id k, cs_Labels = cc_Labels (k_cfg k),
                               cs_Image = cc_Image (k_cfg k), cs_State = k_status k \<rparr>)
                (filter (\<lambda>(n, k). map_of m n = Some k \<and> managed k) (remdups m))), m))),
       DaemonRuntimes = State (\<lambda>m. (Inr [''runc'', ''runsc''], m)),
       ImageInspect = (\<lambda>ref. State (\<lambda>m. (None, m))),
       ImagePull = (\<lambda>ref auth. State (\<lambda>m. (Inr True, m))),
       ExecCreate = (\<lambda>ref e. State (\<lambda>m. (Inr ''exec'', m))),
       ExecAttach = (\<lambda>ref. State (\<lambda>m. (None, m))),
       ExecCopy = (\<lambda>ref inp t. State (\<lambda>m. (CopyDone [(Stdout, ''out'')], m))),
       ExecInspect = (\<lambda>ref. State (\<lambda>m. (Inr 0, m))),
       ContainerWait = (\<lambda>ref t. State (\<lambda>m. (False, m))),
       timeNow = State (\<lambda>m. (0, m)),
       timeAfter = (\<lambda>d. State (\<lambda>m. (True, m))),
       randRead = (\<lambda>n. State (\<lambda>m. (Some (replicate n CHR ''r''), m))),
       floatOutOfRange = (\<lambda>_. 0) \<rparr>"

lemma resolves_unique:
  assumes "wf_registry V" "resolves V ref n k" "resolves V ref n' k'"
  shows "n' = n \<and> k' = k"
proof -
  have V: "V n = Some k" "V n' = Some k'" "ref = n \<or> ref = k_id k" "ref = n' \<or> ref = k_id k'"
    using assms(2,3) by (auto simp: resolves_def)
  then have "n' = n" using assms(1) by (auto simp: wf_registry_def)
  with V show ?thesis by simp
qed

lemma mem_find_Some: "mem_find ref m = Some (n, k) \<Longrightarrow> resolves (map_of m) ref n k"
  by (auto simp: mem_find_def find_Some_iff resolves_def)

lemma mem_find_None: "mem_find ref m = None \<Longrightarrow> \<not> resolves (map_of m) ref n k"
  by (auto simp: mem_find_def find_None_iff resolves_def dest: map_of_SomeD)

lemma mem_find_resolves:
  assumes "wf_registry (map_of m)" "resolves (map_of m) ref n k"
  shows "mem_find ref m = Some (n, k)"
proof (cases "mem_find ref m")
  case (Some e)
  obtain n' k' where "e = (n', k')" by force
  with Some resolves_unique [OF assms] mem_find_Some [of ref m n' k'] show ?thesis by simp
qed (use assms mem_find_None in blast)

lemma mem_sizes:
  fixes m :: mem
  assumes "map_of m n' = Some k"
  shows "length n' \<le> sum_list (map (\<lambda>(n, k). length n + length (k_id k)) m)"
    "length (k_id k) \<le> sum_list (map (\<lambda>(n, k). length n + length (k_id k)) m)"
proof -
  define f :: "string \<times> ctr \<Rightarrow> nat" where "f = (\<lambda>(n, k). length n + length (k_id k))"
  have "f (n', k) \<in> set (map f m)" using map_of_SomeD [OF assms] by simp
  from member_le_sum_list [OF this]
  show "length n' \<le> sum_list (map (\<lambda>(n, k). length n + length (k_id k)) m)"
    "length (k_id k) \<le> sum_list (map (\<lambda>(n, k). length n + length (k_id k)) m)"
    unfolding f_def by simp_all
qed

lemma mem_fresh_new:
  "mem_fresh n m \<noteq> n" "\<not> hasPrefix (mem_fresh n m) containerPrefix"
  "map_of m n' = Some k \<Longrightarrow> mem_fresh n m \<noteq> n'" "map_of m n' = Some k \<Longrightarrow> mem_fresh n m \<noteq> k_id k"
proof -
  have len: "length (mem_fresh n m) = Suc (length n + sum_list (map (\<lambda>(n, k). length n + length (k_id k)) m))"
    by (simp add: mem_fresh_def)
  show "mem_fresh n m \<noteq> n" using len by (metis le_add1 not_less_eq_eq order_refl)
  show "\<not> hasPrefix (mem_fresh n m) containerPrefix"
    by (simp add: mem_fresh_def hasPrefix_def containerPrefix_def)
  show "map_of m n' = Some k \<Longrightarrow> mem_fresh n m \<noteq> n'" using len mem_sizes(1) [of m n' k] by auto
  show "map_of m n' = Some k \<Longrightarrow> mem_fresh n m \<noteq> k_id k" using len mem_sizes(2) [of m n' k] by auto
qed

lemma wf_registry_add:
  assumes "wf_registry V" "hasPrefix n containerPrefix" "cid \<noteq> n" "\<not> hasPrefix cid containerPrefix" "k_id c = cid"
    and "V cid = None" "\<And>m l. V m = Some l \<Longrightarrow> k_id l \<noteq> cid"
  shows "wf_registry (V(n \<mapsto> c))"
proof -
  have "k_id l \<noteq> n" if "V m = Some l" for m l using assms(1,2) that by (auto simp: wf_registry_def)
  then show ?thesis using assms unfolding wf_registry_def by (auto split: if_splits) blast+
qed

lemma mem_inspect_law: "inspect_law mem_engine map_of"
  unfolding inspect_law_def mem_engine_def
  by (auto simp: mem_find_resolves split: option.splits prod.splits dest: mem_find_Some)

lemma mem_create_law: "create_law mem_engine map_of"
  unfolding create_law_def
proof (intro allI impI)
  fix m c h n r m'
  assume a: "wf_registry (map_of m)" "map_of m n = None" "hasPrefix n containerPrefix"
    "run_state (ContainerCreate mem_engine c h n) m = (r, m')"
  let ?k = "\<lparr> k_id = mem_fresh n m, k_cfg = c, k_host = h, k_status = ''created'' \<rparr>"
  from a have m: "r = Inr (mem_fresh n m)" "m' = (n, ?k) # m" by (simp_all add: mem_engine_def Let_def)
  have "map_of m (mem_fresh n m) = None"
    using mem_fresh_new(3) [of m "mem_fresh n m" _ n] by (cases "map_of m (mem_fresh n m)") auto
  then have "wf_registry (map_of m')"
    using wf_registry_add [OF a(1,3) mem_fresh_new(1) mem_fresh_new(2), of ?k m] mem_fresh_new(4) [of m _ _ n]
    by (fastforce simp: m)
  with m show "\<exists>cid. r = Inr cid \<and> wf_registry (map_of m') \<and>
      map_of m' = (map_of m)(n \<mapsto> \<lparr> k_id = cid, k_cfg = c, k_host = h, k_status = ''created'' \<rparr>)"
    by simp
qed

lemma mem_start_law: "start_law mem_engine map_of"
  unfolding start_law_def by (auto simp: mem_engine_def mem_find_resolves)

lemma mem_remove_law: "remove_law mem_engine map_of"
  unfolding remove_law_def
  by (auto simp: mem_engine_def mem_find_resolves split: option.splits prod.splits dest: mem_find_Some)

lemma healthy_mem_engine: "healthy mem_engine map_of {''runc'', ''runsc''}"
  unfolding healthy_def host_law_def
  using mem_inspect_law mem_create_law mem_start_law mem_remove_law by (auto simp: mem_engine_def)

section \<open>Properties\<close>

text \<open>\<^verbatim>\<open>Create\<close> on a healthy daemon, by what the registry holds under the name.\<close>

lemma Create_healthy:
  assumes "healthy eng view rts" "wf_registry (view w)"
    and "name \<noteq> []" "Spec_Validate (newSpec opts) = None" "sp_Image (newSpec opts) \<noteq> []"
    and "sp_Runtime (newSpec opts) \<in> rts" "\<forall>opt \<in> set opts. lib_option opt"
    and "\<And>k. view w (containerName name) = Some k \<Longrightarrow> managed k"
  shows "\<exists>now new k w'. run_state (Create eng b name opts) w = (Inr (handle b k), w') \<and>
    view w' = create_spec (view w) (containerName name) new \<and> view w' (containerName name) = Some k \<and>
    wf_registry (view w') \<and> k_status new = ''running'' \<and>
    buildConfig (floatOutOfRange eng) now name (newSpec opts) = (k_cfg new, k_host new)"
proof -
  let ?n = "containerName name" and ?spec = "newSpec opts"
  have lb: "wf_map (sp_Labels ?spec)" using newSpec_bounded_lib [OF assms(7)] by (simp add: bounded_spec_def)
  obtain w1 where w1: "view w1 = view w" "run_state (Open eng b name) w = (open_spec b (view w) name, w1)"
    using Open_healthy [OF assms(1,2)] .
  show ?thesis
  proof (cases "view w ?n")
    case None
    have "wf_registry (view w1)" "view w1 ?n = None" using assms(2) None w1(1) by simp_all
    from provision_healthy [OF assms(1) this assms(6) lb, of b] obtain now new w2 where
      "run_state (provision eng b name ?spec) w1 = (Inr (handle b new), w2)"
      "view w2 = (view w1)(?n \<mapsto> new)" "wf_registry (view w2)" "k_status new = ''running''"
      "buildConfig (floatOutOfRange eng) now name ?spec = (k_cfg new, k_host new)" .
    with None w1 show ?thesis
      by (intro exI [of _ now] exI [of _ new] exI [of _ w2])
        (simp add: Create_unfold [OF assms(3-5)] open_spec_def create_spec_def)
  next
    case (Some k)
    have o: "open_spec b (view w) name = Inr (handle b k)" using Some assms(8) by (simp add: open_spec_def)
    have "wf_registry (view w1)" "view w1 ?n = Some k" using assms(2) Some w1(1) by simp_all
    from halted_healthy [OF assms(1) this] obtain w2 where
      w2: "run_state (halted eng (k_id k)) w1 = (Inr (is_halted k), w2)" "view w2 = view w1" .
    show ?thesis
    proof (cases "is_halted k")
      case False
      obtain cfg hc where bc: "buildConfig (floatOutOfRange eng) 0 name ?spec = (cfg, hc)" by force
      let ?d = "\<lparr> k_id = [], k_cfg = cfg, k_host = hc, k_status = ''running'' \<rparr>"
      show ?thesis
      proof (intro exI conjI)
        show "run_state (Create eng b name opts) w = (Inr (handle b k), w2)"
          using False w1 w2 o by (simp add: Create_unfold [OF assms(3-5)] handle_id)
        show "view w2 = create_spec (view w) ?n ?d" "view w2 ?n = Some k" "wf_registry (view w2)"
          using False w1 w2 Some assms(2) by (simp_all add: create_spec_def)
        show "k_status ?d = ''running''" by simp
        show "buildConfig (floatOutOfRange eng) 0 name ?spec = (k_cfg ?d, k_host ?d)" by (simp add: bc)
      qed
    next
      case True
      have "wf_registry (view w2)" using assms(2) w1(1) w2(2) by simp
      from Destroy_healthy [OF assms(1) this] obtain w3 where
        w3: "run_state (Destroy eng name) w2 = (None, w3)" "view w3 = (view w2)(?n := None)" .
      have "wf_registry (view w3)" "view w3 ?n = None" using w3 w2 w1 assms(2) by (simp_all add: wf_registry_remove)
      from provision_healthy [OF assms(1) this assms(6) lb, of b] obtain now new w4 where
        "run_state (provision eng b name ?spec) w3 = (Inr (handle b new), w4)"
        "view w4 = (view w3)(?n \<mapsto> new)" "wf_registry (view w4)" "k_status new = ''running''"
        "buildConfig (floatOutOfRange eng) now name ?spec = (k_cfg new, k_host new)" .
      with True w1 w2 w3 o Some show ?thesis
        by (intro exI [of _ now] exI [of _ new] exI [of _ w4])
          (simp add: Create_unfold [OF assms(3-5)] create_spec_def handle_id)
    qed
  qed
qed

text \<open>
  C1: on a healthy daemon \<^verbatim>\<open>Create\<close> implements its contract. A live sandbox under the name is
  handed back untouched, whatever the options; a halted or absent one is replaced by a
  running container built from the options; no other container changes; and the handle
  returned is the one of the container that then stands under the name.
\<close>

theorem Create_refines:
  assumes "healthy eng view rts" "wf_registry (view w)"
    and "name \<noteq> []" "Spec_Validate (newSpec opts) = None" "sp_Image (newSpec opts) \<noteq> []"
    and "sp_Runtime (newSpec opts) \<in> rts" "\<forall>opt \<in> set opts. lib_option opt"
    and "\<And>k. view w (containerName name) = Some k \<Longrightarrow> managed k"
  shows "\<exists>now new k w'. run_state (Create eng b name opts) w = (Inr (handle b k), w') \<and>
    view w' = create_spec (view w) (containerName name) new \<and> view w' (containerName name) = Some k \<and>
    wf_registry (view w') \<and> k_status new = ''running'' \<and>
    buildConfig (floatOutOfRange eng) now name (newSpec opts) = (k_cfg new, k_host new)"
  by (rule Create_healthy [OF assms])

definition demo_backend :: Backend where
  "demo_backend = \<lparr> b_previews = None, b_registryAuth = [] \<rparr>"

lemma demo_spec:
  "Spec_Validate (newSpec [WithImage ''img'']) = None" "sp_Image (newSpec [WithImage ''img'']) = ''img''"
  "sp_Runtime (newSpec [WithImage ''img'']) = ''runsc''" "\<forall>opt \<in> set [WithImage ''img'']. lib_option opt"
proof -
  have "validateId ''1000'' = None" by (simp add: validateId_def parseUint_def digit_val_def)
  then have "validateUser ''1000:1000'' = None"
    using validateUser_None_iff [of "''1000:1000''"] by (metis append_Cons append_Nil)
  then show "Spec_Validate (newSpec [WithImage ''img'']) = None"
    by (simp add: Spec_Validate_None newSpec_def WithImage_def defaultSpec_def spec_defaults)
  show "sp_Image (newSpec [WithImage ''img'']) = ''img''" "sp_Runtime (newSpec [WithImage ''img'']) = ''runsc''"
    by (simp_all add: newSpec_def WithImage_def defaultSpec_def spec_defaults)
  show "\<forall>opt \<in> set [WithImage ''img'']. lib_option opt" by (simp add: lib_option.intros)
qed

theorem Create_refines_witness:
  "\<exists>k w'. run_state (Create mem_engine demo_backend ''box'' [WithImage ''img'']) [] = (Inr (handle demo_backend k), w') \<and>
     map_of w' = [containerName ''box'' \<mapsto> k] \<and> k_status k = ''running''"
proof -
  have wf: "wf_registry (map_of [])" by (simp add: wf_registry_def)
  have "sp_Runtime (newSpec [WithImage ''img'']) \<in> {''runc'', ''runsc''}" by (simp add: demo_spec)
  from Create_refines [OF healthy_mem_engine wf _ demo_spec(1) _ this demo_spec(4), of "''box''" demo_backend]
  show ?thesis by (auto simp: demo_spec(2) create_spec_def)
qed

text \<open>
  C2: containment is unconditional. Whatever the daemon answers and whatever options of
  the library are passed, every container \<^verbatim>\<open>Create\<close> asks for has a read-only root, no
  capability, no new privileges, no bind mount, bounded memory without swap, a process
  cap, no restart, only noexec scratch mounts and a numeric non-root user; it runs under
  the runtime of the spec, and without a network unless the caller asked for one.
\<close>

theorem Create_hardened:
  assumes "\<forall>opt \<in> set opts. lib_option opt"
    and "run_state (Create (traced eng) b name opts) (w, []) = (r, (w', calls))"
    and "CCreate cfg hc n \<in> set calls"
  shows "hardened cfg hc \<and> n = containerName name \<and> hc_Runtime hc = sp_Runtime (newSpec opts) \<and>
    (hc_NetworkMode hc = ''none'' \<or> sp_Egress (newSpec opts) = EgressUnrestricted)"
proof -
  let ?P = "\<lambda>c. \<forall>cfg hc n. c = CCreate cfg hc n \<longrightarrow> hardened cfg hc \<and> n = containerName name \<and>
    hc_Runtime hc = sp_Runtime (newSpec opts) \<and> (hc_NetworkMode hc = ''none'' \<or> sp_Egress (newSpec opts) = EgressUnrestricted)"
  have "emits ?P (Create (traced eng) b name opts)"
  proof (rule Create_emits)
    fix now cfg hc
    assume v: "Spec_Validate (newSpec opts) = None"
      and bc: "buildConfig (floatOutOfRange eng) now name (newSpec opts) = (cfg, hc)"
    then have "hardened cfg hc" using buildConfig_hardened newSpec_bounded_lib [OF assms(1)] by blast
    moreover have "hc_Runtime hc = sp_Runtime (newSpec opts)"
      "hc_NetworkMode hc = ''none'' \<or> sp_Egress (newSpec opts) = EgressUnrestricted"
      using bc v by (auto simp: buildConfig_def Spec_Validate_None)
    ultimately show "?P (CCreate cfg hc (containerName name))" by simp
  qed auto
  from emits_log [OF this assms(2)] assms(3) show ?thesis by (auto simp: list_all_iff)
qed

lemma mem_traced_create:
  "\<exists>r w' calls cfg hc. run_state (Create (traced mem_engine) demo_backend ''box'' [WithImage ''img'']) ([], []) = (r, (w', calls)) \<and>
     CCreate cfg hc (containerName ''box'') \<in> set calls"
proof -
  obtain cfg hc where bc: "buildConfig (\<lambda>_. 0) 0 ''box'' (newSpec [WithImage ''img'']) = (cfg, hc)" by force
  show ?thesis
    by (simp add: Create_unfold demo_spec Open_def provision_def assertRuntime_def ensureImage_def logged_def lift_def
        mem_engine_def mem_find_def bc Let_def)
qed

theorem Create_hardened_witness:
  "\<exists>r w' calls cfg hc. run_state (Create (traced mem_engine) demo_backend ''box'' [WithImage ''img'']) ([], []) = (r, (w', calls)) \<and>
     CCreate cfg hc (containerName ''box'') \<in> set calls \<and> hardened cfg hc"
  using mem_traced_create Create_hardened [OF demo_spec(4), of mem_engine demo_backend "''box''"] by blast

text \<open>
  C14: \<^verbatim>\<open>Create\<close> fails closed. On a host whose daemon never lists the requested runtime, no
  container is created or started, whatever else the daemon answers.
\<close>

theorem Create_fails_closed:
  assumes "\<And>s l s'. run_state (DaemonRuntimes eng) s = (Inr l, s') \<Longrightarrow> sp_Runtime (newSpec opts) \<notin> set l"
    and "run_state (Create (traced eng) b name opts) (w, []) = (r, (w', calls))"
  shows "CCreate cfg hc n \<notin> set calls \<and> CStart cid \<notin> set calls"
proof -
  let ?P = "\<lambda>c. (\<forall>cfg hc n. c \<noteq> CCreate cfg hc n) \<and> (\<forall>cid. c \<noteq> CStart cid)"
  have "returns (\<lambda>r. r \<noteq> None) (assertRuntime (traced eng) (sp_Runtime (newSpec opts)))"
    using assms(1) by (auto simp: returns_def assertRuntime_def logged_def split: sum.splits prod.splits)
  then have p: "emits ?P (provision (traced eng) b name (newSpec opts))"
    unfolding provision_def assertRuntime_def [of "traced eng"]
    by (rule emits_bind_returns [of _ "assertRuntime (traced eng) _", unfolded assertRuntime_def])
      (auto intro!: emits_intros emits_logged)
  have "emits ?P (Create (traced eng) b name opts)"
    unfolding Create_def Let_def Open_def halted_def Destroy_def
    by (auto intro!: emits_intros emits_logged p)
  from emits_log [OF this assms(2)] show ?thesis by (auto simp: list_all_iff)
qed

theorem Create_fails_closed_witness:
  "\<exists>r w' calls. run_state (Create (traced mem_engine) demo_backend ''box'' [WithImage ''img'', WithRuntime ''kata'']) ([], []) = (r, (w', calls)) \<and>
     (\<forall>cfg hc n cid. CCreate cfg hc n \<notin> set calls \<and> CStart cid \<notin> set calls)"
proof -
  obtain r w' calls where run: "run_state (Create (traced mem_engine) demo_backend ''box''
      [WithImage ''img'', WithRuntime ''kata'']) ([], []) = (r, (w', calls))" by (metis prod.exhaust)
  have "CCreate cfg hc n \<notin> set calls \<and> CStart cid \<notin> set calls" for cfg hc n cid
    by (rule Create_fails_closed [OF _ run]) (auto simp: mem_engine_def newSpec_def WithRuntime_def)
  with run show ?thesis by blast
qed

end
