(* ===== verification/Docker_Sandbox.thy ===== *)
theory Docker_Sandbox
  imports Docker_Registry
begin

text \<open>
  Package \<^verbatim>\<open>pkg/docker\<close>: the operations on one sandbox (\<^verbatim>\<open>sandbox.go\<close>, \<^verbatim>\<open>activity.go\<close>,
  \<^verbatim>\<open>process.go\<close>, \<^verbatim>\<open>dial.go\<close>). Every operation goes through one exec path; the lemmas show
  as whom and for how long it runs what, that output is capped without changing the
  result, and that killing a timed-out command ends. The goroutine of \<^verbatim>\<open>touch\<close> is run where
  it is spawned. The shell scripts are opaque text handed to the container.
\<close>

section \<open>Scripts and constants\<close>

definition groupScript :: string where
  "groupScript = ''f=\"$1\"; shift; echo $$ >\"$f\" 2>/dev/null; (exec \"$@\"); s=$?; rm -f \"$f\"; exit $s''"

definition killScript :: string where
  "killScript = ''read -r p <\"$1\" 2>/dev/null; case \"$p\" in \"\") exit 1;; esac; rm -f \"$1\"; case \"$p\" in *[!0-9]*|1) exit 0;; esac; kill -9 -\"$p\" 2>/dev/null || kill -9 \"$p\" 2>/dev/null; exit 0''"

definition nl :: string where "nl = [CHR 0x0A]"

definition startProcessScript :: string where
  "startProcessScript = nl
     @ ''dir=\"$1\"; shift'' @ nl
     @ ''if [ -r \"$dir/pid\" ] && kill -0 \"$(cat \"$dir/pid\")\" 2>/dev/null; then exit 0; fi'' @ nl
     @ ''mkdir -p \"$dir\" || exit 1'' @ nl
     @ ''\"$@\" </dev/null >\"$dir/log\" 2>&1 &'' @ nl
     @ ''echo $! > \"$dir/pid\"'' @ nl"

definition quote1 :: string where "quote1 = [CHR 0x27]"

definition relayScript :: string where
  "relayScript = concat (map (\<lambda>l. nl @ l)
     [''if command -v nc >/dev/null 2>&1; then exec nc 127.0.0.1 \"$1\"; fi'',
      ''if command -v python3 >/dev/null 2>&1; then exec python3 -c '' @ quote1,
      ''import socket, sys, threading'',
      ''sock = socket.create_connection((\"127.0.0.1\", int(sys.argv[1])))'',
      ''def upstream():'',
      ''    try:'',
      ''        while True:'',
      ''            chunk = sys.stdin.buffer.read1(65536)'',
      ''            if not chunk:'',
      ''                break'',
      ''            sock.sendall(chunk)'',
      ''    except Exception:'',
      ''        pass'',
      ''    try:'',
      ''        sock.shutdown(socket.SHUT_WR)'',
      ''    except Exception:'',
      ''        pass'',
      ''threading.Thread(target=upstream, daemon=True).start()'',
      ''try:'',
      ''    while True:'',
      ''        chunk = sock.recv(65536)'',
      ''        if not chunk:'',
      ''            break'',
      ''        sys.stdout.buffer.write(chunk)'',
      ''        sys.stdout.buffer.flush()'',
      ''except Exception:'',
      ''    pass'',
      quote1 @ '' \"$1\"; fi'',
      ''echo \"openblox: sandbox image has neither nc nor python3; cannot reach port $1\" >&2'',
      ''exit 127'']) @ nl"

definition exitLostWait :: int where "exitLostWait = 128"
definition exitKilled :: int where "exitKilled = 137"
definition stopSettle :: duration where "stopSettle = seconds 2"
definition killNoRecord :: int where "killNoRecord = 1"
definition killTimeout :: duration where "killTimeout = seconds 10"
definition killRecordWait :: duration where "killRecordWait = seconds 2"
definition killRetryInterval :: duration where "killRetryInterval = 50000000"
definition touchTimeout :: duration where "touchTimeout = seconds 10"
definition rootUser :: string where "rootUser = ''0:0''"
definition procDir :: string where "procDir = ''/tmp/.openblox/proc''"

section \<open>Capped output\<close>

record cappedBuffer =
  cb_buf :: string
  cb_limit :: nat
  cb_truncated :: bool

definition cb_Write :: "string \<Rightarrow> cappedBuffer \<Rightarrow> cappedBuffer" where
  "cb_Write p b =
     (let room = int (cb_limit b) - int (length (cb_buf b)) in
      if int (length p) > room
      then b\<lparr>cb_truncated := True, cb_buf := cb_buf b @ take (nat (max room 0)) p\<rparr>
      else b\<lparr>cb_buf := cb_buf b @ p\<rparr>)"

definition newCapped :: cappedBuffer where
  "newCapped = \<lparr> cb_buf = [], cb_limit = MaxOutputBytes, cb_truncated = False \<rparr>"

text \<open>\<^verbatim>\<open>stdcopy.StdCopy\<close> writes each frame to the buffer of its stream.\<close>

definition stdCopy :: "(stream \<times> string) list \<Rightarrow> cappedBuffer \<times> cappedBuffer" where
  "stdCopy frames =
     fold (\<lambda>(st, p) (out, err).
        case st of Stdout \<Rightarrow> (cb_Write p out, err) | Stderr \<Rightarrow> (out, cb_Write p err))
      frames (newCapped, newCapped)"

section \<open>Exec\<close>

definition resolveTimeout :: "dockerSandbox \<Rightarrow> duration \<Rightarrow> duration" where
  "resolveTimeout s requested =
     (let requested = (if requested \<le> 0 then ds_defaultTimeout s else requested)
      in if ds_maxTimeout s > 0 \<and> requested > ds_maxTimeout s then ds_maxTimeout s else requested)"

definition mayHaveDied :: "int \<Rightarrow> bool" where
  "mayHaveDied exitCode \<longleftrightarrow> exitCode = exitLostWait \<or> exitCode = exitKilled"

definition diedUnder :: "'w engine \<Rightarrow> dockerSandbox \<Rightarrow> ('w, bool \<times> bool) state" where
  "diedUnder eng s = do {
     stopped \<leftarrow> ContainerWait eng (ds_id s) stopSettle;
     if \<not> stopped then State_Monad.return (False, False)
     else do {
       r \<leftarrow> ContainerInspect eng (ds_id s);
       State_Monad.return (case r of
         Inl _ \<Rightarrow> (False, False)
       | Inr ins \<Rightarrow>
           (case in_State ins of
              None \<Rightarrow> (False, False)
            | Some st \<Rightarrow> if st_Running st then (False, False) else (True, st_OOMKilled st))) } }"

definition classifyAttach :: "'w engine \<Rightarrow> dockerSandbox \<Rightarrow> cerr \<Rightarrow> ('w, gerr) state" where
  "classifyAttach eng s attachErr = do {
     r \<leftarrow> ContainerInspect eng (ds_id s);
     State_Monad.return (case r of
       Inl e \<Rightarrow>
         if e = CNotFound then wrapErr ''%w: %q'' ErrNotFound
         else Errorf ''exec attach in %q: %w'' [dockerErr attachErr]
     | Inr ins \<Rightarrow>
         (case in_State ins of
            None \<Rightarrow> Errorf ''exec attach in %q: %w'' [dockerErr attachErr]
          | Some st \<Rightarrow>
              if \<not> st_Running st then wrapErr ''%w: %q'' ErrStopped
              else Errorf ''exec attach in %q: %w'' [dockerErr attachErr])) }"

definition execOptions :: "Command \<Rightarrow> string \<Rightarrow> ExecOptions" where
  "execOptions cmd user =
     \<lparr> eo_Cmd = c_Argv cmd, eo_Env = c_Env cmd, eo_WorkingDir = c_Dir cmd, eo_User = user,
       eo_AttachStdin = (c_Stdin cmd \<noteq> None) \<rparr>"

definition attach :: "'w engine \<Rightarrow> dockerSandbox \<Rightarrow> Command \<Rightarrow> string \<Rightarrow> ('w, string result) state" where
  "attach eng s cmd user = do {
     created \<leftarrow> ExecCreate eng (ds_id s) (execOptions cmd user);
     (case created of
        Inl e \<Rightarrow> State_Monad.return (Inl
          (if e = CConflict then wrapErr ''%w: %q'' ErrStopped
           else if e = CNotFound then wrapErr ''%w: %q'' ErrNotFound
           else Errorf ''exec create in %q: %w'' [dockerErr e]))
      | Inr execID \<Rightarrow> do {
          attached \<leftarrow> ExecAttach eng execID;
          (case attached of
             Some e \<Rightarrow> do { err \<leftarrow> classifyAttach eng s e; State_Monad.return (Inl err) }
           | None \<Rightarrow> State_Monad.return (Inr execID)) }) }"

definition resultOf :: "(stream \<times> string) list \<Rightarrow> int \<Rightarrow> Result" where
  "resultOf frames code =
     (case stdCopy frames of (out, err) \<Rightarrow>
        \<lparr> r_Stdout = cb_buf out, r_Stderr = cb_buf err, r_ExitCode = code,
          r_Truncated = (cb_truncated out \<or> cb_truncated err), r_Stopped = False, r_OOMKilled = False \<rparr>)"

text \<open>
  \<^verbatim>\<open>exec\<close>, with the kill of a timed-out command as an argument: \<^verbatim>\<open>killGroup\<close> itself runs its
  script through \<^verbatim>\<open>exec\<close> with an empty pid file, so the recursion is one level deep.
\<close>

definition exec_with ::
    "(string \<Rightarrow> ('w, unit) state) \<Rightarrow> 'w engine \<Rightarrow> dockerSandbox \<Rightarrow> Command \<Rightarrow> string \<Rightarrow> string
      \<Rightarrow> ('w, Result result) state" where
  "exec_with kill eng s cmd user pidFile =
     (case Command_Validate cmd of
        Some err \<Rightarrow> State_Monad.return (Inl err)
      | None \<Rightarrow>
          let timeout = resolveTimeout s (c_Timeout cmd);
              cmd = (if pidFile \<noteq> []
                     then cmd\<lparr>c_Argv := [''sh'', ''-c'', groupScript, ''sh'', pidFile] @ c_Argv cmd\<rparr>
                     else cmd)
          in do {
            att \<leftarrow> attach eng s cmd user;
            (case att of
               Inl err \<Rightarrow> State_Monad.return (Inl err)
             | Inr execID \<Rightarrow> do {
                 done \<leftarrow> ExecCopy eng execID (c_Stdin cmd) timeout;
                 (case done of
                    CopyFailed \<Rightarrow> State_Monad.return (Inl (wrapErr ''read exec output in %q: %w'' (LibraryErr ''stdcopy'')))
                  | DeadlineDone \<Rightarrow> do {
                      _ \<leftarrow> (if pidFile \<noteq> [] then kill pidFile else State_Monad.return ());
                      State_Monad.return (Inl (wrapErr ''%w: command in %q exceeded %s'' ErrTimeout)) }
                  | CancelDone \<Rightarrow> do {
                      _ \<leftarrow> (if pidFile \<noteq> [] then kill pidFile else State_Monad.return ());
                      State_Monad.return (Inl (wrapErr ''command in %q: %w'' ContextCanceled)) }
                  | CopyDone frames \<Rightarrow> do {
                      ins \<leftarrow> ExecInspect eng execID;
                      (case ins of
                         Inl e \<Rightarrow> State_Monad.return (Inl (Errorf ''inspect exec in %q: %w'' [dockerErr e]))
                       | Inr code \<Rightarrow>
                           if mayHaveDied code
                           then do {
                             died \<leftarrow> diedUnder eng s;
                             State_Monad.return (Inr ((resultOf frames code)\<lparr>r_Stopped := fst died, r_OOMKilled := snd died\<rparr>)) }
                           else State_Monad.return (Inr (resultOf frames code))) }) }) })"

definition noKill :: "string \<Rightarrow> ('w, unit) state" where
  "noKill pidFile = State_Monad.return ()"

definition killCommand :: "string \<Rightarrow> Command" where
  "killCommand pidFile =
     \<lparr> c_Argv = [''sh'', ''-c'', killScript, ''sh'', pidFile], c_Env = [], c_Dir = [], c_Stdin = None,
       c_Timeout = killTimeout \<rparr>"

text \<open>The loop of \<^verbatim>\<open>killGroup\<close>; the result tells whether it ended within the fuel.\<close>

fun killLoop :: "nat \<Rightarrow> 'w engine \<Rightarrow> dockerSandbox \<Rightarrow> string \<Rightarrow> instant \<Rightarrow> ('w, bool) state" where
  "killLoop 0 eng s pidFile deadline = State_Monad.return False"
| "killLoop (Suc fuel) eng s pidFile deadline = do {
     res \<leftarrow> exec_with noKill eng s (killCommand pidFile) [] [];
     (case res of
        Inl _ \<Rightarrow> State_Monad.return True
      | Inr r \<Rightarrow>
          if r_ExitCode r \<noteq> killNoRecord then State_Monad.return True
          else do {
            now \<leftarrow> timeNow eng;
            if now > deadline then State_Monad.return True
            else do {
              elapsed \<leftarrow> timeAfter eng killRetryInterval;
              if elapsed then killLoop fuel eng s pidFile deadline else State_Monad.return True } }) }"

text \<open>Enough iterations to pass the deadline, one pause apart; see \<open>killLoop_ends\<close>.\<close>

definition killFuel :: nat where "killFuel = 42"

definition killGroup :: "'w engine \<Rightarrow> dockerSandbox \<Rightarrow> string \<Rightarrow> ('w, unit) state" where
  "killGroup eng s pidFile = do {
     now \<leftarrow> timeNow eng;
     _ \<leftarrow> killLoop killFuel eng s pidFile (now + killRecordWait);
     State_Monad.return () }"

definition exec :: "'w engine \<Rightarrow> dockerSandbox \<Rightarrow> Command \<Rightarrow> string \<Rightarrow> string \<Rightarrow> ('w, Result result) state" where
  "exec eng s cmd user pidFile = exec_with (killGroup eng s) eng s cmd user pidFile"

section \<open>Activity (activity.go)\<close>

definition touchCommand :: "instant \<Rightarrow> Command" where
  "touchCommand now =
     \<lparr> c_Argv = [''sh'', ''-c'', ''echo \"$0\" > '' @ lastUsedPath, formatRFC3339Nano now], c_Env = [], c_Dir = [],
       c_Stdin = None, c_Timeout = touchTimeout \<rparr>"

definition touch :: "'w engine \<Rightarrow> dockerSandbox \<Rightarrow> ('w, unit) state" where
  "touch eng s = do {
     now \<leftarrow> timeNow eng;
     _ \<leftarrow> exec eng s (touchCommand now) rootUser [];
     State_Monad.return () }"

definition plain :: "string list \<Rightarrow> Command" where
  "plain argv = \<lparr> c_Argv = argv, c_Env = [], c_Dir = [], c_Stdin = None, c_Timeout = 0 \<rparr>"

definition lastUsed :: "'w engine \<Rightarrow> dockerSandbox \<Rightarrow> ('w, instant) state" where
  "lastUsed eng s = do {
     r \<leftarrow> exec eng s (plain [''cat'', lastUsedPath]) [] [];
     State_Monad.return (case r of
       Inl _ \<Rightarrow> zero_time
     | Inr res \<Rightarrow>
         if r_ExitCode res \<noteq> 0 then zero_time
         else case parseRFC3339Nano (trimSpace (r_Stdout res)) of None \<Rightarrow> zero_time | Some t \<Rightarrow> t) }"

section \<open>The operations of a sandbox\<close>

text \<open>A failed read leaves the eight bytes zero: its error is dropped.\<close>

definition newPIDFile :: "'w engine \<Rightarrow> ('w, string) state" where
  "newPIDFile eng = do {
     b \<leftarrow> randRead eng 8;
     State_Monad.return (''/tmp/.openblox-exec-'' @
       hexEncode (case b of None \<Rightarrow> replicate 8 CHR 0x00 | Some bs \<Rightarrow> bs)) }"

definition Exec :: "'w engine \<Rightarrow> dockerSandbox \<Rightarrow> Command \<Rightarrow> ('w, Result result) state" where
  "Exec eng s cmd = do {
     pidFile \<leftarrow> newPIDFile eng;
     res \<leftarrow> exec eng s cmd [] pidFile;
     _ \<leftarrow> touch eng s;
     State_Monad.return res }"

definition Stop :: "'w engine \<Rightarrow> dockerSandbox \<Rightarrow> ('w, gerr option) state" where
  "Stop eng s = do {
     err \<leftarrow> ContainerStop eng (ds_id s);
     State_Monad.return (map_option (\<lambda>e. Errorf ''stop sandbox %q: %w'' [dockerErr e]) err) }"

text \<open>\<^verbatim>\<open>run\<close>: for openblox's own helpers a non-zero exit is an error.\<close>

definition run_argv :: "'w engine \<Rightarrow> dockerSandbox \<Rightarrow> string \<Rightarrow> string list \<Rightarrow> ('w, gerr option) state" where
  "run_argv eng s what argv = do {
     r \<leftarrow> Exec eng s (plain argv);
     State_Monad.return (case r of
       Inl err \<Rightarrow> Some (Errorf ''%s in %q: %w'' [err])
     | Inr res \<Rightarrow> if r_ExitCode res \<noteq> 0 then Some (errorsNew ''%s in %q: exit %d: %s'') else None) }"

text \<open>\<^verbatim>\<open>%04o\<close> of the nine permission bits.\<close>

definition octal4 :: "nat \<Rightarrow> string" where
  "octal4 m = map digit [0, m div 64 mod 8, m div 8 mod 8, m mod 8]"

definition WriteFile :: "'w engine \<Rightarrow> dockerSandbox \<Rightarrow> string \<Rightarrow> nat \<Rightarrow> string \<Rightarrow> ('w, gerr option) state" where
  "WriteFile eng s dest mode src =
     (if \<not> isAbs dest then State_Monad.return (Some (wrapErr ''%w: path %q is not absolute'' ErrInvalid))
      else do {
        d \<leftarrow> run_argv eng s ''create directory'' [''mkdir'', ''-p'', path_dir dest];
        (case d of
           Some err \<Rightarrow> State_Monad.return (Some err)
         | None \<Rightarrow> do {
             r \<leftarrow> Exec eng s ((plain [''sh'', ''-c'', ''cat > \"$0\"'', dest])\<lparr>c_Stdin := Some src\<rparr>);
             (case r of
                Inl err \<Rightarrow> State_Monad.return (Some (Errorf ''write %q in %q: %w'' [err]))
              | Inr res \<Rightarrow>
                  if r_ExitCode res \<noteq> 0
                  then State_Monad.return (Some (errorsNew ''write %q in %q: exit %d: %s''))
                  else run_argv eng s ''set mode'' [''chmod'', octal4 mode, dest]) }) })"

text \<open>The reader \<^verbatim>\<open>ReadFile\<close> returns is the attached stream of the exec it names.\<close>

definition ReadFile :: "'w engine \<Rightarrow> dockerSandbox \<Rightarrow> string \<Rightarrow> ('w, string result) state" where
  "ReadFile eng s src =
     (if \<not> isAbs src then State_Monad.return (Inl (wrapErr ''%w: path %q is not absolute'' ErrInvalid))
      else do {
        probe \<leftarrow> Exec eng s (plain [''test'', ''-f'', src]);
        (case probe of
           Inl err \<Rightarrow> State_Monad.return (Inl (Errorf ''stat %q in %q: %w'' [err]))
         | Inr res \<Rightarrow>
             if r_ExitCode res \<noteq> 0
             then State_Monad.return (Inl (wrapErr ''%w: %q in sandbox %q'' ErrNotFound))
             else attach eng s (plain [''cat'', ''--'', src]) []) })"

text \<open>
  The loop of \<^verbatim>\<open>validateProcessName\<close> over the runes: all accepted ones are single bytes, and
  every byte of a longer encoding is refused.
\<close>

definition name_char :: "char \<Rightarrow> bool" where
  "name_char c \<longleftrightarrow> is_alnum c \<or> c = CHR ''-'' \<or> c = CHR ''_'' \<or> c = CHR ''.''"

definition validateProcessName :: "string \<Rightarrow> gerr option" where
  "validateProcessName name =
     (if name = [] then Some (wrapErr ''%w: process name is empty'' ErrInvalid)
      else if hasPrefix name ''.'' then Some (wrapErr ''%w: process name %q starts with a dot'' ErrInvalid)
      else case find (\<lambda>c. \<not> name_char c) name of
             Some c \<Rightarrow> Some (wrapErr ''%w: process name %q contains %q; use letters, digits, dot, dash or underscore'' ErrInvalid)
           | None \<Rightarrow> None)"

definition StartProcess :: "'w engine \<Rightarrow> dockerSandbox \<Rightarrow> string \<Rightarrow> Command \<Rightarrow> ('w, gerr option) state" where
  "StartProcess eng s name cmd =
     (case validateProcessName name of
        Some err \<Rightarrow> State_Monad.return (Some err)
      | None \<Rightarrow>
          (case Command_Validate cmd of
             Some err \<Rightarrow> State_Monad.return (Some err)
           | None \<Rightarrow> do {
               r \<leftarrow> Exec eng s
                 \<lparr> c_Argv = [''sh'', ''-c'', startProcessScript, ''openblox'', path_join [procDir, name]] @ c_Argv cmd,
                   c_Env = c_Env cmd, c_Dir = c_Dir cmd, c_Stdin = None, c_Timeout = 0 \<rparr>;
               State_Monad.return (case r of
                 Inl err \<Rightarrow> Some (Errorf ''start process %q in %q: %w'' [err])
               | Inr res \<Rightarrow>
                   if r_ExitCode res \<noteq> 0 then Some (errorsNew ''start process %q in %q: exit %d: %s'')
                   else None) }))"

section \<open>Dialling (dial.go)\<close>

text \<open>A connection is the exec it is carried over, with its remote address.\<close>

record execConn =
  ec_exec :: string
  ec_sandbox :: string
  ec_port :: int

definition dialPortWith :: "'w engine \<Rightarrow> dockerSandbox \<Rightarrow> int \<Rightarrow> string \<Rightarrow> ('w, execConn result) state" where
  "dialPortWith eng s port script = do {
     r \<leftarrow> attach eng s ((plain [''sh'', ''-c'', script, ''openblox'', itoa port])\<lparr>c_Stdin := Some []\<rparr>) [];
     State_Monad.return (case r of
       Inl err \<Rightarrow> Inl (Errorf ''dial port %d in %q: %w'' [err])
     | Inr execID \<Rightarrow> Inr \<lparr> ec_exec = execID, ec_sandbox = i_Name (ds_info s), ec_port = port \<rparr>) }"

definition dialPort :: "'w engine \<Rightarrow> dockerSandbox \<Rightarrow> int \<Rightarrow> ('w, execConn result) state" where
  "dialPort eng s port = dialPortWith eng s port relayScript"

definition DialPort :: "'w engine \<Rightarrow> Backend \<Rightarrow> string \<Rightarrow> int \<Rightarrow> ('w, execConn result) state" where
  "DialPort eng b name port =
     (if port < 1 \<or> port > 65535
      then State_Monad.return (Inl (wrapErr ''%w: port %d is out of range'' ErrInvalid))
      else do {
        r \<leftarrow> Open eng b name;
        (case r of
           Inl err \<Rightarrow> State_Monad.return (Inl err)
         | Inr sb \<Rightarrow> dialPort eng sb port) })"

definition RemoteAddr :: "execConn \<Rightarrow> string" where
  "RemoteAddr c = ec_sandbox c @ '':'' @ itoa (ec_port c)"

section \<open>Output\<close>

text \<open>The buffer after \<open>acc\<close> has been written to it, in whatever pieces.\<close>

definition capped :: "nat \<Rightarrow> string \<Rightarrow> cappedBuffer" where
  "capped limit acc = \<lparr> cb_buf = take limit acc, cb_limit = limit, cb_truncated = (limit < length acc) \<rparr>"

lemma newCapped_capped: "newCapped = capped MaxOutputBytes []"
  by (simp add: newCapped_def capped_def)

lemma cb_Write_capped: "cb_Write p (capped L acc) = capped L (acc @ p)"
proof (cases "length acc \<le> L")
  case True
  then have "nat (int L - int (length acc)) = L - length acc" by simp
  with True show ?thesis by (auto simp: cb_Write_def capped_def Let_def)
qed (auto simp: cb_Write_def capped_def Let_def)

definition streamOf :: "stream \<Rightarrow> (stream \<times> string) list \<Rightarrow> string" where
  "streamOf st frames = concat (map snd (filter (\<lambda>f. fst f = st) frames))"

lemma stdCopy_streams:
  "stdCopy frames = (capped MaxOutputBytes (streamOf Stdout frames), capped MaxOutputBytes (streamOf Stderr frames))"
proof -
  have "fold (\<lambda>(st, p) (out, err). case st of Stdout \<Rightarrow> (cb_Write p out, err) | Stderr \<Rightarrow> (out, cb_Write p err))
      frames (capped L a, capped L b) = (capped L (a @ streamOf Stdout frames), capped L (b @ streamOf Stderr frames))" for L a b
    by (induction frames arbitrary: a b) (auto simp: streamOf_def cb_Write_capped split: stream.splits)
  then show ?thesis by (simp add: stdCopy_def newCapped_capped)
qed

section \<open>Which commands run, and as whom\<close>

lemma diedUnder_emits [emits_intros]:
  "(\<And>c. query c \<Longrightarrow> P c) \<Longrightarrow> emits P (diedUnder (traced eng) s)"
  unfolding diedUnder_def by (auto intro!: emits_intros emits_query)

lemma classifyAttach_emits [emits_intros]:
  "(\<And>c. query c \<Longrightarrow> P c) \<Longrightarrow> emits P (classifyAttach (traced eng) s e)"
  unfolding classifyAttach_def by (auto intro!: emits_intros emits_query)

lemma attach_emits:
  assumes "\<And>c. query c \<Longrightarrow> P c" "P (CExecCreate (ds_id s) (execOptions cmd user))"
  shows "emits P (attach (traced eng) s cmd user)"
  unfolding attach_def
  by (auto intro!: emits_intros emits_query emits_logged [of P, OF assms(2)] assms(1))

definition wrapped :: "string \<Rightarrow> Command \<Rightarrow> Command" where
  "wrapped pidFile cmd =
     (if pidFile \<noteq> [] then cmd\<lparr>c_Argv := [''sh'', ''-c'', groupScript, ''sh'', pidFile] @ c_Argv cmd\<rparr> else cmd)"

lemma exec_with_wrapped:
  "exec_with kill eng s cmd user pidFile =
     (case Command_Validate cmd of
        Some err \<Rightarrow> State_Monad.return (Inl err)
      | None \<Rightarrow> do {
          att \<leftarrow> attach eng s (wrapped pidFile cmd) user;
          (case att of
             Inl err \<Rightarrow> State_Monad.return (Inl err)
           | Inr execID \<Rightarrow> do {
               done \<leftarrow> ExecCopy eng execID (c_Stdin cmd) (resolveTimeout s (c_Timeout cmd));
               (case done of
                  CopyFailed \<Rightarrow> State_Monad.return (Inl (wrapErr ''read exec output in %q: %w'' (LibraryErr ''stdcopy'')))
                | DeadlineDone \<Rightarrow> do {
                    _ \<leftarrow> (if pidFile \<noteq> [] then kill pidFile else State_Monad.return ());
                    State_Monad.return (Inl (wrapErr ''%w: command in %q exceeded %s'' ErrTimeout)) }
                | CancelDone \<Rightarrow> do {
                    _ \<leftarrow> (if pidFile \<noteq> [] then kill pidFile else State_Monad.return ());
                    State_Monad.return (Inl (wrapErr ''command in %q: %w'' ContextCanceled)) }
                | CopyDone frames \<Rightarrow> do {
                    ins \<leftarrow> ExecInspect eng execID;
                    (case ins of
                       Inl e \<Rightarrow> State_Monad.return (Inl (Errorf ''inspect exec in %q: %w'' [dockerErr e]))
                     | Inr code \<Rightarrow>
                         if mayHaveDied code
                         then do {
                           died \<leftarrow> diedUnder eng s;
                           State_Monad.return (Inr ((resultOf frames code)\<lparr>r_Stopped := fst died, r_OOMKilled := snd died\<rparr>)) }
                         else State_Monad.return (Inr (resultOf frames code))) }) }) })"
proof -
  have "c_Stdin (wrapped pidFile cmd) = c_Stdin cmd" by (simp add: wrapped_def)
  then show ?thesis unfolding exec_with_def Let_def wrapped_def [symmetric] by (simp cong: option.case_cong)
qed

lemma emits_case_copied [emits_intros]:
  "(\<And>fs. x = CopyDone fs \<Longrightarrow> emits P (f fs)) \<Longrightarrow> (x = CopyFailed \<Longrightarrow> emits P a) \<Longrightarrow>
   (x = DeadlineDone \<Longrightarrow> emits P b) \<Longrightarrow> (x = CancelDone \<Longrightarrow> emits P c) \<Longrightarrow>
     emits P (case x of CopyDone fs \<Rightarrow> f fs | CopyFailed \<Rightarrow> a | DeadlineDone \<Rightarrow> b | CancelDone \<Rightarrow> c)"
  by (cases x) simp_all

lemma exec_with_emits:
  assumes "\<And>c. query c \<Longrightarrow> P c" "P (CExecCreate (ds_id s) (execOptions (wrapped pidFile cmd) user))"
    and "\<And>e. P (CExecCopy e (resolveTimeout s (c_Timeout cmd)))"
    and "pidFile \<noteq> [] \<Longrightarrow> emits P (kill pidFile)"
  shows "emits P (exec_with kill (traced eng) s cmd user pidFile)"
proof -
  have k: "emits P (if pidFile \<noteq> [] then kill pidFile else State_Monad.return ())"
    using assms(4) by (simp add: emits_return)
  show ?thesis
    unfolding exec_with_wrapped
    by (intro emits_intros attach_emits k)
      (auto simp: assms intro: emits_query [of "CExecInspect _"] emits_logged)
qed

lemma wrapped_Nil [simp]: "wrapped [] cmd = cmd"
  by (simp add: wrapped_def)

lemma killLoop_emits:
  assumes "\<And>c. query c \<Longrightarrow> P c" "P (CExecCreate (ds_id s) (execOptions (killCommand pidFile) []))"
    and "\<And>e. P (CExecCopy e (resolveTimeout s killTimeout))"
  shows "emits P (killLoop fuel (traced eng) s pidFile deadline)"
proof (induction fuel)
  case (Suc fuel)
  have "emits P (exec_with noKill (traced eng) s (killCommand pidFile) [] [])"
    by (rule exec_with_emits) (use assms in \<open>simp_all add: killCommand_def\<close>)
  with Suc show ?case by (auto intro!: emits_intros)
qed (simp add: emits_intros)

lemma killGroup_emits:
  assumes "\<And>c. query c \<Longrightarrow> P c" "P (CExecCreate (ds_id s) (execOptions (killCommand pidFile) []))"
    and "\<And>e. P (CExecCopy e (resolveTimeout s killTimeout))"
  shows "emits P (killGroup (traced eng) s pidFile)"
  unfolding killGroup_def by (auto intro!: emits_intros killLoop_emits assms)

text \<open>
  The execs an operation may ask for: the command behind the wrapper, the kill script, and
  the one privileged exec, whose only variable part is the time it writes.
\<close>

definition exec_shape :: "Command \<Rightarrow> ExecOptions \<Rightarrow> bool" where
  "exec_shape cmd e \<longleftrightarrow>
     (\<exists>pidFile. pidFile \<noteq> [] \<and> e = execOptions (wrapped pidFile cmd) []) \<or>
     (\<exists>pidFile. e = execOptions (killCommand pidFile) []) \<or>
     (\<exists>now. e = execOptions (touchCommand now) rootUser)"

fun sandbox_call :: "dockerSandbox \<Rightarrow> (ExecOptions \<Rightarrow> bool) \<Rightarrow> call \<Rightarrow> bool" where
  "sandbox_call s E (CCreate _ _ _) = False"
| "sandbox_call s E (CExecCreate i e) = (i = ds_id s \<and> E e)"
| "sandbox_call s E (CExecCopy _ t) = (\<exists>req. t = resolveTimeout s req)"
| "sandbox_call s E c = query c"

lemma query_sandbox_call: "query c \<Longrightarrow> sandbox_call s E c"
  by (cases c) simp_all

lemma Exec_emits:
  assumes "\<And>e. exec_shape cmd e \<Longrightarrow> E e"
  shows "emits (sandbox_call s E) (Exec (traced eng) s cmd)"
proof -
  have E: "E (execOptions (killCommand pf) [])" "E (execOptions (touchCommand now) rootUser)"
    "pf \<noteq> [] \<Longrightarrow> E (execOptions (wrapped pf cmd) [])" for pf now
    using assms unfolding exec_shape_def by blast+
  have kill: "emits (sandbox_call s E) (killGroup (traced eng) s pf)" for pf
    by (rule killGroup_emits) (auto simp: query_sandbox_call E)
  have "emits (sandbox_call s E) (exec (traced eng) s (touchCommand now) rootUser [])" for now
    unfolding exec_def by (rule exec_with_emits) (auto simp: query_sandbox_call E)
  then have touch: "emits (sandbox_call s E) (touch (traced eng) s)"
    unfolding touch_def by (auto intro!: emits_intros)
  have "emits (sandbox_call s E) (exec (traced eng) s cmd [] (''/tmp/.openblox-exec-'' @ x))" for x
    unfolding exec_def by (rule exec_with_emits) (auto simp: query_sandbox_call E kill)
  then show ?thesis
    unfolding Exec_def newPIDFile_def by (auto intro!: emits_intros touch)
qed

text \<open>The user of an exec is the sandbox's own, except for the bookkeeping of \<^verbatim>\<open>touch\<close>.\<close>

definition unprivileged :: "ExecOptions \<Rightarrow> bool" where
  "unprivileged e \<longleftrightarrow> eo_User e = [] \<or> (\<exists>now. e = execOptions (touchCommand now) rootUser)"

lemma exec_shape_unprivileged: "exec_shape cmd e \<Longrightarrow> unprivileged e"
  by (auto simp: exec_shape_def unprivileged_def execOptions_def)

lemma Exec_unprivileged [emits_intros]: "emits (sandbox_call s unprivileged) (Exec (traced eng) s cmd)"
  by (rule Exec_emits) (rule exec_shape_unprivileged)

lemma attach_unprivileged [emits_intros]: "emits (sandbox_call s unprivileged) (attach (traced eng) s cmd [])"
  by (rule attach_emits) (auto simp: query_sandbox_call unprivileged_def execOptions_def)

lemma run_argv_unprivileged [emits_intros]: "emits (sandbox_call s unprivileged) (run_argv (traced eng) s what argv)"
  unfolding run_argv_def by (intro emits_intros)

lemma exec_unprivileged: "emits (sandbox_call s unprivileged) (exec (traced eng) s cmd [] [])"
  unfolding exec_def
  by (rule exec_with_emits) (auto simp: query_sandbox_call unprivileged_def execOptions_def)

fun confined :: "dockerSandbox \<Rightarrow> call \<Rightarrow> bool" where
  "confined s (CCreate _ _ _) = False"
| "confined s (CExecCreate i e) = (i = ds_id s \<and> unprivileged e)"
| "confined s (CExecCopy _ t) = (0 < t \<and> t \<le> ds_maxTimeout s)"
| "confined s c = query c"

lemma sandbox_call_confined:
  "0 < ds_defaultTimeout s \<Longrightarrow> 0 < ds_maxTimeout s \<Longrightarrow> sandbox_call s unprivileged c \<Longrightarrow> confined s c"
  by (cases c) (auto simp: resolveTimeout_def Let_def)

lemma emits_confined:
  "0 < ds_defaultTimeout s \<Longrightarrow> 0 < ds_maxTimeout s \<Longrightarrow> emits (sandbox_call s unprivileged) m \<Longrightarrow> emits (confined s) m"
  by (erule emits_weaken) (rule sandbox_call_confined)

section \<open>Calls that are certain to be made\<close>

definition records :: "call \<Rightarrow> ('w \<times> call list, 'a) state \<Rightarrow> bool" where
  "records c m \<longleftrightarrow> (\<forall>s. c \<in> set (snd (snd (run_state m s))))"

lemma records_logged: "records c (logged c m)"
  by (auto simp: records_def logged_def split: prod.splits)

lemma records_first:
  assumes "records c m" "\<And>a. emits (\<lambda>_. True) (f a)"
  shows "records c (State_Monad.bind m f)"
  unfolding records_def
proof
  fix s
  obtain a s' where m: "run_state m s = (a, s')" by (metis prod.exhaust)
  have "c \<in> set (snd s')" using assms(1) m unfolding records_def by (metis snd_conv)
  moreover have "log_grows (\<lambda>_. True) s' (snd (run_state (f a) s'))"
    using assms(2) unfolding emits_def keeps_def by blast
  ultimately show "c \<in> set (snd (snd (run_state (State_Monad.bind m f) s)))"
    by (auto simp: m log_grows_def)
qed

lemma records_then: "(\<And>a. records c (f a)) \<Longrightarrow> records c (State_Monad.bind m f)"
  unfolding records_def by (auto split: prod.splits)

lemma attach_records:
  "records (CExecCreate (ds_id s) (execOptions cmd user)) (attach (traced eng) s cmd user)"
  unfolding attach_def traced_sel
  by (rule records_first [OF records_logged]) (auto intro!: emits_intros emits_query)

lemma killGroup_records:
  "records (CExecCreate (ds_id s) (execOptions (killCommand pidFile) [])) (killGroup (traced eng) s pidFile)"
proof -
  let ?c = "CExecCreate (ds_id s) (execOptions (killCommand pidFile) [])"
  have "Command_Validate (killCommand pidFile) = None"
    by (simp add: Command_Validate_None killCommand_def killTimeout_def seconds_def)
  then have "records ?c (exec_with noKill (traced eng) s (killCommand pidFile) [] [])"
    unfolding exec_with_wrapped
    by (auto intro!: records_first [OF attach_records] emits_intros emits_logged)
  then have "records ?c (killLoop (Suc 41) (traced eng) s pidFile deadline)" for deadline
    unfolding killLoop.simps by (rule records_first) (auto intro!: emits_intros killLoop_emits)
  then show ?thesis
    unfolding killGroup_def
    by (intro records_then records_first) (auto simp: killFuel_def emits_return)
qed

lemma exec_records:
  assumes "Command_Validate cmd = None"
  shows "records (CExecCreate (ds_id s) (execOptions (wrapped pidFile cmd) user)) (exec (traced eng) s cmd user pidFile)"
proof -
  have k: "emits (\<lambda>_. True) (if pidFile \<noteq> [] then killGroup (traced eng) s pidFile else State_Monad.return ())"
    by (simp add: emits_return killGroup_emits)
  show ?thesis
    unfolding exec_def exec_with_wrapped assms option.case
    by (rule records_first [OF attach_records]) (intro emits_intros k, auto intro: emits_logged emits_intros)
qed

lemma touch_emits: "emits (\<lambda>_. True) (touch (traced eng) s)"
  unfolding touch_def exec_def by (intro emits_intros exec_with_emits) (auto intro: emits_intros)

lemma Exec_records:
  assumes "Command_Validate cmd = None" "run_state (Exec (traced eng) s cmd) st = (r, (w', calls))"
  obtains pidFile where "pidFile \<noteq> []" "CExecCreate (ds_id s) (execOptions (wrapped pidFile cmd) []) \<in> set calls"
proof -
  obtain pf st1 where pf: "run_state (newPIDFile (traced eng)) st = (pf, st1)" by (metis prod.exhaust)
  then have ne: "pf \<noteq> []" by (auto simp: newPIDFile_def split: prod.splits)
  have "records (CExecCreate (ds_id s) (execOptions (wrapped pf cmd) []))
      (State_Monad.bind (exec (traced eng) s cmd [] pf) (\<lambda>res. State_Monad.bind (touch (traced eng) s) (\<lambda>_. State_Monad.return res)))"
    by (rule records_first [OF exec_records [OF assms(1)]]) (intro emits_intros touch_emits)
  with assms(2) pf have "CExecCreate (ds_id s) (execOptions (wrapped pf cmd) []) \<in> set calls"
    unfolding records_def Exec_def run_bind by (metis prod.case snd_conv)
  with that ne show thesis by blast
qed

lemma attach_not_interrupted:
  "run_state (attach eng s cmd user) w = (Inl e, w') \<Longrightarrow> \<not> errIs e ErrTimeout \<and> \<not> errIs e ContextCanceled"
  by (auto simp: attach_def classifyAttach_def split: prod.splits sum.splits option.splits if_splits)

text \<open>An interrupted exec has run its kill.\<close>

lemma exec_interrupted_kills:
  assumes "run_state (exec (traced eng) s cmd user pidFile) st = (Inl err, st')"
    and "errIs err ErrTimeout \<or> errIs err ContextCanceled" "pidFile \<noteq> []"
  shows "CExecCreate (ds_id s) (execOptions (killCommand pidFile) []) \<in> set (snd st')"
proof -
  have k: "CExecCreate (ds_id s) (execOptions (killCommand pidFile) []) \<in> set (snd st2)"
    if "run_state (killGroup (traced eng) s pidFile) st1 = (u, st2)" for st1 u st2
    using killGroup_records [of s pidFile eng] that unfolding records_def by (metis snd_conv)
  have v: "Command_Validate cmd = None"
    using assms(1,2) by (auto simp: exec_def exec_with_def split: option.splits dest: Command_Validate_Some)
  obtain att st1 where att: "run_state (attach (traced eng) s (wrapped pidFile cmd) user) st = (att, st1)"
    by (metis prod.exhaust)
  show ?thesis
  proof (cases att)
    case (Inl e)
    with att attach_not_interrupted [of "traced eng" s "wrapped pidFile cmd" user st e st1] assms show ?thesis
      by (simp add: exec_def exec_with_wrapped v)
  next
    case (Inr i)
    obtain d st2 where d: "run_state (logged (CExecCopy i (resolveTimeout s (c_Timeout cmd)))
        (ExecCopy eng i (c_Stdin cmd) (resolveTimeout s (c_Timeout cmd)))) st1 = (d, st2)" by (metis prod.exhaust)
    show ?thesis
    proof (cases d)
      case (CopyDone fs)
      with att Inr d assms show ?thesis
        by (auto simp: exec_def exec_with_wrapped v split: prod.splits sum.splits if_splits)
    qed (use att Inr d assms k in \<open>auto simp: exec_def exec_with_wrapped v split: prod.splits\<close>)
  qed
qed

lemma validName_join:
  assumes "name \<noteq> []" "hd name \<noteq> CHR ''.''" "\<forall>c \<in> set name. name_char c"
  shows "path_join [procDir, name] = procDir @ ''/'' @ name \<and> CHR ''/'' \<notin> set name"
proof -
  have ns: "CHR ''/'' \<notin> set name" using assms(3) by (auto simp: name_char_def is_alnum_def)
  have nd: "name \<noteq> ''.''" "name \<noteq> ''..''" using assms(2) by auto
  from assms(1) ns nd show ?thesis
    by (simp add: path_join_def path_clean_def procDir_def split_on_notin isAbs_def Let_def)
qed

section \<open>The kill loop ends\<close>

text \<open>
  What the loop relies on of clocks and timers: no call turns the clock back, \<^verbatim>\<open>time.Now\<close>
  reads it, and a pause that elapsed has lasted.
\<close>

definition ticks :: "('w \<Rightarrow> instant) \<Rightarrow> ('w, 'a) state \<Rightarrow> bool" where
  "ticks clock m \<longleftrightarrow> keeps (\<lambda>w w'. clock w \<le> clock w') m"

definition clock_laws :: "'w engine \<Rightarrow> ('w \<Rightarrow> instant) \<Rightarrow> bool" where
  "clock_laws eng clock \<longleftrightarrow>
     (\<forall>n. ticks clock (ContainerInspect eng n)) \<and> (\<forall>i e. ticks clock (ExecCreate eng i e)) \<and>
     (\<forall>i. ticks clock (ExecAttach eng i)) \<and> (\<forall>i st t. ticks clock (ExecCopy eng i st t)) \<and>
     (\<forall>i. ticks clock (ExecInspect eng i)) \<and> (\<forall>i t. ticks clock (ContainerWait eng i t)) \<and>
     (\<forall>w t w'. run_state (timeNow eng) w = (t, w') \<longrightarrow> clock w \<le> t \<and> t \<le> clock w') \<and>
     (\<forall>d w w'. run_state (timeAfter eng d) w = (True, w') \<longrightarrow> clock w + d \<le> clock w')"

named_theorems ticks_intros \<open>programs that do not turn the clock back\<close>

lemma ticks_return [ticks_intros]: "ticks clock (State_Monad.return a)"
  by (simp add: ticks_def keeps_return reflpI)

lemma ticks_bind [ticks_intros]:
  "ticks clock m \<Longrightarrow> (\<And>a. ticks clock (f a)) \<Longrightarrow> ticks clock (State_Monad.bind m f)"
  unfolding ticks_def by (rule keeps_bind) (auto intro: transpI)

lemma ticks_if [ticks_intros]: "ticks clock m \<Longrightarrow> ticks clock n \<Longrightarrow> ticks clock (if b then m else n)"
  by simp

lemma ticks_cases [ticks_intros]:
  "ticks clock m \<Longrightarrow> (\<And>a. ticks clock (f a)) \<Longrightarrow> ticks clock (case x of None \<Rightarrow> m | Some a \<Rightarrow> f a)"
  "(\<And>e. ticks clock (g e)) \<Longrightarrow> (\<And>a. ticks clock (h a)) \<Longrightarrow> ticks clock (case y of Inl e \<Rightarrow> g e | Inr a \<Rightarrow> h a)"
  "(\<And>fs. ticks clock (k fs)) \<Longrightarrow> ticks clock m1 \<Longrightarrow> ticks clock m2 \<Longrightarrow> ticks clock m3 \<Longrightarrow>
     ticks clock (case z of CopyDone fs \<Rightarrow> k fs | CopyFailed \<Rightarrow> m1 | DeadlineDone \<Rightarrow> m2 | CancelDone \<Rightarrow> m3)"
  by (simp_all split: option.splits sum.splits copied.splits)

lemma exec_with_ticks:
  assumes "clock_laws eng clock"
  shows "ticks clock (exec_with noKill eng s cmd user pidFile)"
  using assms
  unfolding exec_with_wrapped attach_def classifyAttach_def diedUnder_def noKill_def clock_laws_def
  by (intro ticks_intros) blast+

lemma ticks_run: "ticks clock m \<Longrightarrow> run_state m w = (a, w') \<Longrightarrow> clock w \<le> clock w'"
  unfolding ticks_def keeps_def by (metis snd_conv)

lemma killLoop_within:
  assumes "clock_laws eng clock" "0 < fuel" "deadline < clock w + (int fuel - 1) * killRetryInterval"
  shows "fst (run_state (killLoop fuel eng s pidFile deadline) w)"
  using assms(2,3)
proof (induction fuel arbitrary: w)
  case (Suc n)
  obtain res w1 where r: "run_state (exec_with noKill eng s (killCommand pidFile) [] []) w = (res, w1)" by force
  have t1: "clock w \<le> clock w1" by (rule ticks_run [OF exec_with_ticks [OF assms(1)] r])
  show ?case
  proof (cases "\<exists>x. res = Inr x \<and> r_ExitCode x = killNoRecord")
    case True
    obtain now w2 where w2: "run_state (timeNow eng) w1 = (now, w2)" by force
    obtain el w3 where w3: "run_state (timeAfter eng killRetryInterval) w2 = (el, w3)" by force
    have t2: "clock w1 \<le> now" "now \<le> clock w2" using assms(1) w2 unfolding clock_laws_def by blast+
    show ?thesis
    proof (cases "now > deadline \<or> \<not> el")
      case False
      with w3 have t3: "clock w2 + killRetryInterval \<le> clock w3"
        using assms(1) unfolding clock_laws_def by metis
      from False t1 t2 Suc.prems(2) have "n \<noteq> 0" by (auto simp: killRetryInterval_def)
      moreover have "deadline < clock w3 + (int n - 1) * killRetryInterval"
        using Suc.prems(2) t1 t2 t3 by (simp add: algebra_simps)
      ultimately have "fst (run_state (killLoop n eng s pidFile deadline) w3)" using Suc.IH by simp
      with True False r w2 w3 show ?thesis by auto
    qed (use True r w2 w3 in auto)
  next
    case False
    with r show ?thesis by (cases res) auto
  qed
qed simp

lemma killLoop_more:
  "fst (run_state (killLoop n eng s pidFile d) w) \<Longrightarrow>
     run_state (killLoop (n + k) eng s pidFile d) w = run_state (killLoop n eng s pidFile d) w"
  by (induction n arbitrary: w) (auto split: prod.splits sum.splits if_splits)

section \<open>Properties\<close>

text \<open>
  C26: the labels are the registry. The handle opened on a container that was created from
  a spec reports the name, the creation time and exactly the caller's labels, and resolves
  every requested timeout as the spec does: to a positive time of at most its maximum.
\<close>

theorem handle_of_created:
  assumes "\<forall>opt \<in> set opts. lib_option opt"
    and "buildConfig oor now name (newSpec opts) = (k_cfg k, k_host k)" and "four_digit_year now"
    and "in_int64 (sp_DefaultTimeout (newSpec opts))" "in_int64 (sp_MaxTimeout (newSpec opts))"
  shows "i_Name (ds_info (handle b k)) = name \<and> i_CreatedAt (ds_info (handle b k)) = now \<and>
    map_of (i_Labels (ds_info (handle b k))) = map_of (sp_Labels (newSpec opts)) \<and>
    resolveTimeout (handle b k) t = ResolveTimeout (newSpec opts) t \<and>
    0 < resolveTimeout (handle b k) t \<and> resolveTimeout (handle b k) t \<le> sp_MaxTimeout (newSpec opts)"
proof -
  have bd: "bounded_spec (newSpec opts)" using newSpec_bounded_lib [OF assms(1)] .
  then have lb: "wf_map (sp_Labels (newSpec opts))" by (simp add: bounded_spec_def)
  have L: "cc_Labels (k_cfg k) = createdLabels now name (newSpec opts)"
    using cc_Labels_buildConfig [of oor now name "newSpec opts"] assms(2) by simp
  have h: "i_Name (ds_info (handle b k)) = name \<and> i_CreatedAt (ds_info (handle b k)) = now \<and>
    map_of (i_Labels (ds_info (handle b k))) = map_of (sp_Labels (newSpec opts))"
    "ds_defaultTimeout (handle b k) = sp_DefaultTimeout (newSpec opts)"
    "ds_maxTimeout (handle b k) = sp_MaxTimeout (newSpec opts)"
    using bd assms(3-5)
    by (simp_all add: handle_def sandboxOf_def infoFrom_def L createdLabels_get [OF lb] userLabels_created [OF lb]
        parseTimeLabel_format parseDurationLabel_durString bounded_spec_def)
  then have "resolveTimeout (handle b k) t = ResolveTimeout (newSpec opts) t"
    by (simp add: resolveTimeout_def ResolveTimeout_def Let_def)
  with h(1) bd ResolveTimeout_bound [of "newSpec opts" t] show ?thesis by (simp add: bounded_spec_def)
qed

theorem handle_of_created_witness:
  "\<exists>k. buildConfig (\<lambda>_. 0) 0 ''box'' (newSpec [WithImage ''img'']) = (k_cfg k, k_host k) \<and>
     i_Name (ds_info (handle demo_backend k)) = ''box'' \<and> i_CreatedAt (ds_info (handle demo_backend k)) = 0 \<and>
     resolveTimeout (handle demo_backend k) (hours 1) = minutes 10"
proof -
  obtain cfg hc where bc: "buildConfig (\<lambda>_. 0) 0 ''box'' (newSpec [WithImage ''img'']) = (cfg, hc)" by force
  let ?k = "\<lparr> k_id = ''id'', k_cfg = cfg, k_host = hc, k_status = ''running'' \<rparr>"
  have "four_digit_year 0" by (rule four_digit_year_int64) simp_all
  moreover have "sp_DefaultTimeout (newSpec [WithImage ''img'']) = seconds 60" "sp_MaxTimeout (newSpec [WithImage ''img'']) = minutes 10"
    by (simp_all add: newSpec_def WithImage_def defaultSpec_def spec_defaults)
  ultimately show ?thesis
    using handle_of_created [OF demo_spec(4), of "\<lambda>_. 0" 0 "''box''" ?k demo_backend "hours 1"] bc
    by (intro exI [of _ ?k]) (simp add: in_int64_def seconds_def minutes_def hours_def ResolveTimeout_def)
qed

text \<open>
  C27: running a caller's command runs nothing else. Whatever the daemon answers, the execs
  \<^verbatim>\<open>Exec\<close> asks for are in this sandbox and are the command itself behind the fixed wrapper,
  its words untouched and as the sandbox user, the kill script as the sandbox user, and
  the timestamp write as root; and no container is created.
\<close>

theorem Exec_calls:
  assumes "run_state (Exec (traced eng) s cmd) (w, []) = (r, (w', calls))"
  shows "(\<forall>i e. CExecCreate i e \<in> set calls \<longrightarrow> i = ds_id s \<and> exec_shape cmd e) \<and>
    (\<forall>cfg hc n. CCreate cfg hc n \<notin> set calls)"
proof -
  have "emits (sandbox_call s (exec_shape cmd)) (Exec (traced eng) s cmd)" by (rule Exec_emits)
  from emits_log [OF this assms] have "\<forall>c \<in> set calls. sandbox_call s (exec_shape cmd) c"
    by (simp add: list_all_iff)
  then show ?thesis by fastforce
qed

definition demo_sandbox :: dockerSandbox where
  "demo_sandbox =
     \<lparr> ds_id = ''id'', ds_info = \<lparr> i_Name = ''box'', i_ID = ''id'', i_Image = ''img'', i_State = ''running'',
         i_CreatedAt = 0, i_Labels = [] \<rparr>,
       ds_defaultTimeout = seconds 60, ds_maxTimeout = minutes 10, ds_previews = None \<rparr>"

theorem Exec_calls_witness:
  "\<exists>r w' calls e. run_state (Exec (traced mem_engine) demo_sandbox (plain [''ls''])) ([], []) = (r, (w', calls)) \<and>
     CExecCreate ''id'' e \<in> set calls \<and> exec_shape (plain [''ls'']) e"
proof -
  obtain r w' calls where run: "run_state (Exec (traced mem_engine) demo_sandbox (plain [''ls''])) ([], []) = (r, (w', calls))"
    by (metis prod.exhaust)
  obtain pf where "CExecCreate ''id'' (execOptions (wrapped pf (plain [''ls''])) []) \<in> set calls"
    using Exec_records [OF _ run] by (auto simp: demo_sandbox_def plain_def Command_Validate_None)
  with run Exec_calls [OF run] show ?thesis by blast
qed

text \<open>
  C6: every operation on a sandbox is confined to it. Whatever the daemon answers, the execs
  of \<^verbatim>\<open>Exec\<close>, \<^verbatim>\<open>WriteFile\<close>, \<^verbatim>\<open>ReadFile\<close>, \<^verbatim>\<open>StartProcess\<close>, the idle clock and the port relay are
  asked for in this sandbox only and as its own user (the timestamp write apart), none is
  waited for longer than the sandbox's maximum, and no container is created, started,
  stopped or removed.
\<close>

theorem operations_confined:
  assumes "0 < ds_defaultTimeout s" "0 < ds_maxTimeout s"
  shows "emits (confined s) (Exec (traced eng) s cmd) \<and>
    emits (confined s) (WriteFile (traced eng) s path mode src) \<and>
    emits (confined s) (ReadFile (traced eng) s path) \<and>
    emits (confined s) (StartProcess (traced eng) s name cmd) \<and>
    emits (confined s) (lastUsed (traced eng) s) \<and>
    emits (confined s) (dialPort (traced eng) s port)"
proof -
  have "emits (sandbox_call s unprivileged) (WriteFile (traced eng) s path mode src)"
    "emits (sandbox_call s unprivileged) (ReadFile (traced eng) s path)"
    "emits (sandbox_call s unprivileged) (StartProcess (traced eng) s name cmd)"
    "emits (sandbox_call s unprivileged) (lastUsed (traced eng) s)"
    "emits (sandbox_call s unprivileged) (dialPort (traced eng) s port)"
    unfolding WriteFile_def ReadFile_def StartProcess_def lastUsed_def dialPort_def dialPortWith_def
    by (intro emits_intros exec_unprivileged)+
  with Exec_unprivileged show ?thesis by (intro conjI emits_confined [OF assms])
qed

theorem operations_confined_witness:
  "emits (confined demo_sandbox) (WriteFile (traced mem_engine) demo_sandbox ''/tmp/x'' 420 ''data'') \<and>
   \<not> confined demo_sandbox (CExecCreate ''other'' (execOptions (plain [''ls'']) [])) \<and>
   \<not> confined demo_sandbox (CExecCreate ''id'' (execOptions (plain [''ls'']) rootUser))"
  using operations_confined [of demo_sandbox mem_engine "plain []" "''/tmp/x''" 420 "''data''"]
  by (simp add: demo_sandbox_def unprivileged_def execOptions_def plain_def touchCommand_def rootUser_def
      seconds_def minutes_def)

text \<open>
  C28: output is capped without being reordered. However the daemon cuts the two streams into
  frames, the result holds exactly the first \<open>MaxOutputBytes\<close> bytes of each, and reports
  truncation exactly when a stream was longer.
\<close>

theorem resultOf_caps:
  "r_Stdout (resultOf frames code) = take MaxOutputBytes (streamOf Stdout frames) \<and>
   r_Stderr (resultOf frames code) = take MaxOutputBytes (streamOf Stderr frames) \<and>
   (r_Truncated (resultOf frames code) \<longleftrightarrow>
      MaxOutputBytes < length (streamOf Stdout frames) \<or> MaxOutputBytes < length (streamOf Stderr frames)) \<and>
   r_ExitCode (resultOf frames code) = code"
  by (simp add: resultOf_def stdCopy_streams capped_def)

text \<open>
  C20: killing a timed-out command ends. Given a clock no call turns back and pauses that
  last, the retry loop of \<^verbatim>\<open>killGroup\<close> is over within \<open>killFuel\<close> rounds, and allowing it more
  changes nothing.
\<close>

theorem killGroup_ends:
  assumes "clock_laws eng clock" "run_state (timeNow eng) w = (now, w')"
  shows "fst (run_state (killLoop killFuel eng s pidFile (now + killRecordWait)) w') \<and>
    run_state (killLoop (killFuel + k) eng s pidFile (now + killRecordWait)) w' =
      run_state (killLoop killFuel eng s pidFile (now + killRecordWait)) w'"
proof -
  have "now \<le> clock w'" using assms unfolding clock_laws_def by blast
  then have "fst (run_state (killLoop killFuel eng s pidFile (now + killRecordWait)) w')"
    by (intro killLoop_within [OF assms(1)])
      (simp_all add: killFuel_def killRecordWait_def killRetryInterval_def seconds_def)
  with killLoop_more [OF this, of k] show ?thesis by simp
qed

text \<open>A daemon whose world is its clock, and in which no pid file is ever found.\<close>

definition clock_engine :: "instant engine" where
  "clock_engine =
     \<lparr> ContainerInspect = (\<lambda>_. State_Monad.return (Inl CNotFound)),
       ContainerCreate = (\<lambda>_ _ _. State_Monad.return (Inl COther)),
       ContainerStart = (\<lambda>_. State_Monad.return None),
       ContainerRemove = (\<lambda>_ _ _. State_Monad.return None),
       ContainerStop = (\<lambda>_. State_Monad.return None),
       ContainerList = (\<lambda>_. State_Monad.return (Inr [])),
       DaemonRuntimes = State_Monad.return (Inr []),
       ImageInspect = (\<lambda>_. State_Monad.return None),
       ImagePull = (\<lambda>_ _. State_Monad.return (Inr True)),
       ExecCreate = (\<lambda>_ _. State_Monad.return (Inr ''exec'')),
       ExecAttach = (\<lambda>_. State_Monad.return None),
       ExecCopy = (\<lambda>_ _ _. State_Monad.return (CopyDone [])),
       ExecInspect = (\<lambda>_. State_Monad.return (Inr killNoRecord)),
       ContainerWait = (\<lambda>_ _. State_Monad.return False),
       timeNow = State (\<lambda>t. (t, t)),
       timeAfter = (\<lambda>d. State (\<lambda>t. (True, t + d))),
       randRead = (\<lambda>_. State_Monad.return None),
       floatOutOfRange = (\<lambda>_. 0) \<rparr>"

lemma clock_laws_clock_engine: "clock_laws clock_engine (\<lambda>t. t)"
  by (auto simp: clock_laws_def clock_engine_def ticks_return)

theorem killGroup_ends_witness:
  "fst (run_state (killLoop killFuel clock_engine demo_sandbox ''/tmp/p'' killRecordWait) 0) \<and>
   \<not> fst (run_state (killLoop 2 clock_engine demo_sandbox ''/tmp/p'' killRecordWait) 0)"
proof
  have "run_state (timeNow clock_engine) 0 = (0, 0)" by (simp add: clock_engine_def)
  from killGroup_ends [OF clock_laws_clock_engine this, of demo_sandbox "''/tmp/p''"]
  show "fst (run_state (killLoop killFuel clock_engine demo_sandbox ''/tmp/p'' killRecordWait) 0)" by simp
  have v: "Command_Validate (killCommand pf) = None" for pf
    by (simp add: Command_Validate_None killCommand_def killTimeout_def seconds_def)
  have r: "run_state (exec_with noKill clock_engine demo_sandbox (killCommand ''/tmp/p'') [] []) t = (Inr (resultOf [] 1), t)" for t
    by (simp add: exec_with_wrapped v attach_def clock_engine_def killNoRecord_def mayHaveDied_def exitLostWait_def exitKilled_def)
  have c: "run_state (timeNow clock_engine) t = (t, t)" "run_state (timeAfter clock_engine d) t = (True, t + d)" for t d
    by (simp_all add: clock_engine_def)
  have x: "r_ExitCode (resultOf [] 1) = killNoRecord" by (simp add: resultOf_def stdCopy_streams killNoRecord_def)
  show "\<not> fst (run_state (killLoop 2 clock_engine demo_sandbox ''/tmp/p'' killRecordWait) 0)"
    by (simp add: numeral_2_eq_2 r x c killRecordWait_def killRetryInterval_def seconds_def)
qed


definition slow_engine :: "instant engine" where
  "slow_engine = clock_engine\<lparr>ExecCopy := \<lambda>_ _ _. State_Monad.return DeadlineDone\<rparr>"

lemma slow_engine_sel:
  "ExecCreate slow_engine i e = State_Monad.return (Inr ''exec'')"
  "ExecAttach slow_engine i = State_Monad.return None"
  "ExecCopy slow_engine i st d = State_Monad.return DeadlineDone"
  by (simp_all add: slow_engine_def clock_engine_def)


text \<open>
  A refused exec is classified. When the daemon will not create the exec, the caller
  sees \<^verbatim>\<open>ErrStopped\<close> exactly for a conflict and \<^verbatim>\<open>ErrNotFound\<close> exactly for a missing container,
  and nothing further is asked of the daemon.
\<close>

theorem exec_refused:
  assumes "Command_Validate cmd = None"
    and "run_state (ExecCreate eng (ds_id s) (execOptions (wrapped pidFile cmd) user)) w = (Inl e, w')"
  shows "\<exists>err. run_state (exec eng s cmd user pidFile) w = (Inl err, w') \<and>
    (errIs err ErrStopped \<longleftrightarrow> e = CConflict) \<and> (errIs err ErrNotFound \<longleftrightarrow> e = CNotFound)"
  using assms by (cases e) (simp_all add: exec_def exec_with_wrapped attach_def)

theorem exec_refused_witness:
  "\<exists>err. run_state (exec (clock_engine\<lparr>ExecCreate := \<lambda>_ _. State_Monad.return (Inl CConflict)\<rparr>) demo_sandbox (plain [''ls'']) [] []) 0
      = (Inl err, 0) \<and> errIs err ErrStopped \<and> \<not> errIs err ErrNotFound"
proof -
  let ?E = "clock_engine\<lparr>ExecCreate := \<lambda>_ _. State_Monad.return (Inl CConflict)\<rparr>"
  have "Command_Validate (plain [''ls'']) = None" by (simp add: Command_Validate_None plain_def)
  moreover have "run_state (ExecCreate ?E (ds_id demo_sandbox) (execOptions (wrapped [] (plain [''ls''])) [])) 0 = (Inl CConflict, 0)"
    by simp
  ultimately show ?thesis using exec_refused [of "plain [''ls'']" ?E demo_sandbox "[]" "[]" 0 CConflict 0] by simp
qed

text \<open>
  C32: a process name is one path element. \<^verbatim>\<open>validateProcessName\<close> accepts exactly the non-empty
  names of letters, digits, dots, dashes and underscores that do not start with a dot, and
  an accepted name puts the bookkeeping of the process directly under \<open>procDir\<close>.
\<close>

theorem validateProcessName_confines:
  "(validateProcessName name = None \<longleftrightarrow>
      name \<noteq> [] \<and> hd name \<noteq> CHR ''.'' \<and> (\<forall>c \<in> set name. name_char c)) \<and>
   (validateProcessName name = None \<longrightarrow>
      path_join [procDir, name] = procDir @ ''/'' @ name \<and> CHR ''/'' \<notin> set name)"
proof -
  have iff: "validateProcessName name = None \<longleftrightarrow>
      name \<noteq> [] \<and> hd name \<noteq> CHR ''.'' \<and> (\<forall>c \<in> set name. name_char c)"
    by (cases name) (auto simp: validateProcessName_def hasPrefix_def find_None_iff find_Some_iff split: option.splits)
  show ?thesis using iff validName_join by blast
qed

theorem validateProcessName_confines_witness:
  "validateProcessName ''web-1'' = None \<and> path_join [procDir, ''web-1''] = ''/tmp/.openblox/proc/web-1'' \<and>
   validateProcessName ''../web'' \<noteq> None"
proof -
  have "name_char c" if "c \<in> set ''web-1''" for c using that by (auto simp: name_char_def is_alnum_def)
  then show ?thesis
    using validateProcessName_confines [of "''web-1''"] validateProcessName_confines [of "''../web''"]
    by (simp add: procDir_def)
qed

end
