(* ===== verification/Docker_Reap.thy ===== *)
theory Docker_Reap
  imports Docker_Sandbox
begin

text \<open>
  Package \<^verbatim>\<open>pkg/docker\<close>: the sweep that destroys sandboxes past their bounds (\<^verbatim>\<open>reap.go\<close>). The
  bounds are read back from the labels. The lemmas show what a sweep may remove whatever
  the daemon answers, and that on a healthy daemon it removes exactly what is due.
\<close>

section \<open>Definitions\<close>

definition parseSignedDurationLabel :: "string \<Rightarrow> duration \<Rightarrow> duration" where
  "parseSignedDurationLabel v fallback = (case parseDuration v of None \<Rightarrow> fallback | Some d \<Rightarrow> d)"

text \<open>The handle \<^verbatim>\<open>lastUsedOf\<close> makes up for a container of which only the id is known.\<close>

definition bareSandbox :: "string \<Rightarrow> dockerSandbox" where
  "bareSandbox cid =
     \<lparr> ds_id = cid,
       ds_info = \<lparr> i_Name = [], i_ID = [], i_Image = [], i_State = [], i_CreatedAt = zero_time, i_Labels = [] \<rparr>,
       ds_defaultTimeout = DefaultCommandTimeout, ds_maxTimeout = MaxCommandTimeout, ds_previews = None \<rparr>"

definition lastUsedOf :: "'w engine \<Rightarrow> string \<Rightarrow> ('w, instant) state" where
  "lastUsedOf eng cid = lastUsed eng (bareSandbox cid)"

definition expired :: "'w engine \<Rightarrow> Summary \<Rightarrow> instant \<Rightarrow> ('w, bool) state" where
  "expired eng c now =
     (let created = parseTimeLabel (mget (cs_Labels c) labelCreatedAt);
          maxAge = parseSignedDurationLabel (mget (cs_Labels c) labelMaxAge) DefaultMaxAge;
          idle = parseSignedDurationLabel (mget (cs_Labels c) labelIdle) DefaultIdleTimeout
      in if isZero created then State_Monad.return False
         else if maxAge > 0 \<and> time_sub now created > maxAge then State_Monad.return True
         else if idle \<le> 0 then State_Monad.return False
         else if stateFromStatus (cs_State c) = StateRunning
         then do {
           used \<leftarrow> lastUsedOf eng (cs_ID c);
           let since = (if isZero used then created else used);
           State_Monad.return (time_sub now since > idle) }
         else State_Monad.return (time_sub now created > idle))"

text \<open>The loop of \<^verbatim>\<open>Reap\<close>: the names destroyed and the errors, in the order of the list.\<close>

fun reapLoop :: "'w engine \<Rightarrow> instant \<Rightarrow> Summary list \<Rightarrow> ('w, string list \<times> gerr list) state" where
  "reapLoop eng now [] = State_Monad.return ([], [])"
| "reapLoop eng now (c # cs) = do {
     exp \<leftarrow> expired eng c now;
     if \<not> exp then reapLoop eng now cs
     else do {
       err \<leftarrow> ContainerRemove eng (cs_ID c) True True;
       rest \<leftarrow> reapLoop eng now cs;
       State_Monad.return (case err of
         None \<Rightarrow> (mget (cs_Labels c) labelName # fst rest, snd rest)
       | Some e \<Rightarrow>
           if e = CNotFound then (mget (cs_Labels c) labelName # fst rest, snd rest)
           else (fst rest, Errorf ''reap sandbox %q: %w'' [dockerErr e] # snd rest)) } }"

definition Reap :: "'w engine \<Rightarrow> ('w, string list \<times> gerr option) state" where
  "Reap eng = do {
     r \<leftarrow> ContainerList eng managedFilter;
     (case r of
        Inl e \<Rightarrow> State_Monad.return ([], Some (Errorf ''list sandboxes to reap: %w'' [dockerErr e]))
      | Inr containers \<Rightarrow> do {
          now \<leftarrow> timeNow eng;
          swept \<leftarrow> reapLoop eng now containers;
          State_Monad.return (fst swept, errorsJoin (snd swept)) }) }"

section \<open>What is due\<close>

text \<open>The rule of \<^verbatim>\<open>expired\<close> with the activity time given.\<close>

definition due :: "instant \<Rightarrow> instant \<Rightarrow> Summary \<Rightarrow> bool" where
  "due now used c \<longleftrightarrow>
     (let created = parseTimeLabel (mget (cs_Labels c) labelCreatedAt);
          maxAge = parseSignedDurationLabel (mget (cs_Labels c) labelMaxAge) DefaultMaxAge;
          idle = parseSignedDurationLabel (mget (cs_Labels c) labelIdle) DefaultIdleTimeout;
          since = (if stateFromStatus (cs_State c) = StateRunning \<and> \<not> isZero used then used else created)
      in \<not> isZero created \<and> (0 < maxAge \<and> maxAge < time_sub now created \<or> 0 < idle \<and> idle < time_sub now since))"

lemma expired_due:
  assumes "run_state (lastUsedOf eng (cs_ID c)) w = (used, w1)" "run_state (expired eng c now) w = (b, w')"
  shows "b = due now used c \<and> (w' = w \<or> w' = w1)"
proof -
  define created where "created = parseTimeLabel (mget (cs_Labels c) labelCreatedAt)"
  define maxAge where "maxAge = parseSignedDurationLabel (mget (cs_Labels c) labelMaxAge) DefaultMaxAge"
  define idle where "idle = parseSignedDurationLabel (mget (cs_Labels c) labelIdle) DefaultIdleTimeout"
  define up where "up = (stateFromStatus (cs_State c) = StateRunning)"
  note defs = created_def [symmetric] maxAge_def [symmetric] idle_def [symmetric] up_def [symmetric]
  from assms show ?thesis
    unfolding expired_def due_def Let_def defs by (auto split: if_splits)
qed

text \<open>Whatever the daemon answers, a container with no creation time or no bound set is spared.\<close>

definition overdue :: "instant \<Rightarrow> Summary \<Rightarrow> bool" where
  "overdue now c \<longleftrightarrow> (\<exists>used. due now used c)"

lemma expired_returns: "returns (\<lambda>b. b \<longrightarrow> overdue now c) (expired eng c now)"
  unfolding returns_def
proof
  fix w
  obtain used w1 where l: "run_state (lastUsedOf eng (cs_ID c)) w = (used, w1)" by force
  obtain b w' where e: "run_state (expired eng c now) w = (b, w')" by force
  from expired_due [OF l e] e show "fst (run_state (expired eng c now) w) \<longrightarrow> overdue now c"
    unfolding overdue_def by auto
qed

lemma overdue_created: "overdue now c \<Longrightarrow> parseRFC3339Nano (mget (cs_Labels c) labelCreatedAt) \<noteq> None"
  by (cases "parseRFC3339Nano (mget (cs_Labels c) labelCreatedAt)")
    (auto simp: overdue_def due_def Let_def parseTimeLabel_def isZero_def)

section \<open>Which calls a sweep makes\<close>

fun reap_call :: "instant \<Rightarrow> Summary list \<Rightarrow> call \<Rightarrow> bool" where
  "reap_call now cs (CRemove i) = (\<exists>c \<in> set cs. cs_ID c = i \<and> overdue now c)"
| "reap_call now cs (CExecCreate i e) =
     ((\<exists>c \<in> set cs. cs_ID c = i) \<and> e = execOptions (plain [''cat'', lastUsedPath]) [])"
| "reap_call now cs (CExecCopy i t) = True"
| "reap_call now cs c = query c"

lemma query_reap_call: "query c \<Longrightarrow> reap_call now cs c"
  by (cases c) simp_all

lemma lastUsedOf_emits:
  assumes "c \<in> set cs"
  shows "emits (reap_call now cs) (lastUsedOf (traced eng) (cs_ID c))"
proof -
  have "emits (reap_call now cs) (exec (traced eng) (bareSandbox (cs_ID c)) (plain [''cat'', lastUsedPath]) [] [])"
    unfolding exec_def by (rule exec_with_emits) (use assms in \<open>auto simp: query_reap_call bareSandbox_def\<close>)
  then show ?thesis unfolding lastUsedOf_def lastUsed_def by (intro emits_intros)
qed

lemma expired_emits:
  "c \<in> set cs \<Longrightarrow> emits (reap_call now cs) (expired (traced eng) c t)"
  unfolding expired_def Let_def by (intro emits_intros lastUsedOf_emits)

lemma reapLoop_emits:
  "set ds \<subseteq> set cs \<Longrightarrow> emits (reap_call now cs) (reapLoop (traced eng) now ds)"
proof (induction ds)
  case (Cons c ds)
  then have c: "c \<in> set cs" and ds: "emits (reap_call now cs) (reapLoop (traced eng) now ds)" by simp_all
  show ?case
    unfolding reapLoop.simps
  proof (rule emits_bind_returns [OF expired_returns expired_emits [OF c]])
    fix b assume "b \<longrightarrow> overdue now c"
    then show "emits (reap_call now cs) (if \<not> b then reapLoop (traced eng) now ds
       else do { err \<leftarrow> ContainerRemove (traced eng) (cs_ID c) True True;
                 rest \<leftarrow> reapLoop (traced eng) now ds;
                 State_Monad.return (case err of
                   None \<Rightarrow> (mget (cs_Labels c) labelName # fst rest, snd rest)
                 | Some e \<Rightarrow>
                     if e = CNotFound then (mget (cs_Labels c) labelName # fst rest, snd rest)
                     else (fst rest, Errorf ''reap sandbox %q: %w'' [dockerErr e] # snd rest)) })"
      using c by (auto intro!: emits_intros ds emits_logged)
  qed
qed (simp add: emits_return)

section \<open>A sweep on a healthy daemon\<close>

definition summary :: "ctr \<Rightarrow> Summary" where
  "summary k = \<lparr> cs_ID = k_id k, cs_Labels = cc_Labels (k_cfg k), cs_Image = cc_Image (k_cfg k), cs_State = k_status k \<rparr>"

text \<open>The list is complete and has one entry per container; reading an activity time changes no container.\<close>

definition list_law :: "'w engine \<Rightarrow> ('w \<Rightarrow> registry) \<Rightarrow> bool" where
  "list_law eng view \<longleftrightarrow> (\<forall>w r w'. wf_registry (view w) \<longrightarrow> run_state (ContainerList eng managedFilter) w = (r, w') \<longrightarrow>
     view w' = view w \<and> (\<exists>cs. r = Inr cs \<and> distinct (map cs_ID cs) \<and>
       set cs = {summary k | n k. view w n = Some k \<and> managed k}))"

definition activity_law :: "'w engine \<Rightarrow> ('w \<Rightarrow> registry) \<Rightarrow> (string \<Rightarrow> instant) \<Rightarrow> bool" where
  "activity_law eng view lu \<longleftrightarrow> (\<forall>w i t w'. run_state (lastUsedOf eng i) w = (t, w') \<longrightarrow> t = lu i \<and> view w' = view w)"

text \<open>The contract: exactly the managed containers that are due disappear.\<close>

definition reap_spec :: "instant \<Rightarrow> (string \<Rightarrow> instant) \<Rightarrow> registry \<Rightarrow> registry" where
  "reap_spec now lu V = (\<lambda>n. case V n of
     None \<Rightarrow> None
   | Some k \<Rightarrow> if managed k \<and> due now (lu (k_id k)) (summary k) then None else Some k)"

definition without :: "string set \<Rightarrow> registry \<Rightarrow> registry" where
  "without ids V = (\<lambda>n. case V n of None \<Rightarrow> None | Some k \<Rightarrow> if k_id k \<in> ids then None else Some k)"

lemma without_insert: "without A (without {i} V) = without (insert i A) V"
  by (rule ext) (simp add: without_def split: option.splits)

lemma without_remove: "wf_registry V \<Longrightarrow> V n = Some k \<Longrightarrow> V(n := None) = without {k_id k} V"
  by (rule ext) (auto simp: without_def wf_registry_def split: option.splits)

lemma reapLoop_healthy:
  assumes h: "healthy eng view rts" and act: "activity_law eng view lu"
    and "wf_registry (view w)" "distinct (map cs_ID cs)"
    and "\<forall>c \<in> set cs. \<exists>n k. view w n = Some k \<and> c = summary k"
  shows "\<exists>w'. run_state (reapLoop eng now cs) w =
      ((map (\<lambda>c. mget (cs_Labels c) labelName) (filter (\<lambda>c. due now (lu (cs_ID c)) c) cs), []), w') \<and>
    view w' = without (cs_ID ` set (filter (\<lambda>c. due now (lu (cs_ID c)) c) cs)) (view w)"
  using assms(3-5)
proof (induction cs arbitrary: w)
  case Nil
  have "without {} (view w) = view w" by (rule ext) (simp add: without_def split: option.splits)
  then show ?case by simp
next
  case (Cons c cs)
  obtain used w0 where l: "run_state (lastUsedOf eng (cs_ID c)) w = (used, w0)" by force
  have used: "used = lu (cs_ID c)" and v0: "view w0 = view w" using act l unfolding activity_law_def by blast+
  obtain b w1 where e: "run_state (expired eng c now) w = (b, w1)" by force
  from expired_due [OF l e] have b: "b = due now (lu (cs_ID c)) c" and v1: "view w1 = view w"
    using used v0 by auto
  show ?case
  proof (cases b)
    case False
    have "\<exists>w'. run_state (reapLoop eng now cs) w1 =
        ((map (\<lambda>c. mget (cs_Labels c) labelName) (filter (\<lambda>c. due now (lu (cs_ID c)) c) cs), []), w') \<and>
      view w' = without (cs_ID ` set (filter (\<lambda>c. due now (lu (cs_ID c)) c) cs)) (view w1)"
      using Cons.prems v1 by (intro Cons.IH) simp_all
    with False e b v1 show ?thesis by simp
  next
    case True
    from Cons.prems(3) obtain n k where k: "view w n = Some k" "c = summary k" by auto
    have id: "cs_ID c = k_id k" by (simp add: k summary_def)
    have wf1: "wf_registry (view w1)" using Cons.prems(1) v1 by simp
    have k1: "view w1 n = Some k" using k v1 by simp
    from healthy_remove_Some [OF h wf1 resolves_id [of "view w1" n k, OF k1]] obtain w2 where
      w2: "run_state (ContainerRemove eng (k_id k) True True) w1 = (None, w2)" "view w2 = (view w1)(n := None)" .
    have v2: "view w2 = without {k_id k} (view w)" using w2(2) without_remove [OF wf1 k1] v1 by simp
    have "wf_registry (view w2)" using wf1 w2(2) by (simp add: wf_registry_remove)
    moreover have "\<forall>d \<in> set cs. \<exists>n k. view w2 n = Some k \<and> d = summary k"
    proof
      fix d assume d: "d \<in> set cs"
      with Cons.prems(3) obtain m l where m: "view w m = Some l" "d = summary l" by auto
      from Cons.prems(2) have "cs_ID c \<notin> cs_ID ` set cs" by simp
      with d have "cs_ID d \<noteq> cs_ID c" by (metis imageI)
      then have "view w2 m = Some l" using m id v2 by (simp add: without_def summary_def)
      with m show "\<exists>n k. view w2 n = Some k \<and> d = summary k" by blast
    qed
    ultimately have "\<exists>w'. run_state (reapLoop eng now cs) w2 =
        ((map (\<lambda>c. mget (cs_Labels c) labelName) (filter (\<lambda>c. due now (lu (cs_ID c)) c) cs), []), w') \<and>
      view w' = without (cs_ID ` set (filter (\<lambda>c. due now (lu (cs_ID c)) c) cs)) (view w2)"
      using Cons.prems(2) by (intro Cons.IH) simp_all
    with True e b w2(1) id v2 show ?thesis by (auto simp: without_insert)
  qed
qed

lemma without_due:
  assumes "wf_registry V" "set cs = {summary k | n k. V n = Some k \<and> managed k}"
  shows "without (cs_ID ` set (filter (\<lambda>c. due now (lu (cs_ID c)) c) cs)) V = reap_spec now lu V"
proof
  fix n
  have "k_id k \<in> cs_ID ` set (filter (\<lambda>c. due now (lu (cs_ID c)) c) cs) \<longleftrightarrow> managed k \<and> due now (lu (k_id k)) (summary k)"
    if k: "V n = Some k" for k
  proof
    assume "k_id k \<in> cs_ID ` set (filter (\<lambda>c. due now (lu (cs_ID c)) c) cs)"
    then obtain m l where l: "V m = Some l" "managed l" "k_id l = k_id k" "due now (lu (k_id l)) (summary l)"
      using assms(2) by (auto simp: summary_def)
    with assms(1) k have "m = n" unfolding wf_registry_def by metis
    with l k show "managed k \<and> due now (lu (k_id k)) (summary k)" by simp
  next
    assume d: "managed k \<and> due now (lu (k_id k)) (summary k)"
    then have "summary k \<in> set cs" using assms(2) k by blast
    moreover have "cs_ID (summary k) = k_id k" by (simp add: summary_def)
    ultimately show "k_id k \<in> cs_ID ` set (filter (\<lambda>c. due now (lu (cs_ID c)) c) cs)"
      using d by (intro image_eqI [of _ _ "summary k"]) simp_all
  qed
  then show "without (cs_ID ` set (filter (\<lambda>c. due now (lu (cs_ID c)) c) cs)) V n = reap_spec now lu V n"
    by (simp add: without_def reap_spec_def split: option.splits)
qed

section \<open>Properties\<close>


text \<open>The in-memory daemon with its clock set.\<close>

definition mem_at :: "instant \<Rightarrow> mem engine" where
  "mem_at now = mem_engine\<lparr>timeNow := State (\<lambda>m. (now, m))\<rparr>"

lemma mem_at_sel:
  "ContainerInspect (mem_at now) = ContainerInspect mem_engine" "ContainerCreate (mem_at now) = ContainerCreate mem_engine"
  "ContainerStart (mem_at now) = ContainerStart mem_engine" "ContainerRemove (mem_at now) = ContainerRemove mem_engine"
  by (simp_all add: mem_at_def)

lemma healthy_mem_at: "healthy (mem_at now) map_of {''runc'', ''runsc''}"
proof -
  have "inspect_law (mem_at now) map_of" "create_law (mem_at now) map_of" "start_law (mem_at now) map_of"
    "remove_law (mem_at now) map_of"
    using mem_inspect_law mem_create_law mem_start_law mem_remove_law
    unfolding inspect_law_def create_law_def start_law_def remove_law_def mem_at_sel .
  moreover have "host_law (mem_at now) map_of {''runc'', ''runsc''}"
    by (auto simp: host_law_def mem_at_def mem_engine_def)
  ultimately show ?thesis unfolding healthy_def by blast
qed

lemma mem_activity_law: "activity_law (mem_at now) map_of (\<lambda>_. zero_time)"
proof -
  have "Command_Validate (plain [''cat'', lastUsedPath]) = None" by (simp add: Command_Validate_None plain_def)
  moreover have "take MaxOutputBytes ''out'' = ''out''" by (simp add: MaxOutputBytes_def)
  moreover have "trimSpace ''out'' = ''out''" by (rule trimSpace_graphic) (simp_all add: graphic_def)
  moreover have "parseRFC3339Nano ''out'' = None" by (simp add: parseRFC3339Nano_def getfixed_def digit_val_def)
  ultimately have "run_state (lastUsedOf (mem_at now) i) m = (zero_time, m)" for i m
    by (simp add: lastUsedOf_def lastUsed_def exec_def exec_with_wrapped attach_def mem_at_def mem_engine_def mayHaveDied_def
        exitLostWait_def exitKilled_def resultOf_def stdCopy_streams capped_def streamOf_def)
  then show ?thesis by (simp add: activity_law_def)
qed

lemma mem_list_law: "list_law (mem_at now) map_of"
  unfolding list_law_def
proof (intro allI impI)
  fix m r m'
  assume wf: "wf_registry (map_of m)" and run: "run_state (ContainerList (mem_at now) managedFilter) m = (r, m')"
  let ?es = "filter (\<lambda>(n, k). map_of m n = Some k \<and> managed k) (remdups m)"
  let ?cs = "map (\<lambda>(n, k). summary k) ?es"
  have r: "r = Inr ?cs" "m' = m" using run by (auto simp: mem_at_def mem_engine_def summary_def)
  have "e = f" if e: "e \<in> set ?es" and f: "f \<in> set ?es" and id: "k_id (snd e) = k_id (snd f)" for e f
  proof -
    have "map_of m (fst e) = Some (snd e)" "map_of m (fst f) = Some (snd f)" using e f by auto
    with wf id show "e = f" unfolding wf_registry_def by (metis option.inject prod_eqI)
  qed
  then have "inj_on (\<lambda>e. k_id (snd e)) (set ?es)" by (intro inj_onI) blast
  moreover have "map cs_ID ?cs = map (\<lambda>e. k_id (snd e)) ?es" by (simp add: summary_def case_prod_beta)
  ultimately have "distinct (map cs_ID ?cs)" by (simp only: distinct_map) simp
  moreover have "set ?cs = {summary k | n k. map_of m n = Some k \<and> managed k}"
  proof -
    have "(n, k) \<in> set ?es \<longleftrightarrow> map_of m n = Some k \<and> managed k" for n k by (auto dest: map_of_SomeD)
    then show ?thesis unfolding set_map by (auto simp: image_def Bex_def simp del: set_filter)
  qed
  ultimately show "map_of m' = map_of m \<and> (\<exists>cs. r = Inr cs \<and> distinct (map cs_ID cs) \<and>
      set cs = {summary k | n k. map_of m n = Some k \<and> managed k})" using r by blast
qed

definition demo_ctr :: "string \<Rightarrow> string \<Rightarrow> instant \<Rightarrow> ctr" where
  "demo_ctr cid name created =
     \<lparr> k_id = cid,
       k_cfg = (fst (buildConfig (\<lambda>_. 0) created name (newSpec [WithImage ''img'']))),
       k_host = (snd (buildConfig (\<lambda>_. 0) created name (newSpec [WithImage ''img'']))),
       k_status = ''running'' \<rparr>"

lemma demo_ctr_labels:
  "mget (cc_Labels (k_cfg (demo_ctr cid name t))) l = mget (createdLabels t name (newSpec [WithImage ''img''])) l"
  "wf_map (sp_Labels (newSpec [WithImage ''img'']))" "sp_Lifetime (newSpec [WithImage ''img'']) = \<lparr> IdleTimeout = minutes 15, MaxAge = hours 2 \<rparr>"
  by (simp_all add: demo_ctr_def cc_Labels_buildConfig newSpec_def WithImage_def defaultSpec_def spec_defaults)

lemma demo_ctr_due:
  assumes "0 \<le> t" "t < 2 ^ 63"
  shows "managed (demo_ctr cid name t)" "mget (cc_Labels (k_cfg (demo_ctr cid name t))) labelName = name"
    "due now zero_time (summary (demo_ctr cid name t)) \<longleftrightarrow>
       t \<noteq> zero_time \<and> (hours 2 < time_sub now t \<or> minutes 15 < time_sub now t)"
proof -
  have "parseTimeLabel (formatRFC3339Nano t) = t"
    using assms by (intro parseTimeLabel_format four_digit_year_int64) simp_all
  moreover have "parseSignedDurationLabel (durString d) f = d" if "in_int64 d" for d f
    using that by (simp add: parseSignedDurationLabel_def parseDuration_durString)
  ultimately show "due now zero_time (summary (demo_ctr cid name t)) \<longleftrightarrow>
      t \<noteq> zero_time \<and> (hours 2 < time_sub now t \<or> minutes 15 < time_sub now t)"
    by (simp add: due_def summary_def demo_ctr_labels createdLabels_get isZero_def Let_def in_int64_def hours_def minutes_def seconds_def)
  show "managed (demo_ctr cid name t)" "mget (cc_Labels (k_cfg (demo_ctr cid name t))) labelName = name"
    by (simp_all add: managed_def demo_ctr_labels createdLabels_get)
qed



lemma reap_call_removal:
  "reap_call now cs (CRemove i) \<Longrightarrow>
     \<exists>c \<in> set cs. cs_ID c = i \<and> parseRFC3339Nano (mget (cs_Labels c) labelCreatedAt) \<noteq> None"
  using overdue_created by auto


end
