(* ===== verification/Daemon_Config.thy ===== *)
theory Daemon_Config
  imports Go_Net Docker_Reap Broker_Api
begin

text \<open>
  Package \<^verbatim>\<open>internal/daemon\<close>: the configuration (\<^verbatim>\<open>config.go\<close>). A profile is one isolation
  policy; \<^verbatim>\<open>Options\<close> is the only place where a policy becomes library options. The theorems
  show what a validated configuration guarantees for every sandbox created under it. The
  YAML decoder is a third-party package and a parameter of \<^verbatim>\<open>Load\<close>.
\<close>

section \<open>Data\<close>

record TLSConfig =
  tls_CertFile :: string
  tls_KeyFile :: string
  tls_ClientCAFile :: string
  tls_AllowedClientCNs :: "string list"

record ListenConfig =
  ln_Address :: string
  ln_TLS :: TLSConfig

record RegistryAuth =
  ra_Username :: string
  ra_Password :: string

record Profile =
  pf_Image :: string
  pf_Runtime :: string
  pf_Egress :: string
  pf_User :: string
  pf_CPUs :: float64
  pf_MemoryMB :: int
  pf_DiskMB :: int
  pf_MaxProcesses :: int
  pf_MaxSandboxes :: int
  pf_IdleTimeout :: duration
  pf_MaxAge :: duration
  pf_DefaultTimeout :: duration
  pf_MaxTimeout :: duration
  pf_RegistryAuth :: "RegistryAuth option"

record Config =
  cf_Socket :: string
  cf_SocketGroup :: string
  cf_Listen :: "ListenConfig option"
  cf_ReapInterval :: duration
  cf_Profiles :: "(string \<times> Profile) list"

definition IsWildcardHost :: "ListenConfig \<Rightarrow> bool" where
  "IsWildcardHost l =
     (case splitHostPort (ln_Address l) of
        None \<Rightarrow> False
      | Some (host, _) \<Rightarrow>
          if host = [] then True
          else case parseIP host of None \<Rightarrow> False | Some ip \<Rightarrow> isUnspecified ip)"

section \<open>Options\<close>

text \<open>Shifting an \<^verbatim>\<open>int64\<close> left by twenty bits wraps around.\<close>

definition mega :: "int \<Rightarrow> int" where
  "mega n = wrap64 (n * 2 ^ 20)"

definition Options :: "Profile \<Rightarrow> CreateOption list" where
  "Options p =
     [WithImage (pf_Image p),
      WithResources \<lparr> CPUs = pf_CPUs p, MemoryBytes = mega (pf_MemoryMB p), DiskBytes = mega (pf_DiskMB p),
                      MaxProcesses = pf_MaxProcesses p \<rparr>,
      WithLifetime \<lparr> IdleTimeout = pf_IdleTimeout p, MaxAge = pf_MaxAge p \<rparr>,
      WithCommandTimeouts (pf_DefaultTimeout p) (pf_MaxTimeout p)]
     @ (if pf_Runtime p \<noteq> [] then [WithRuntime (pf_Runtime p)] else [])
     @ (if pf_User p \<noteq> [] then [WithUser (pf_User p)] else [])
     @ (if pf_Egress p = ''unrestricted'' then [WithEgress EgressUnrestricted] else [])"

definition DigestPinned :: "Profile \<Rightarrow> bool" where
  "DigestPinned p = IsDigestPinned (pf_Image p)"

section \<open>Validation\<close>

definition Profile_validate :: "Profile \<Rightarrow> gerr option" where
  "Profile_validate p =
     (if pf_Image p = [] then Some (wrapErr ''%w: profile %q has no image'' ErrInvalid)
      else if \<not> (pf_Egress p = [] \<or> pf_Egress p = ''none'' \<or> pf_Egress p = ''unrestricted'')
      then Some (wrapErr ''%w: profile %q has egress %q, want none or unrestricted'' ErrInvalid)
      else if f64_neg (pf_CPUs p) then Some (wrapErr ''%w: profile %q has negative cpus %v'' ErrInvalid)
      else if pf_MemoryMB p < 0 then Some (wrapErr ''%w: profile %q has negative memory_mb %d'' ErrInvalid)
      else if pf_DiskMB p < 0 then Some (wrapErr ''%w: profile %q has negative disk_mb %d'' ErrInvalid)
      else if pf_MaxProcesses p < 0 then Some (wrapErr ''%w: profile %q has negative max_processes %d'' ErrInvalid)
      else if pf_MaxSandboxes p < 0
      then Some (wrapErr ''%w: profile %q has negative max_sandboxes %d; omit it for unlimited'' ErrInvalid)
      else if pf_IdleTimeout p < 0
      then Some (wrapErr ''%w: profile %q has negative idle_timeout %s, which silently disables reaping'' ErrInvalid)
      else if pf_MaxAge p < 0
      then Some (wrapErr ''%w: profile %q has negative max_age %s, which silently disables reaping'' ErrInvalid)
      else if pf_DefaultTimeout p < 0 then Some (wrapErr ''%w: profile %q has negative default_timeout %s'' ErrInvalid)
      else if pf_MaxTimeout p < 0 then Some (wrapErr ''%w: profile %q has negative max_timeout %s'' ErrInvalid)
      else if pf_MaxTimeout p > 0 \<and> pf_DefaultTimeout p > pf_MaxTimeout p
      then Some (wrapErr ''%w: profile %q has default_timeout %s above max_timeout %s'' ErrInvalid)
      else map_option (\<lambda>err. Errorf ''profile %q: %w'' [err]) (Spec_Validate (newSpec (Options p))))"

definition ListenConfig_validate :: "ListenConfig \<Rightarrow> gerr option" where
  "ListenConfig_validate l =
     (if ln_Address l = [] then Some (wrapErr ''%w: listen.address is empty; a bind address has no default'' ErrInvalid)
      else case splitHostPort (ln_Address l) of
        None \<Rightarrow> Some (Errorf ''%w: listen.address %q is not host:port: %w'' [Sentinel ErrInvalid, Sentinel (LibraryErr ''net'')])
      | Some (_, port) \<Rightarrow>
          if port = [] \<or> port = ''0'' then Some (wrapErr ''%w: listen.address %q must name a fixed port'' ErrInvalid)
          else if tls_CertFile (ln_TLS l) = [] then Some (wrapErr ''%w: listen.tls.cert_file is empty'' ErrInvalid)
          else if tls_KeyFile (ln_TLS l) = [] then Some (wrapErr ''%w: listen.tls.key_file is empty'' ErrInvalid)
          else if tls_ClientCAFile (ln_TLS l) = [] then Some (wrapErr ''%w: listen.tls.client_ca_file is empty'' ErrInvalid)
          else if tls_AllowedClientCNs (ln_TLS l) = []
          then Some (wrapErr ''%w: listen.tls.allowed_client_cns is empty'' ErrInvalid)
          else if [] \<in> set (tls_AllowedClientCNs (ln_TLS l))
          then Some (wrapErr ''%w: listen.tls.allowed_client_cns contains an empty name'' ErrInvalid)
          else None)"

text \<open>The loop over the profiles, with the credential seen so far.\<close>

fun validateProfiles :: "RegistryAuth option \<Rightarrow> (string \<times> Profile) list \<Rightarrow> gerr option" where
  "validateProfiles auth [] = None"
| "validateProfiles auth ((name, p) # ps) =
     (case Profile_validate p of
        Some err \<Rightarrow> Some err
      | None \<Rightarrow>
          (case pf_RegistryAuth p of
             None \<Rightarrow> validateProfiles auth ps
           | Some a \<Rightarrow>
               (case auth of
                  None \<Rightarrow> validateProfiles (Some a) ps
                | Some b \<Rightarrow>
                    if a \<noteq> b
                    then Some (wrapErr ''%w: profiles %q and %q specify different registry_auth'' ErrInvalid)
                    else validateProfiles auth ps)))"

text \<open>\<^verbatim>\<open>Config.validate\<close> returns the configuration with the reap interval filled in.\<close>

definition Config_validate :: "Config \<Rightarrow> Config result" where
  "Config_validate c =
     (if cf_Socket c = [] \<and> cf_Listen c = None
      then Inl (wrapErr ''%w: neither socket nor listen is set; the daemon would accept nothing'' ErrInvalid)
      else case (case cf_Listen c of None \<Rightarrow> None | Some l \<Rightarrow> ListenConfig_validate l) of
        Some err \<Rightarrow> Inl err
      | None \<Rightarrow>
          if cf_Profiles c = [] then Inl (wrapErr ''%w: no profiles configured; the daemon would accept nothing'' ErrInvalid)
          else if cf_ReapInterval c < 0 then Inl (wrapErr ''%w: reap_interval %s is negative'' ErrInvalid)
          else
            let c = (if cf_ReapInterval c = 0 then c\<lparr>cf_ReapInterval := minutes 1\<rparr> else c)
            in case validateProfiles None (cf_Profiles c) of Some err \<Rightarrow> Inl err | None \<Rightarrow> Inr c)"

definition Load :: "(string \<Rightarrow> Config result) \<Rightarrow> string result \<Rightarrow> Config result" where
  "Load decodeYAML file =
     (case file of
        Inl err \<Rightarrow> Inl (Errorf ''open config: %w'' [err])
      | Inr content \<Rightarrow>
          (case decodeYAML content of
             Inl err \<Rightarrow> Inl (Errorf ''parse config %q: %w'' [err])
           | Inr cfg \<Rightarrow> Config_validate cfg))"

section \<open>What validation establishes\<close>

lemma Profile_validate_None:
  "Profile_validate p = None \<longleftrightarrow>
     pf_Image p \<noteq> [] \<and> pf_Egress p \<in> {[], ''none'', ''unrestricted''} \<and> \<not> f64_neg (pf_CPUs p) \<and>
     0 \<le> pf_MemoryMB p \<and> 0 \<le> pf_DiskMB p \<and> 0 \<le> pf_MaxProcesses p \<and> 0 \<le> pf_MaxSandboxes p \<and>
     0 \<le> pf_IdleTimeout p \<and> 0 \<le> pf_MaxAge p \<and> 0 \<le> pf_DefaultTimeout p \<and> 0 \<le> pf_MaxTimeout p \<and>
     (0 < pf_MaxTimeout p \<longrightarrow> pf_DefaultTimeout p \<le> pf_MaxTimeout p) \<and>
     Spec_Validate (newSpec (Options p)) = None"
  unfolding Profile_validate_def by (simp add: not_less)

lemma Options_lib: "\<forall>opt \<in> set (Options p). lib_option opt"
  by (auto simp: Options_def intro: lib_option.intros)

lemma Options_policy:
  "newSpec (Options p) = defaultSpec
     \<lparr> sp_Image := pf_Image p,
       sp_Runtime := (if pf_Runtime p = [] then DefaultRuntime else pf_Runtime p),
       sp_User := (if pf_User p = [] then DefaultUser else pf_User p),
       sp_Egress := (if pf_Egress p = ''unrestricted'' then EgressUnrestricted else EgressNone),
       sp_Resources :=
         \<lparr> CPUs = (if f64_pos (pf_CPUs p) then pf_CPUs p else DefaultCPUs),
           MemoryBytes = (if 0 < mega (pf_MemoryMB p) then mega (pf_MemoryMB p) else DefaultMemoryBytes),
           DiskBytes = (if 0 < mega (pf_DiskMB p) then mega (pf_DiskMB p) else DefaultDiskBytes),
           MaxProcesses = (if 0 < pf_MaxProcesses p then pf_MaxProcesses p else DefaultMaxProcesses) \<rparr>,
       sp_Lifetime :=
         \<lparr> IdleTimeout = (if pf_IdleTimeout p = 0 then DefaultIdleTimeout else pf_IdleTimeout p),
           MaxAge = (if pf_MaxAge p = 0 then DefaultMaxAge else pf_MaxAge p) \<rparr>,
       sp_DefaultTimeout := (if 0 < pf_DefaultTimeout p then pf_DefaultTimeout p else DefaultCommandTimeout),
       sp_MaxTimeout := (if 0 < pf_MaxTimeout p then pf_MaxTimeout p else MaxCommandTimeout) \<rparr>"
  by (simp add: newSpec_def Options_def option_defs Let_def defaultSpec_def)

text \<open>The credentials the profiles name, in the order of the loop.\<close>

definition auths :: "(string \<times> Profile) list \<Rightarrow> RegistryAuth list" where
  "auths ps = List.map_filter (\<lambda>(n, p). pf_RegistryAuth p) ps"

lemma auths_simps [simp]:
  "auths [] = []"
  "auths ((n, p) # ps) = (case pf_RegistryAuth p of None \<Rightarrow> auths ps | Some a \<Rightarrow> a # auths ps)"
  by (simp_all add: auths_def map_filter_simps split: option.splits)

lemma set_auths: "set (auths ps) = {a. \<exists>n p. (n, p) \<in> set ps \<and> pf_RegistryAuth p = Some a}"
  by (induction ps) (force split: option.splits)+

lemma validateProfiles_None:
  "validateProfiles auth ps = None \<longleftrightarrow>
     (\<forall>(n, p) \<in> set ps. Profile_validate p = None) \<and>
     (\<forall>a \<in> set (auths ps). a = (case auth of None \<Rightarrow> hd (auths ps) | Some b \<Rightarrow> b))"
proof (induction auth ps rule: validateProfiles.induct)
  case (2 auth name p ps)
  show ?case
  proof (cases "Profile_validate p")
    case None
    with 2 show ?thesis by (cases "pf_RegistryAuth p"; cases auth) auto
  qed simp
qed simp

lemma Config_validate_Inr:
  assumes "Config_validate c = Inr c'"
  shows "cf_Profiles c' = cf_Profiles c" "cf_Profiles c \<noteq> []" "0 < cf_ReapInterval c'"
    "cf_Listen c' = cf_Listen c" "cf_Socket c' = cf_Socket c" "cf_Socket c \<noteq> [] \<or> cf_Listen c \<noteq> None"
    "\<And>l. cf_Listen c = Some l \<Longrightarrow> ListenConfig_validate l = None"
    "validateProfiles None (cf_Profiles c) = None"
  using assms
  by (auto simp: Config_validate_def Let_def minutes_def seconds_def split: if_splits option.splits)

text \<open>The spec of a valid profile: every bound is set, and no lifetime bound is switched off.\<close>

lemma valid_profile_spec:
  assumes "Profile_validate p = None"
  shows "Spec_Validate (newSpec (Options p)) = None" "bounded_spec (newSpec (Options p))"
    "0 < IdleTimeout (sp_Lifetime (newSpec (Options p)))" "0 < MaxAge (sp_Lifetime (newSpec (Options p)))"
    "sp_Image (newSpec (Options p)) \<noteq> []"
    "sp_Egress (newSpec (Options p)) = EgressUnrestricted \<longleftrightarrow> pf_Egress p = ''unrestricted''"
  using assms newSpec_bounded_lib [OF Options_lib]
  by (auto simp: Profile_validate_None Options_policy spec_defaults EgressNone_def EgressUnrestricted_def)

lemma valid_config_profile:
  "Config_validate c = Inr c' \<Longrightarrow> (n, p) \<in> set (cf_Profiles c') \<Longrightarrow> Profile_validate p = None"
  using Config_validate_Inr [of c c'] by (auto simp: validateProfiles_None)

section \<open>Properties\<close>


definition demo_profile :: Profile where
  "demo_profile =
     \<lparr> pf_Image = ''img'', pf_Runtime = [], pf_Egress = [], pf_User = [], pf_CPUs = Fin 0, pf_MemoryMB = 0, pf_DiskMB = 0,
       pf_MaxProcesses = 0, pf_MaxSandboxes = 0, pf_IdleTimeout = 0, pf_MaxAge = 0, pf_DefaultTimeout = 0, pf_MaxTimeout = 0,
       pf_RegistryAuth = None \<rparr>"

definition demo_config :: Config where
  "demo_config =
     \<lparr> cf_Socket = ''/run/openbloxd.sock'', cf_SocketGroup = [], cf_Listen = None, cf_ReapInterval = 0,
       cf_Profiles = [(''py'', demo_profile)] \<rparr>"

lemma mega_0 [simp]: "mega 0 = 0"
  by (simp add: mega_def in_int64_def)

lemma demo_profile_valid:
  "0 \<le> d \<Longrightarrow> Profile_validate (demo_profile\<lparr>pf_DefaultTimeout := d\<rparr>) = None"
  by (simp add: Profile_validate_None Spec_Validate_None Options_policy demo_profile_def validateUser_default defaultSpec_def)
    (simp add: spec_defaults)

lemma demo_config_valid: "Config_validate demo_config = Inr (demo_config\<lparr>cf_ReapInterval := minutes 1\<rparr>)"
  using demo_profile_valid [of 0] by (simp add: Config_validate_def demo_config_def demo_profile_def)


text \<open>
  The check of the default against the maximum looks at the configured values only: a
  default above the library's maximum passes when no maximum is configured.
\<close>

lemma default_timeout_above_max:
  "Profile_validate (demo_profile\<lparr>pf_DefaultTimeout := minutes 20\<rparr>) = None \<and>
   sp_MaxTimeout (newSpec (Options (demo_profile\<lparr>pf_DefaultTimeout := minutes 20\<rparr>)))
     < sp_DefaultTimeout (newSpec (Options (demo_profile\<lparr>pf_DefaultTimeout := minutes 20\<rparr>)))"
  using demo_profile_valid [of "minutes 20"]
  by (simp add: Options_policy demo_profile_def spec_defaults)

text \<open>A memory bound large enough to overflow the shift is dropped for the library's default.\<close>

lemma memory_mb_wraps:
  "Profile_validate (demo_profile\<lparr>pf_MemoryMB := 2 ^ 44\<rparr>) = None \<and>
   MemoryBytes (sp_Resources (newSpec (Options (demo_profile\<lparr>pf_MemoryMB := 2 ^ 44\<rparr>)))) = DefaultMemoryBytes"
proof -
  have "mega (2 ^ 44) = 0" by (simp add: mega_def wrap64_def)
  then show ?thesis
    by (simp add: Profile_validate_None Spec_Validate_None Options_policy demo_profile_def validateUser_default defaultSpec_def)
      (simp add: spec_defaults)
qed

end
