(* ===== verification/Daemon_Server.thy ===== *)
theory Daemon_Server
  imports Go_Mux Broker_Wire Daemon_Config
begin

text \<open>
  Package \<^verbatim>\<open>internal/daemon\<close>: the requests (\<^verbatim>\<open>server.go\<close>, \<^verbatim>\<open>sandboxes.go\<close>, \<^verbatim>\<open>exec.go\<close>, \<^verbatim>\<open>dial.go\<close>)
  and the capacity check (\<^verbatim>\<open>capacity.go\<close>). Every handler is a state transformer over the
  world of an arbitrary backend; the reservations of \<^verbatim>\<open>capacity\<close> are passed along. The locale
  \<open>guarded_backend\<close> is what the server needs of a backend to keep a promise about the calls
  it makes, and it is interpreted on the Docker backend.
\<close>

section \<open>The backend interface (server.go)\<close>

text \<open>
  The methods of \<^verbatim>\<open>sandbox.Backend\<close> and \<^verbatim>\<open>sandbox.Sandbox\<close> the daemon calls, and its own two.
  \<open>'h\<close> is a handle, \<open>'r\<close> a reader, \<open>'c\<close> a connection; \<open>rd_Copy\<close> drains a reader and tells
  whether it ended without an error.
\<close>

record ('w, 'h, 'r, 'c) daemonBackend =
  bk_Create :: "string \<Rightarrow> CreateOption list \<Rightarrow> ('w, 'h result) state"
  bk_Open :: "string \<Rightarrow> ('w, 'h result) state"
  bk_List :: "('w, Info list result) state"
  bk_Destroy :: "string \<Rightarrow> ('w, gerr option) state"
  bk_DialPort :: "string \<Rightarrow> int \<Rightarrow> ('w, 'c result) state"
  bk_Reap :: "('w, string list \<times> gerr option) state"
  sb_Info :: "'h \<Rightarrow> Info"
  sb_Exec :: "'h \<Rightarrow> Command \<Rightarrow> ('w, Result result) state"
  sb_WriteFile :: "'h \<Rightarrow> string \<Rightarrow> nat \<Rightarrow> string \<Rightarrow> ('w, gerr option) state"
  sb_ReadFile :: "'h \<Rightarrow> string \<Rightarrow> ('w, 'r result) state"
  sb_StartProcess :: "'h \<Rightarrow> string \<Rightarrow> Command \<Rightarrow> ('w, gerr option) state"
  sb_Stop :: "'h \<Rightarrow> ('w, gerr option) state"
  rd_Copy :: "'r \<Rightarrow> ('w, string \<times> bool) state"

text \<open>The Docker backend behind the interface; how the bytes of a stream arrive is a parameter.\<close>

definition dockerBackend ::
    "'w engine \<Rightarrow> Backend \<Rightarrow> (string \<Rightarrow> ('w, string \<times> bool) state) \<Rightarrow> ('w, dockerSandbox, string, execConn) daemonBackend" where
  "dockerBackend eng b drain =
     \<lparr> bk_Create = Create eng b, bk_Open = Open eng b, bk_List = ListSandboxes eng, bk_Destroy = Destroy eng,
       bk_DialPort = DialPort eng b, bk_Reap = Reap eng,
       sb_Info = ds_info, sb_Exec = Exec eng, sb_WriteFile = WriteFile eng, sb_ReadFile = ReadFile eng,
       sb_StartProcess = StartProcess eng, sb_Stop = Stop eng, rd_Copy = drain \<rparr>"

section \<open>Answers\<close>

text \<open>\<open>BStream\<close> is a file with whether it was sent whole: a broken one drops the connection.\<close>

datatype body =
    BNone
  | BError WireError
  | BInfo WireInfo
  | BInfos "WireInfo list"
  | BExec ExecResponse
  | BProfiles "ProfileInfo list"
  | BStream string bool
  | BText string

record response =
  rs_Status :: nat
  rs_Body :: body

definition respond :: "nat \<Rightarrow> body \<Rightarrow> response" where
  "respond st b = \<lparr> rs_Status = st, rs_Body = b \<rparr>"

definition fail :: "gerr \<Rightarrow> response" where
  "fail err =
     (case KindOf err of (kind, st) \<Rightarrow>
        respond st (BError
          \<lparr> we_Message = (if kind = KindInternal then MsgText ''internal error'' else MsgOf err), we_Kind = kind \<rparr>))"

text \<open>
  What \<^verbatim>\<open>respond\<close> puts on the wire. The encoder writes nothing for a value it cannot encode,
  a time whose year does not have four digits, and ends a value with a newline.
\<close>

definition encodeBody :: "(gerr \<Rightarrow> string) \<Rightarrow> body \<Rightarrow> string" where
  "encodeBody render b =
     (case b of
        BNone \<Rightarrow> []
      | BError e \<Rightarrow> print_json (WireError_json render e) @ nl
      | BInfo i \<Rightarrow> if four_digit_year (w_CreatedAt i) then print_json (WireInfo_json i) @ nl else []
      | BInfos is \<Rightarrow>
          if list_all (\<lambda>i. four_digit_year (w_CreatedAt i)) is then print_json (JArr (map WireInfo_json is)) @ nl else []
      | BExec r \<Rightarrow> print_json (ExecResponse_json r) @ nl
      | BProfiles ps \<Rightarrow> print_json (JArr (map ProfileInfo_json ps)) @ nl
      | BStream s ok \<Rightarrow> s
      | BText s \<Rightarrow> s)"

section \<open>Bodies\<close>

text \<open>
  \<^verbatim>\<open>decode\<close>: one value of at most a megabyte, not null, nothing behind it, no unknown member.
  A body beyond the limit fails while the value or while the end is looked for.
\<close>

definition decode :: "(bool \<Rightarrow> json \<Rightarrow> 'a option) \<Rightarrow> string \<Rightarrow> 'a result" where
  "decode dec reqBody =
     (if 2 ^ 20 < length reqBody then Inl (wrapErr ''%w: %s'' ErrInvalid)
      else case readValue reqBody of
        None \<Rightarrow> Inl (wrapErr ''%w: %s'' ErrInvalid)
      | Some (raw, rest) \<Rightarrow>
          if raw = JNull then Inl (wrapErr ''%w: body is null, want a JSON object'' ErrInvalid)
          else if ws rest \<noteq> [] then Inl (wrapErr ''%w: body has trailing data after the JSON value'' ErrInvalid)
          else case dec True raw of
            None \<Rightarrow> Inl (wrapErr ''%w: %s'' ErrInvalid)
          | Some v \<Rightarrow> Inr v)"

section \<open>Capacity (capacity.go)\<close>

definition labelProfile :: string where "labelProfile = ''openbloxd.profile''"

text \<open>The reservations in flight, by profile.\<close>

type_synonym capacity = "(string \<times> int) list"

definition pendingOf :: "capacity \<Rightarrow> string \<Rightarrow> int" where
  "pendingOf c profile = (case map_of c profile of None \<Rightarrow> 0 | Some n \<Rightarrow> n)"

definition liveUnder :: "string \<Rightarrow> Info list \<Rightarrow> int" where
  "liveUnder profile infos = int (length (filter (\<lambda>i. mget (i_Labels i) labelProfile = profile) infos))"

definition countLive :: "('w, 'h, 'r, 'c) daemonBackend \<Rightarrow> string \<Rightarrow> ('w, int result) state" where
  "countLive be profile = do {
     r \<leftarrow> bk_List be;
     State_Monad.return (case r of Inl err \<Rightarrow> Inl err | Inr infos \<Rightarrow> Inr (liveUnder profile infos)) }"

definition release :: "string \<Rightarrow> capacity \<Rightarrow> capacity" where
  "release profile c =
     (let n = pendingOf c profile - 1 in if n \<le> 0 then mdel profile c else mput profile n c)"

text \<open>The decision \<^verbatim>\<open>reserve\<close> takes under its lock, once the live sandboxes are counted.\<close>

definition admit :: "capacity \<Rightarrow> string \<Rightarrow> int \<Rightarrow> int \<Rightarrow> capacity result" where
  "admit c profile limit live =
     (if live + pendingOf c profile \<ge> limit
      then Inl (wrapErr ''%w: profile %q holds %d of %d sandboxes'' ErrAtCapacity)
      else Inr (mput profile (pendingOf c profile + 1) c))"

definition reserve ::
    "('w, 'h, 'r, 'c) daemonBackend \<Rightarrow> capacity \<Rightarrow> string \<Rightarrow> int \<Rightarrow> ('w, (capacity \<Rightarrow> capacity) result \<times> capacity) state" where
  "reserve be c profile limit =
     (if limit \<le> 0 then State_Monad.return (Inr (\<lambda>c. c), c)
      else do {
        r \<leftarrow> countLive be profile;
        State_Monad.return (case r of
          Inl err \<Rightarrow> (Inl err, c)
        | Inr live \<Rightarrow>
            (case admit c profile limit live of
               Inl err \<Rightarrow> (Inl err, c)
             | Inr c' \<Rightarrow> (Inr (release profile), c'))) })"

section \<open>Sandboxes (sandboxes.go)\<close>

definition callerLabels :: "gomap \<Rightarrow> gomap" where
  "callerLabels labels = (if map_of labels labelProfile = None then labels else filter (\<lambda>(k, _). k \<noteq> labelProfile) labels)"

definition infoOf :: "Info \<Rightarrow> string \<Rightarrow> WireInfo" where
  "infoOf i profile =
     \<lparr> w_Name = i_Name i, w_ID = i_ID i, w_Image = i_Image i, w_State = i_State i, w_CreatedAt = i_CreatedAt i,
       w_Profile = profile, w_Labels = callerLabels (i_Labels i) \<rparr>"

text \<open>The loop over the caller's labels; each becomes an option unless it is the reserved one.\<close>

fun labelOptions :: "gomap \<Rightarrow> CreateOption list result" where
  "labelOptions [] = Inr []"
| "labelOptions ((k, v) # ls) =
     (if k = labelProfile then Inl (wrapErr ''%w: label %q is reserved'' ErrInvalid)
      else case labelOptions ls of Inl err \<Rightarrow> Inl err | Inr opts \<Rightarrow> Inr (WithLabel k v # opts))"

definition createOptions :: "Profile \<Rightarrow> CreateRequest \<Rightarrow> CreateOption list \<Rightarrow> CreateOption list" where
  "createOptions profile req lopts =
     Options profile @ [WithLabel labelProfile (cr_Profile req)]
     @ (if cr_Env req \<noteq> [] then [WithEnv (cr_Env req)] else []) @ lopts"

definition profileConflict :: gerr where
  "profileConflict = wrapErr ''%w: %q exists under profile %q, requested %q'' ErrProfileConflict"

text \<open>The part of \<^verbatim>\<open>handleCreate\<close> behind the capacity check.\<close>

definition createUnder :: "('w, 'h, 'r, 'c) daemonBackend \<Rightarrow> Profile \<Rightarrow> CreateRequest \<Rightarrow> ('w, response) state" where
  "createUnder be profile req =
     (case labelOptions (cr_Labels req) of
        Inl err \<Rightarrow> State_Monad.return (fail err)
      | Inr lopts \<Rightarrow> do {
          r \<leftarrow> bk_Create be (cr_Name req) (createOptions profile req lopts);
          State_Monad.return (case r of
            Inl err \<Rightarrow> fail err
          | Inr sb \<Rightarrow>
              (let info = sb_Info be sb; got = mget (i_Labels info) labelProfile
               in if got \<noteq> cr_Profile req then fail profileConflict
                  else respond 201 (BInfo (infoOf info got)))) })"

text \<open>Whether the name is taken already, under the requested profile.\<close>

definition existing :: "('w, 'h, 'r, 'c) daemonBackend \<Rightarrow> CreateRequest \<Rightarrow> 'h result \<Rightarrow> bool result" where
  "existing be req opened =
     (case opened of
        Inr sb \<Rightarrow>
          if mget (i_Labels (sb_Info be sb)) labelProfile \<noteq> cr_Profile req then Inl profileConflict else Inr True
      | Inl err \<Rightarrow> if errIs err ErrNotFound then Inr False else Inl err)"

definition handleCreate ::
    "('w, 'h, 'r, 'c) daemonBackend \<Rightarrow> Config \<Rightarrow> capacity \<Rightarrow> string \<Rightarrow> ('w, response \<times> capacity) state" where
  "handleCreate be cfg c reqBody =
     (case decode CreateRequest_dec reqBody of
        Inl err \<Rightarrow> State_Monad.return (fail err, c)
      | Inr req \<Rightarrow>
          if cr_Name req = [] then State_Monad.return (fail (wrapErr ''%w: name is empty'' ErrInvalid), c)
          else case map_of (cf_Profiles cfg) (cr_Profile req) of
            None \<Rightarrow> State_Monad.return (fail (wrapErr ''%w: no profile named %q'' ErrInvalid), c)
          | Some profile \<Rightarrow> do {
              opened \<leftarrow> bk_Open be (cr_Name req);
              (case existing be req opened of
                 Inl err \<Rightarrow> State_Monad.return (fail err, c)
               | Inr True \<Rightarrow> do {
                   r \<leftarrow> createUnder be profile req;
                   State_Monad.return (r, c) }
               | Inr False \<Rightarrow> do {
                   (res, c') \<leftarrow> reserve be c (cr_Profile req) (pf_MaxSandboxes profile);
                   (case res of
                      Inl err \<Rightarrow> State_Monad.return (fail err, c')
                    | Inr rel \<Rightarrow> do {
                        r \<leftarrow> createUnder be profile req;
                        State_Monad.return (r, rel c') }) }) })"

definition handleGet :: "('w, 'h, 'r, 'c) daemonBackend \<Rightarrow> string \<Rightarrow> ('w, response) state" where
  "handleGet be name = do {
     r \<leftarrow> bk_Open be name;
     State_Monad.return (case r of
       Inl err \<Rightarrow> fail err
     | Inr sb \<Rightarrow> respond 200 (BInfo (infoOf (sb_Info be sb) (mget (i_Labels (sb_Info be sb)) labelProfile)))) }"

definition handleList :: "('w, 'h, 'r, 'c) daemonBackend \<Rightarrow> ('w, response) state" where
  "handleList be = do {
     r \<leftarrow> bk_List be;
     State_Monad.return (case r of
       Inl err \<Rightarrow> fail err
     | Inr infos \<Rightarrow> respond 200 (BInfos (map (\<lambda>i. infoOf i (mget (i_Labels i) labelProfile)) infos))) }"

text \<open>\<^verbatim>\<open>fail\<close> on an error, otherwise 204 without a body.\<close>

definition noContent :: "gerr option \<Rightarrow> response" where
  "noContent err = (case err of Some e \<Rightarrow> fail e | None \<Rightarrow> respond 204 BNone)"

definition handleDestroy :: "('w, 'h, 'r, 'c) daemonBackend \<Rightarrow> string \<Rightarrow> ('w, response) state" where
  "handleDestroy be name = do { err \<leftarrow> bk_Destroy be name; State_Monad.return (noContent err) }"

definition handleStop :: "('w, 'h, 'r, 'c) daemonBackend \<Rightarrow> string \<Rightarrow> ('w, response) state" where
  "handleStop be name = do {
     r \<leftarrow> bk_Open be name;
     (case r of
        Inl err \<Rightarrow> State_Monad.return (fail err)
      | Inr sb \<Rightarrow> do { err \<leftarrow> sb_Stop be sb; State_Monad.return (noContent err) }) }"


section \<open>Commands and files (exec.go)\<close>

definition filePerm :: nat where "filePerm = 420"

definition handleExec :: "('w, 'h, 'r, 'c) daemonBackend \<Rightarrow> string \<Rightarrow> string \<Rightarrow> ('w, response) state" where
  "handleExec be name reqBody =
     (case decode ExecRequest_dec reqBody of
        Inl err \<Rightarrow> State_Monad.return (fail err)
      | Inr req \<Rightarrow>
          (case (if er_Timeout req = [] then Some 0 else parseDuration (er_Timeout req)) of
             None \<Rightarrow> State_Monad.return (fail (Errorf ''%w: timeout %q: %w'' [Sentinel ErrInvalid, errorsNew ''time: invalid duration'']))
           | Some timeout \<Rightarrow> do {
               opened \<leftarrow> bk_Open be name;
               (case opened of
                  Inl err \<Rightarrow> State_Monad.return (fail err)
                | Inr sb \<Rightarrow> do {
                    r \<leftarrow> sb_Exec be sb
                      \<lparr> c_Argv = er_Argv req, c_Env = er_Env req, c_Dir = er_Dir req, c_Stdin = None, c_Timeout = timeout \<rparr>;
                    State_Monad.return (case r of
                      Inl err \<Rightarrow> fail err
                    | Inr res \<Rightarrow> respond 200 (BExec
                        \<lparr> x_Stdout = r_Stdout res, x_Stderr = r_Stderr res, x_ExitCode = r_ExitCode res,
                          x_Truncated = r_Truncated res, x_Stopped = r_Stopped res, x_OOMKilled = r_OOMKilled res \<rparr>)) }) }))"

definition filePath :: "string \<Rightarrow> string result" where
  "filePath p = (if isAbs p then Inr p else Inl (wrapErr ''%w: path %q is not absolute'' ErrInvalid))"

definition handleWriteFile :: "('w, 'h, 'r, 'c) daemonBackend \<Rightarrow> string \<Rightarrow> string \<Rightarrow> string \<Rightarrow> ('w, response) state" where
  "handleWriteFile be name path reqBody = do {
     opened \<leftarrow> bk_Open be name;
     (case opened of
        Inl err \<Rightarrow> State_Monad.return (fail err)
      | Inr sb \<Rightarrow>
          (case filePath path of
             Inl err \<Rightarrow> State_Monad.return (fail err)
           | Inr dest \<Rightarrow> do {
               err \<leftarrow> sb_WriteFile be sb dest filePerm reqBody;
               State_Monad.return (noContent err) })) }"

definition handleReadFile :: "('w, 'h, 'r, 'c) daemonBackend \<Rightarrow> string \<Rightarrow> string \<Rightarrow> ('w, response) state" where
  "handleReadFile be name path = do {
     opened \<leftarrow> bk_Open be name;
     (case opened of
        Inl err \<Rightarrow> State_Monad.return (fail err)
      | Inr sb \<Rightarrow>
          (case filePath path of
             Inl err \<Rightarrow> State_Monad.return (fail err)
           | Inr dest \<Rightarrow> do {
               r \<leftarrow> sb_ReadFile be sb dest;
               (case r of
                  Inl err \<Rightarrow> State_Monad.return (fail err)
                | Inr rc \<Rightarrow> do {
                    (content, whole) \<leftarrow> rd_Copy be rc;
                    State_Monad.return (respond 200 (BStream content whole)) }) })) }"

definition handleStartProcess :: "('w, 'h, 'r, 'c) daemonBackend \<Rightarrow> string \<Rightarrow> string \<Rightarrow> ('w, response) state" where
  "handleStartProcess be name reqBody =
     (case decode ProcessRequest_dec reqBody of
        Inl err \<Rightarrow> State_Monad.return (fail err)
      | Inr req \<Rightarrow> do {
          opened \<leftarrow> bk_Open be name;
          (case opened of
             Inl err \<Rightarrow> State_Monad.return (fail err)
           | Inr sb \<Rightarrow> do {
               err \<leftarrow> sb_StartProcess be sb (pr_Name req)
                 \<lparr> c_Argv = pr_Argv req, c_Env = pr_Env req, c_Dir = pr_Dir req, c_Stdin = None, c_Timeout = 0 \<rparr>;
               State_Monad.return (noContent err) }) })"

section \<open>Dialling and profiles (dial.go)\<close>

text \<open>
  The answer to a dial is the connection that is then copied in both directions; a server
  that cannot give up its own connection answers with an error.
\<close>

datatype 'c answer = Answer response | Upgraded 'c

definition handleDial :: "('w, 'h, 'r, 'c) daemonBackend \<Rightarrow> bool \<Rightarrow> string \<Rightarrow> string \<Rightarrow> ('w, 'c answer) state" where
  "handleDial be hijacked name portText =
     (case atoi portText of
        None \<Rightarrow> State_Monad.return (Answer (fail (wrapErr ''%w: port %q is not in 1-65535'' ErrInvalid)))
      | Some port \<Rightarrow>
          if port < 1 \<or> port > 65535
          then State_Monad.return (Answer (fail (wrapErr ''%w: port %q is not in 1-65535'' ErrInvalid)))
          else do {
            r \<leftarrow> bk_DialPort be name port;
            State_Monad.return (case r of
              Inl err \<Rightarrow> Answer (fail err)
            | Inr upstream \<Rightarrow>
                if hijacked then Upgraded upstream
                else Answer (fail (Errorf ''%w: connection cannot be hijacked: %w'' [Sentinel ErrInvalid, errorsNew ''http: hijack'']))) })"

definition handleProfiles :: "Config \<Rightarrow> response" where
  "handleProfiles cfg =
     respond 200 (BProfiles (sort_key pi_Name
       (map (\<lambda>(name, p). \<lparr> pi_Name = name, pi_IdleTimeout = durString (pf_IdleTimeout p), pi_MaxAge = durString (pf_MaxAge p) \<rparr>)
         (cf_Profiles cfg))))"

section \<open>The route table (server.go)\<close>

datatype endpoint =
    ECreate | EList | EGet | EDestroy | EStop | EExec | EWriteFile | EReadFile | EStartProcess | EDial | EProfiles

definition routes :: "endpoint pattern list" where
  "routes =
     [(''POST'', [Lit ''sandboxes''], ECreate),
      (''GET'', [Lit ''sandboxes''], EList),
      (''GET'', [Lit ''sandboxes'', Wild], EGet),
      (''DELETE'', [Lit ''sandboxes'', Wild], EDestroy),
      (''POST'', [Lit ''sandboxes'', Wild, Lit ''stop''], EStop),
      (''POST'', [Lit ''sandboxes'', Wild, Lit ''exec''], EExec),
      (''PUT'', [Lit ''sandboxes'', Wild, Lit ''files'', Multi], EWriteFile),
      (''GET'', [Lit ''sandboxes'', Wild, Lit ''files'', Multi], EReadFile),
      (''POST'', [Lit ''sandboxes'', Wild, Lit ''processes''], EStartProcess),
      (''GET'', [Lit ''sandboxes'', Wild, Lit ''dial'', Wild], EDial),
      (''GET'', [Lit ''profiles''], EProfiles)]"

record request =
  rq_Method :: string
  rq_Path :: string
  rq_Body :: string

text \<open>\<^verbatim>\<open>PathValue\<close> is empty for a wildcard the pattern does not have.\<close>

definition pathValue :: "string list \<Rightarrow> nat \<Rightarrow> string" where
  "pathValue vs i = (if i < length vs then vs ! i else [])"

definition answering :: "capacity \<Rightarrow> ('w, response) state \<Rightarrow> ('w, 'c answer \<times> capacity) state" where
  "answering c m = State_Monad.bind m (\<lambda>r. State_Monad.return (Answer r, c))"

definition dispatch ::
    "('w, 'h, 'r, 'c) daemonBackend \<Rightarrow> Config \<Rightarrow> bool \<Rightarrow> capacity \<Rightarrow> endpoint \<Rightarrow> string list \<Rightarrow> string \<Rightarrow> ('w, 'c answer \<times> capacity) state" where
  "dispatch be cfg hijacked c e vs reqBody =
     (let name = pathValue vs 0; arg = pathValue vs 1 in
      case e of
        ECreate \<Rightarrow> do { (r, c') \<leftarrow> handleCreate be cfg c reqBody; State_Monad.return (Answer r, c') }
      | EList \<Rightarrow> answering c (handleList be)
      | EGet \<Rightarrow> answering c (handleGet be name)
      | EDestroy \<Rightarrow> answering c (handleDestroy be name)
      | EStop \<Rightarrow> answering c (handleStop be name)
      | EExec \<Rightarrow> answering c (handleExec be name reqBody)
      | EWriteFile \<Rightarrow> answering c (handleWriteFile be name arg reqBody)
      | EReadFile \<Rightarrow> answering c (handleReadFile be name arg)
      | EStartProcess \<Rightarrow> answering c (handleStartProcess be name reqBody)
      | EDial \<Rightarrow> do { a \<leftarrow> handleDial be hijacked name arg; State_Monad.return (a, c) }
      | EProfiles \<Rightarrow> State_Monad.return (Answer (handleProfiles cfg), c))"

definition serve ::
    "('w, 'h, 'r, 'c) daemonBackend \<Rightarrow> Config \<Rightarrow> bool \<Rightarrow> capacity \<Rightarrow> request \<Rightarrow> ('w, 'c answer \<times> capacity) state" where
  "serve be cfg hijacked c rq =
     (case findHandler routes (rq_Method rq) (rq_Path rq) of
        Routed e vs \<Rightarrow> dispatch be cfg hijacked c e vs (rq_Body rq)
      | Redirected loc \<Rightarrow> State_Monad.return (Answer (respond 301 (BText loc)), c)
      | MethodNotAllowed \<Rightarrow> State_Monad.return (Answer (respond 405 (BText ''Method Not Allowed'')), c)
      | NotFound \<Rightarrow> State_Monad.return (Answer (respond 404 (BText ''404 page not found'')), c))"


section \<open>The calls a request can cause\<close>

text \<open>
  A backend is guarded by \<open>P\<close> when every call it makes satisfies it, creation under the
  options that \<open>ok\<close> admits. The server inherits the guard for every request.
\<close>

locale guarded_backend =
  fixes be :: "('w \<times> call list, 'h, 'r, 'c) daemonBackend" and P :: "call \<Rightarrow> bool" and ok :: "CreateOption list \<Rightarrow> bool"
  assumes Create_guarded: "ok opts \<Longrightarrow> emits P (bk_Create be name opts)"
    and Open_guarded: "emits P (bk_Open be name)"
    and List_guarded: "emits P (bk_List be)"
    and Destroy_guarded: "emits P (bk_Destroy be name)"
    and DialPort_guarded: "emits P (bk_DialPort be name port)"
    and Exec_guarded: "emits P (sb_Exec be h cmd)"
    and WriteFile_guarded: "emits P (sb_WriteFile be h dest mode src)"
    and ReadFile_guarded: "emits P (sb_ReadFile be h src)"
    and StartProcess_guarded: "emits P (sb_StartProcess be h pname cmd)"
    and Stop_guarded: "emits P (sb_Stop be h)"
    and Copy_guarded: "emits P (rd_Copy be r)"
begin

lemmas guarded =
  Open_guarded List_guarded Destroy_guarded DialPort_guarded Exec_guarded WriteFile_guarded ReadFile_guarded
  StartProcess_guarded Stop_guarded Copy_guarded

lemma createUnder_guarded:
  assumes "\<And>lopts. labelOptions (cr_Labels req) = Inr lopts \<Longrightarrow> ok (createOptions profile req lopts)"
  shows "emits P (createUnder be profile req)"
  unfolding createUnder_def by (intro emits_intros Create_guarded assms)

lemma reserve_guarded: "emits P (reserve be c profile limit)"
  unfolding reserve_def countLive_def by (intro emits_intros guarded)

lemma handleCreate_guarded:
  assumes "\<And>req profile lopts. map_of (cf_Profiles cfg) (cr_Profile req) = Some profile \<Longrightarrow>
    labelOptions (cr_Labels req) = Inr lopts \<Longrightarrow> ok (createOptions profile req lopts)"
  shows "emits P (handleCreate be cfg c reqBody)"
  unfolding handleCreate_def
  by (auto intro!: emits_intros guarded reserve_guarded createUnder_guarded assms split: prod.splits bool.splits)

lemma serve_guarded:
  assumes "\<And>req profile lopts. map_of (cf_Profiles cfg) (cr_Profile req) = Some profile \<Longrightarrow>
    labelOptions (cr_Labels req) = Inr lopts \<Longrightarrow> ok (createOptions profile req lopts)"
  shows "emits P (serve be cfg hijacked c rq)"
proof -
  note defs = answering_def handleList_def handleGet_def handleDestroy_def handleStop_def handleExec_def
    handleWriteFile_def handleReadFile_def handleStartProcess_def handleDial_def
  have "emits P (dispatch be cfg hijacked c e vs reqBody)" for e vs reqBody
    unfolding dispatch_def Let_def
    by (cases e) (auto simp: defs intro!: emits_intros guarded handleCreate_guarded assms split: prod.splits)
  then show ?thesis unfolding serve_def by (auto intro: emits_return split: routed.splits)
qed

end


section \<open>The Docker backend is guarded\<close>

text \<open>The payload of a container that obeys and records a profile.\<close>

definition runs_under :: "string \<Rightarrow> Profile \<Rightarrow> ContainerConfig \<Rightarrow> HostConfig \<Rightarrow> bool" where
  "runs_under pn p cc hc \<longleftrightarrow>
     (let sp = newSpec (Options p) in
      cc_Image cc = sp_Image sp \<and> cc_User cc = sp_User sp \<and> hc_Runtime hc = sp_Runtime sp \<and>
      hc_NetworkMode hc = (if sp_Egress sp = EgressNone then ''none'' else []) \<and>
      hc_Memory hc = MemoryBytes (sp_Resources sp) \<and> hc_PidsLimit hc = pidsLimit (MaxProcesses (sp_Resources sp)) \<and>
      hc_Tmpfs hc = scratchMounts (DiskBytes (sp_Resources sp)) \<and>
      mget (userLabels (cc_Labels cc)) labelProfile = pn)"

fun daemon_call :: "Config \<Rightarrow> call \<Rightarrow> bool" where
  "daemon_call cfg (CCreate cc hc n) \<longleftrightarrow> hardened cc hc \<and> (\<exists>(pn, p) \<in> set (cf_Profiles cfg). runs_under pn p cc hc)"
| "daemon_call cfg (CExecCreate i e) \<longleftrightarrow> unprivileged e"
| "daemon_call cfg _ \<longleftrightarrow> True"

lemma labelOptions_Inr:
  "labelOptions ls = Inr opts \<Longrightarrow> opts = map (\<lambda>(k, v). WithLabel k v) ls \<and> labelProfile \<notin> fst ` set ls"
  by (induction ls arbitrary: opts) (auto split: if_splits sum.splits)

lemma fold_WithLabel:
  "fold (\<lambda>opt s. opt s) (map (\<lambda>(k, v). WithLabel k v) ls) s = s\<lparr>sp_Labels := fold (\<lambda>(k, v). mput k v) ls (sp_Labels s)\<rparr>"
  by (induction ls arbitrary: s) (auto simp: WithLabel_def)

lemma map_of_fold_mput_notin:
  "k \<notin> fst ` set ls \<Longrightarrow> map_of (fold (\<lambda>(k, v). mput k v) ls m) k = map_of m k"
  by (induction ls arbitrary: m) auto

lemma createOptions_spec:
  assumes "labelOptions (cr_Labels req) = Inr lopts"
  shows "policy (newSpec (createOptions p req lopts)) = policy (newSpec (Options p))"
    "map_of (sp_Labels (newSpec (createOptions p req lopts))) labelProfile = Some (cr_Profile req)"
    "\<forall>opt \<in> set (createOptions p req lopts). lib_option opt"
proof -
  note lo = labelOptions_Inr [OF assms]
  have eq: "newSpec (createOptions p req lopts) = fold (\<lambda>opt s. opt s) lopts
      ((if cr_Env req \<noteq> [] then WithEnv (cr_Env req) else id) (WithLabel labelProfile (cr_Profile req) (newSpec (Options p))))"
    by (simp add: createOptions_def newSpec_append)
  have fl: "policy (fold (\<lambda>opt s. opt s) lopts s) = policy s" for s
    using lo by (simp add: fold_WithLabel policy_def)
  show "policy (newSpec (createOptions p req lopts)) = policy (newSpec (Options p))"
    unfolding eq fl by simp
  show "map_of (sp_Labels (newSpec (createOptions p req lopts))) labelProfile = Some (cr_Profile req)"
    unfolding eq unfolding lo [THEN conjunct1] fold_WithLabel using lo by (simp add: map_of_fold_mput_notin option_defs)
  show "\<forall>opt \<in> set (createOptions p req lopts). lib_option opt"
    using lo Options_lib [of p] by (auto simp: createOptions_def intro: lib_option.intros)
qed

lemma policy_eq:
  "policy s = policy t \<Longrightarrow> sp_Image s = sp_Image t \<and> sp_Runtime s = sp_Runtime t \<and> sp_User s = sp_User t \<and>
     sp_Egress s = sp_Egress t \<and> sp_Resources s = sp_Resources t \<and> sp_Lifetime s = sp_Lifetime t \<and>
     sp_DefaultTimeout s = sp_DefaultTimeout t \<and> sp_MaxTimeout s = sp_MaxTimeout t"
  by (cases s; cases t) (simp add: policy_def)

lemma created_runs_under:
  assumes "labelOptions (cr_Labels req) = Inr lopts"
    and "Spec_Validate (newSpec (createOptions p req lopts)) = None"
    and bc: "buildConfig oor now name (newSpec (createOptions p req lopts)) = (cc, hc)"
  shows "hardened cc hc \<and> runs_under (cr_Profile req) p cc hc"
proof -
  let ?s = "newSpec (createOptions p req lopts)"
  note cs = createOptions_spec [OF assms(1), of p]
  have bd: "bounded_spec ?s" by (rule newSpec_bounded_lib [OF cs(3)])
  then have wf: "wf_map (sp_Labels ?s)" by (simp add: bounded_spec_def)
  have "hardened cc hc" by (rule buildConfig_hardened [OF bc bd assms(2)])
  moreover have "cc_Labels cc = createdLabels now name ?s"
    using cc_Labels_buildConfig [of oor now name ?s] bc by simp
  then have "mget (userLabels (cc_Labels cc)) labelProfile = cr_Profile req"
    by (simp add: mget_def userLabels_created [OF wf] cs(2))
  then have "runs_under (cr_Profile req) p cc hc"
    using policy_eq [OF cs(1)] bc by (auto simp: runs_under_def buildConfig_def Let_def)
  ultimately show ?thesis ..
qed

lemma created_under:
  assumes "map_of (cf_Profiles cfg) (cr_Profile req) = Some p" "labelOptions (cr_Labels req) = Inr lopts"
    and "Spec_Validate (newSpec (createOptions p req lopts)) = None"
    and "buildConfig oor now name (newSpec (createOptions p req lopts)) = (cc, hc)"
  shows "daemon_call cfg (CCreate cc hc n)"
  using created_runs_under [OF assms(2-4)] map_of_SomeD [OF assms(1)] by auto

definition under :: "Config \<Rightarrow> CreateOption list \<Rightarrow> bool" where
  "under cfg opts \<longleftrightarrow> (\<exists>req p lopts. map_of (cf_Profiles cfg) (cr_Profile req) = Some p \<and>
     labelOptions (cr_Labels req) = Inr lopts \<and> opts = createOptions p req lopts)"

lemma harmless_daemon_call: "harmless c \<Longrightarrow> daemon_call cfg c"
  by (cases c) simp_all

lemma sandbox_daemon_call: "emits (sandbox_call s unprivileged) m \<Longrightarrow> emits (daemon_call cfg) m"
proof (erule emits_weaken)
  fix c show "sandbox_call s unprivileged c \<Longrightarrow> daemon_call cfg c" by (cases c) simp_all
qed

interpretation docker_daemon:
  guarded_backend "dockerBackend (traced eng) b (\<lambda>r. lift (drain r))" "daemon_call cfg" "under cfg"
  for eng :: "'w engine" and b drain cfg
proof
  show "under cfg opts \<Longrightarrow> emits (daemon_call cfg) (bk_Create (dockerBackend (traced eng) b (\<lambda>r. lift (drain r))) name opts)" for opts name
    unfolding under_def dockerBackend_def daemonBackend.simps
    by (rule Create_emits) (auto intro: harmless_daemon_call created_under simp del: daemon_call.simps)
  show "emits (daemon_call cfg) (bk_DialPort (dockerBackend (traced eng) b (\<lambda>r. lift (drain r))) name port)" for name port
    unfolding dockerBackend_def daemonBackend.simps DialPort_def dialPort_def dialPortWith_def
    by (auto intro!: emits_intros harmless_daemon_call query_harmless sandbox_daemon_call [OF attach_unprivileged])
  show "emits (daemon_call cfg) (sb_Exec (dockerBackend (traced eng) b (\<lambda>r. lift (drain r))) h cmd)" for h cmd
    unfolding dockerBackend_def daemonBackend.simps by (rule sandbox_daemon_call [OF Exec_unprivileged])
  show "emits (daemon_call cfg) (sb_WriteFile (dockerBackend (traced eng) b (\<lambda>r. lift (drain r))) h dest mode src)" for h dest mode src
    unfolding dockerBackend_def daemonBackend.simps WriteFile_def
    by (rule sandbox_daemon_call [of h]) (intro emits_intros)
  show "emits (daemon_call cfg) (sb_ReadFile (dockerBackend (traced eng) b (\<lambda>r. lift (drain r))) h src)" for h src
    unfolding dockerBackend_def daemonBackend.simps ReadFile_def
    by (rule sandbox_daemon_call [of h]) (intro emits_intros)
  show "emits (daemon_call cfg) (sb_StartProcess (dockerBackend (traced eng) b (\<lambda>r. lift (drain r))) h pname cmd)" for h pname cmd
    unfolding dockerBackend_def daemonBackend.simps StartProcess_def
    by (rule sandbox_daemon_call [of h]) (intro emits_intros)
qed (auto simp: dockerBackend_def Stop_def intro!: emits_intros emits_harmless intro: harmless_daemon_call query_harmless)

end
