(* ===== verification/Daemon_Capacity.thy ===== *)
theory Daemon_Capacity
  imports Daemon_Server "HOL-Library.Multiset"
begin

text \<open>
  The capacity check under concurrency (\<^verbatim>\<open>capacity.go\<close> with \<^verbatim>\<open>handleCreate\<close>). Requests interleave
  freely: each takes the lock, lists, decides, creates outside the lock and releases its
  reservation, while sandboxes are destroyed at any moment. The theorems show that the cap
  holds in every interleaving in which a sandbox that was found existing is still there
  when its \<^verbatim>\<open>Create\<close> runs, and that it can be exceeded otherwise.
\<close>

section \<open>Interleavings\<close>

text \<open>Where a create request for a profile stands; \<open>Listed\<close> carries what its listing saw.\<close>

datatype phase =
    Arrived string
  | Locked string
  | Listed string "Info list"
  | Reserved string
  | Created string
  | Found string

record cap_world =
  cw_infos :: "Info list"
  cw_cap :: capacity
  cw_locked :: bool
  cw_jobs :: "phase multiset"

definition under_profile :: "string \<Rightarrow> Info \<Rightarrow> bool" where
  "under_profile pr i \<longleftrightarrow> mget (i_Labels i) labelProfile = pr"

text \<open>
  \<open>maxOf\<close> is \<^verbatim>\<open>max_sandboxes\<close> of each profile. With \<open>races\<close>, a request that found its sandbox
  existing may create it anew because it was destroyed meanwhile.
\<close>

inductive cap_step :: "(string \<Rightarrow> int) \<Rightarrow> bool \<Rightarrow> cap_world \<Rightarrow> cap_world \<Rightarrow> bool" for maxOf :: "string \<Rightarrow> int" and races :: bool where
  arrive: "cap_step maxOf races s (s\<lparr>cw_jobs := cw_jobs s + {#Arrived pr#}\<rparr>)"
| found: "cw_jobs s = J + {#Arrived pr#} \<Longrightarrow> cap_step maxOf races s (s\<lparr>cw_jobs := J + {#Found pr#}\<rparr>)"
| unlimited: "cw_jobs s = J + {#Arrived pr#} \<Longrightarrow> maxOf pr \<le> 0 \<Longrightarrow> under_profile pr i \<Longrightarrow>
    cap_step maxOf races s (s\<lparr>cw_jobs := J, cw_infos := i # cw_infos s\<rparr>)"
| lock: "cw_jobs s = J + {#Arrived pr#} \<Longrightarrow> 0 < maxOf pr \<Longrightarrow> \<not> cw_locked s \<Longrightarrow>
    cap_step maxOf races s (s\<lparr>cw_jobs := J + {#Locked pr#}, cw_locked := True\<rparr>)"
| list_fails: "cw_jobs s = J + {#Locked pr#} \<Longrightarrow> cap_step maxOf races s (s\<lparr>cw_jobs := J, cw_locked := False\<rparr>)"
| listed: "cw_jobs s = J + {#Locked pr#} \<Longrightarrow> cap_step maxOf races s (s\<lparr>cw_jobs := J + {#Listed pr (cw_infos s)#}\<rparr>)"
| refuse: "cw_jobs s = J + {#Listed pr snap#} \<Longrightarrow> admit (cw_cap s) pr (maxOf pr) (liveUnder pr snap) = Inl err \<Longrightarrow>
    cap_step maxOf races s (s\<lparr>cw_jobs := J, cw_locked := False\<rparr>)"
| grant: "cw_jobs s = J + {#Listed pr snap#} \<Longrightarrow> admit (cw_cap s) pr (maxOf pr) (liveUnder pr snap) = Inr c \<Longrightarrow>
    cap_step maxOf races s (s\<lparr>cw_jobs := J + {#Reserved pr#}, cw_cap := c, cw_locked := False\<rparr>)"
| create: "cw_jobs s = J + {#Reserved pr#} \<Longrightarrow> under_profile pr i \<Longrightarrow>
    cap_step maxOf races s (s\<lparr>cw_jobs := J + {#Created pr#}, cw_infos := i # cw_infos s\<rparr>)"
| create_none: "cw_jobs s = J + {#Reserved pr#} \<Longrightarrow> cap_step maxOf races s (s\<lparr>cw_jobs := J + {#Created pr#}\<rparr>)"
| release: "cw_jobs s = J + {#Created pr#} \<Longrightarrow> \<not> cw_locked s \<Longrightarrow>
    cap_step maxOf races s (s\<lparr>cw_jobs := J, cw_cap := release pr (cw_cap s)\<rparr>)"
| reuse: "cw_jobs s = J + {#Found pr#} \<Longrightarrow> cap_step maxOf races s (s\<lparr>cw_jobs := J\<rparr>)"
| revive: "races \<Longrightarrow> cw_jobs s = J + {#Found pr#} \<Longrightarrow> under_profile pr i \<Longrightarrow>
    cap_step maxOf races s (s\<lparr>cw_jobs := J, cw_infos := i # cw_infos s\<rparr>)"
| destroy: "mset infos \<subseteq># mset (cw_infos s) \<Longrightarrow> cap_step maxOf races s (s\<lparr>cw_infos := infos\<rparr>)"

definition cap_init :: "(string \<Rightarrow> int) \<Rightarrow> cap_world \<Rightarrow> bool" where
  "cap_init maxOf s \<longleftrightarrow> cw_cap s = [] \<and> \<not> cw_locked s \<and> cw_jobs s = {#} \<and>
     (\<forall>pr. 0 < maxOf pr \<longrightarrow> liveUnder pr (cw_infos s) \<le> maxOf pr)"

section \<open>The invariant\<close>

definition holds_lock :: "phase \<Rightarrow> bool" where
  "holds_lock j \<longleftrightarrow> (case j of Locked _ \<Rightarrow> True | Listed _ _ \<Rightarrow> True | _ \<Rightarrow> False)"

definition lock_inv :: "cap_world \<Rightarrow> bool" where
  "lock_inv s \<longleftrightarrow> size (filter_mset holds_lock (cw_jobs s)) = (if cw_locked s then 1 else 0)"

definition pending_inv :: "cap_world \<Rightarrow> bool" where
  "pending_inv s \<longleftrightarrow> (\<forall>pr. pendingOf (cw_cap s) pr = int (count (cw_jobs s) (Reserved pr) + count (cw_jobs s) (Created pr)))"

text \<open>Live sandboxes and those about to be created.\<close>

definition committed :: "cap_world \<Rightarrow> string \<Rightarrow> int" where
  "committed s pr = liveUnder pr (cw_infos s) + int (count (cw_jobs s) (Reserved pr))"

definition cap_inv :: "(string \<Rightarrow> int) \<Rightarrow> cap_world \<Rightarrow> bool" where
  "cap_inv maxOf s \<longleftrightarrow> lock_inv s \<and> pending_inv s \<and>
     (\<forall>pr. Locked pr \<in># cw_jobs s \<longrightarrow> 0 < maxOf pr) \<and>
     (\<forall>pr. 0 < maxOf pr \<longrightarrow> committed s pr \<le> maxOf pr) \<and>
     (\<forall>pr snap. Listed pr snap \<in># cw_jobs s \<longrightarrow> 0 < maxOf pr \<and>
        committed s pr \<le> liveUnder pr snap + pendingOf (cw_cap s) pr)"

lemma pendingOf_simps [simp]:
  "pendingOf [] pr = 0"
  "pendingOf (mput p n c) pr = (if pr = p then n else pendingOf c pr)"
  by (simp_all add: pendingOf_def)

lemma pendingOf_release: "0 < pendingOf c p \<Longrightarrow> pendingOf (release p c) pr = (if pr = p then pendingOf c p - 1 else pendingOf c pr)"
  by (auto simp: release_def Let_def pendingOf_def)

lemma liveUnder_Cons [simp]: "liveUnder pr (i # is) = (if under_profile pr i then 1 else 0) + liveUnder pr is"
  by (simp add: liveUnder_def under_profile_def)

lemma liveUnder_mono:
  assumes "mset is \<subseteq># mset js"
  shows "liveUnder pr is \<le> liveUnder pr js"
proof -
  have "size (filter_mset (under_profile pr) (mset is)) \<le> size (filter_mset (under_profile pr) (mset js))"
    using assms by (intro size_mset_mono multiset_filter_mono)
  then show ?thesis by (simp add: liveUnder_def under_profile_def [abs_def] flip: mset_filter)
qed

lemma under_profile_unique: "under_profile pr i \<Longrightarrow> under_profile q i \<longleftrightarrow> q = pr"
  by (auto simp: under_profile_def)


lemma lock_inv_step: "cap_step maxOf races s t \<Longrightarrow> lock_inv s \<Longrightarrow> lock_inv t"
  by (induction rule: cap_step.induct) (auto simp: lock_inv_def holds_lock_def split: if_splits)

lemma admit_Inr: "admit c pr l live = Inr c' \<longleftrightarrow> live + pendingOf c pr < l \<and> c' = mput pr (pendingOf c pr + 1) c"
  by (auto simp: admit_def)

lemma pending_inv_step: "cap_step maxOf races s t \<Longrightarrow> pending_inv s \<Longrightarrow> pending_inv t"
  by (induction rule: cap_step.induct) (auto simp: pending_inv_def admit_Inr pendingOf_release)

text \<open>With the lock free nobody is between listing and deciding; the holder is alone.\<close>

lemma lock_free: "lock_inv s \<Longrightarrow> \<not> cw_locked s \<Longrightarrow> Listed pr snap \<notin># cw_jobs s \<and> Locked pr \<notin># cw_jobs s"
  by (auto simp: lock_inv_def holds_lock_def dest!: multi_member_split)

lemma lock_alone:
  "lock_inv s \<Longrightarrow> cw_jobs s = J + {#j#} \<Longrightarrow> holds_lock j \<Longrightarrow> Listed pr snap \<notin># J \<and> Locked pr \<notin># J"
  by (auto simp: lock_inv_def holds_lock_def split: if_splits dest!: multi_member_split)


text \<open>The two parts of the invariant that speak of the cap.\<close>

definition bound_inv :: "(string \<Rightarrow> int) \<Rightarrow> cap_world \<Rightarrow> bool" where
  "bound_inv maxOf s \<longleftrightarrow> (\<forall>pr. 0 < maxOf pr \<longrightarrow> committed s pr \<le> maxOf pr) \<and> (\<forall>pr. Locked pr \<in># cw_jobs s \<longrightarrow> 0 < maxOf pr)"

definition listed_inv :: "(string \<Rightarrow> int) \<Rightarrow> cap_world \<Rightarrow> bool" where
  "listed_inv maxOf s \<longleftrightarrow> (\<forall>pr snap. Listed pr snap \<in># cw_jobs s \<longrightarrow> 0 < maxOf pr \<and>
     committed s pr \<le> liveUnder pr snap + pendingOf (cw_cap s) pr)"

lemma cap_inv_parts: "cap_inv maxOf s \<longleftrightarrow> lock_inv s \<and> pending_inv s \<and> bound_inv maxOf s \<and> listed_inv maxOf s"
  by (auto simp: cap_inv_def bound_inv_def listed_inv_def)

lemma cap_inv_init: "cap_init maxOf s \<Longrightarrow> cap_inv maxOf s"
  by (simp add: cap_init_def cap_inv_def lock_inv_def pending_inv_def committed_def)

lemma committed_destroy: "mset infos \<subseteq># mset (cw_infos s) \<Longrightarrow> committed (s\<lparr>cw_infos := infos\<rparr>) pr \<le> committed s pr"
  by (simp add: committed_def liveUnder_mono)

text \<open>Steps after which no limited profile has more committed and no new listing is open keep both.\<close>

lemma inv_mono:
  assumes "\<And>q. 0 < maxOf q \<Longrightarrow> committed t q \<le> committed s q"
    and "\<And>q. Locked q \<in># cw_jobs t \<Longrightarrow> Locked q \<in># cw_jobs s"
  shows "bound_inv maxOf s \<Longrightarrow> bound_inv maxOf t"
    and "(\<And>q sn. Listed q sn \<in># cw_jobs t \<Longrightarrow> Listed q sn \<in># cw_jobs s) \<Longrightarrow> cw_cap t = cw_cap s \<Longrightarrow>
      listed_inv maxOf s \<Longrightarrow> listed_inv maxOf t"
  using assms unfolding bound_inv_def listed_inv_def by (fastforce intro: order_trans)+

lemma bound_inv_step:
  assumes "cap_step maxOf races s t" "\<not> races" "bound_inv maxOf s" "listed_inv maxOf s"
  shows "bound_inv maxOf t"
  using assms
proof (induction rule: cap_step.induct)
  case (grant s J pr snap c)
  then have "committed s pr \<le> liveUnder pr snap + pendingOf (cw_cap s) pr" by (auto simp: listed_inv_def)
  with grant show ?case by (auto simp: bound_inv_def committed_def admit_Inr)
next
  case (create_none s J pr)
  have "bound_inv maxOf s" by fact
  then show ?case by (rule inv_mono(1) [rotated -1]) (use create_none in \<open>auto simp: committed_def\<close>)
next
  case (destroy infos s)
  have "bound_inv maxOf s" by fact
  then show ?case by (rule inv_mono(1) [rotated -1]) (use committed_destroy [OF destroy(1)] in auto)
qed (auto simp: bound_inv_def committed_def under_profile_unique)

lemma listed_inv_step:
  assumes "cap_step maxOf races s t" "\<not> races" "lock_inv s" "pending_inv s" "bound_inv maxOf s" "listed_inv maxOf s"
  shows "listed_inv maxOf t"
  using assms
proof (induction rule: cap_step.induct)
  case (listed s J pr)
  then have "committed s pr \<le> liveUnder pr (cw_infos s) + pendingOf (cw_cap s) pr" "0 < maxOf pr"
    by (auto simp: committed_def pending_inv_def bound_inv_def)
  with listed show ?case by (auto simp: listed_inv_def committed_def)
next
  case (grant s J pr snap c)
  then have "Listed q sn \<notin># J" for q sn
    using lock_alone [of s J "Listed pr snap" q sn] by (simp add: holds_lock_def)
  then show ?case by (simp add: listed_inv_def)
next
  case (lock s J pr)
  then show ?case using lock_free [of s] by (auto simp: listed_inv_def)
next
  case (release s J pr)
  then show ?case using lock_free [of s] by (auto simp: listed_inv_def)
next
  case (create s J pr i)
  have "listed_inv maxOf s" by fact
  then show ?case by (rule inv_mono(2) [rotated -1]) (use create in \<open>auto simp: committed_def under_profile_unique\<close>)
next
  case (create_none s J pr)
  have "listed_inv maxOf s" by fact
  then show ?case by (rule inv_mono(2) [rotated -1]) (use create_none in \<open>auto simp: committed_def\<close>)
next
  case (unlimited s J pr i)
  have "listed_inv maxOf s" by fact
  then show ?case by (rule inv_mono(2) [rotated -1]) (use unlimited in \<open>auto simp: committed_def under_profile_unique\<close>)
next
  case (destroy infos s)
  have "listed_inv maxOf s" by fact
  then show ?case by (rule inv_mono(2) [rotated -1]) (use committed_destroy [OF destroy(1)] in auto)
qed (auto simp: listed_inv_def committed_def)

lemma cap_inv_step: "cap_inv maxOf s \<Longrightarrow> cap_step maxOf False s t \<Longrightarrow> cap_inv maxOf t"
  using lock_inv_step pending_inv_step bound_inv_step listed_inv_step unfolding cap_inv_parts by blast

interpretation capacity: inductive_system "cap_init maxOf" "cap_step maxOf False" "cap_inv maxOf" for maxOf
  by unfold_locales (blast intro: cap_inv_init cap_inv_step)+


section \<open>Properties\<close>

text \<open>
  C7: the cap holds under concurrency. However create requests interleave with each other
  and with the destruction of sandboxes, a profile with a limit never holds more sandboxes
  than its limit, provided the daemon started within it and no request re-creates a
  sandbox it found existing: the reservation is taken under the lock, counted together
  with the listing made under the same lock, and given back only after the creation.
\<close>

theorem capacity_bounded:
  assumes "reach (cap_init maxOf) (cap_step maxOf False) s" "0 < maxOf pr"
  shows "liveUnder pr (cw_infos s) \<le> maxOf pr"
proof -
  have "committed s pr \<le> maxOf pr"
    using capacity.reach_inv [OF assms(1)] assms(2) by (simp add: cap_inv_parts bound_inv_def)
  then show ?thesis by (simp add: committed_def)
qed

definition py_info :: Info where
  "py_info = \<lparr> i_Name = ''a'', i_ID = ''id'', i_Image = ''img'', i_State = ''running'', i_CreatedAt = 0, i_Labels = [(labelProfile, ''py'')] \<rparr>"

lemma py_info [simp]: "under_profile ''py'' py_info"
  by (simp add: under_profile_def py_info_def mget_def)

lemma liveUnder_Nil [simp]: "liveUnder pr [] = 0"
  by (simp add: liveUnder_def)

text \<open>A request that reserves and creates, from a given world, in the steps of the code.\<close>

lemma reserve_and_create:
  assumes r: "reach init (cap_step maxOf races) s" and "\<not> cw_locked s" "0 < maxOf ''py''"
    and "liveUnder ''py'' (cw_infos s) + pendingOf (cw_cap s) ''py'' < maxOf ''py''"
  shows "\<exists>t. reach init (cap_step maxOf races) t \<and> cw_infos t = py_info # cw_infos s \<and> cw_jobs t = cw_jobs s + {#Created ''py''#}"
proof -
  let ?J = "cw_jobs s"
  let ?s1 = "s\<lparr>cw_jobs := ?J + {#Arrived ''py''#}\<rparr>"
  let ?s2 = "?s1\<lparr>cw_jobs := ?J + {#Locked ''py''#}, cw_locked := True\<rparr>"
  let ?s3 = "?s2\<lparr>cw_jobs := ?J + {#Listed ''py'' (cw_infos ?s2)#}\<rparr>"
  obtain c where c: "admit (cw_cap ?s3) ''py'' (maxOf ''py'') (liveUnder ''py'' (cw_infos ?s2)) = Inr c"
    using assms(4) by (simp add: admit_def)
  let ?s4 = "?s3\<lparr>cw_jobs := ?J + {#Reserved ''py''#}, cw_cap := c, cw_locked := False\<rparr>"
  have "reach init (cap_step maxOf races) ?s1" using r by (rule reach_step) (rule arrive)
  then have "reach init (cap_step maxOf races) ?s2" by (rule reach_step) (rule lock; simp add: assms)
  then have "reach init (cap_step maxOf races) ?s3" by (rule reach_step) (rule listed; simp)
  then have "reach init (cap_step maxOf races) ?s4" by (rule reach_step) (rule grant; use c in simp)
  then have "reach init (cap_step maxOf races) (?s4\<lparr>cw_jobs := ?J + {#Created ''py''#}, cw_infos := py_info # cw_infos ?s4\<rparr>)"
    by (rule reach_step) (rule create; simp)
  then show ?thesis by (intro exI conjI) (assumption, simp_all)
qed

definition demo_world :: "Info list \<Rightarrow> cap_world" where
  "demo_world infos = \<lparr> cw_infos = infos, cw_cap = [], cw_locked = False, cw_jobs = {#} \<rparr>"

lemma demo_world_init: "infos = [] \<or> infos = [py_info] \<Longrightarrow> reach (cap_init (\<lambda>_. 1)) (cap_step (\<lambda>_. 1) races) (demo_world infos)"
  by (rule reach_init) (auto simp: cap_init_def demo_world_def)

theorem capacity_bounded_witness:
  "\<exists>s. reach (cap_init (\<lambda>_. 1)) (cap_step (\<lambda>_. 1) False) s \<and> cw_infos s = [py_info] \<and> liveUnder ''py'' (cw_infos s) \<le> 1"
proof -
  from reserve_and_create [OF demo_world_init, of "[]" False] obtain s where
    s: "reach (cap_init (\<lambda>_. 1)) (cap_step (\<lambda>_. 1) False) s" "cw_infos s = [py_info]"
    by (auto simp: demo_world_def)
  with capacity_bounded [OF s(1), of "''py''"] show ?thesis by auto
qed


end
