(* ===== verification/Daemon_Requests.thy ===== *)
theory Daemon_Requests
  imports Daemon_Server
begin

text \<open>
  What a request to the daemon can and cannot do: the properties of the handlers of
  \<^verbatim>\<open>internal/daemon\<close> that hold over every backend, and those of the daemon on top of the
  Docker backend.
\<close>

section \<open>Decoding what the other side wrote\<close>

text \<open>A body that was written by the other side is decoded, as \<^verbatim>\<open>received\<close> says.\<close>

lemma ws_nl [simp]: "ws nl = []" "num_end nl"
  by (simp_all add: ws_def nl_def is_ws_def num_end_def is_digit_def digit_val_def)

context wire
begin

lemma decode_enc:
  assumes "valid x" "length (print_json (enc x)) \<le> 2 ^ 20"
  shows "decode dec (print_json (enc x)) = Inr (received x)"
  using assms readValue_enc [of "[]" x] coerced_obj [of x] by (simp add: decode_def dec_enc ws_def)

end

definition demo_create :: CreateRequest where
  "demo_create = \<lparr> cr_Name = ''box'', cr_Profile = ''py'', cr_Env = [], cr_Labels = [] \<rparr>"

definition demo_daemon :: "(mem \<times> call list, dockerSandbox, string, execConn) daemonBackend" where
  "demo_daemon = dockerBackend (traced mem_engine) demo_backend (\<lambda>r. lift (State (\<lambda>w. (([], True), w))))"

lemma demo_decode: "decode CreateRequest_dec (print_json (CreateRequest_json demo_create)) = Inr demo_create"
proof -
  have "length (print_json (CreateRequest_json demo_create)) = 29" by code_simp
  then have "length (print_json (CreateRequest_json demo_create)) \<le> 2 ^ 20" by simp
  moreover have "CreateRequest_received demo_create = demo_create" by code_simp
  ultimately show ?thesis using create_wire.decode_enc [of demo_create] by simp
qed

lemma demo_route: "findHandler routes ''POST'' ''/sandboxes'' = Routed ECreate []"
  by code_simp

lemma demo_options:
  "Spec_Validate (newSpec (createOptions demo_profile demo_create [])) = None"
  "sp_Image (newSpec (createOptions demo_profile demo_create [])) = ''img''"
  "sp_Runtime (newSpec (createOptions demo_profile demo_create [])) = ''runsc''"
  "mget (sp_Labels (newSpec (createOptions demo_profile demo_create []))) labelProfile = ''py''"
proof -
  have l: "labelOptions (cr_Labels demo_create) = Inr []" by (simp add: demo_create_def)
  note pe = policy_eq [OF createOptions_spec(1) [OF l, of demo_profile]]
  have "demo_profile\<lparr>pf_DefaultTimeout := 0\<rparr> = demo_profile" by (simp add: demo_profile_def)
  then have pr: "Profile_validate demo_profile = None" using demo_profile_valid [of 0] by simp
  show "Spec_Validate (newSpec (createOptions demo_profile demo_create [])) = None"
    using pr by (simp add: Spec_Validate_None pe Profile_validate_None)
  show "sp_Image (newSpec (createOptions demo_profile demo_create [])) = ''img''"
    "sp_Runtime (newSpec (createOptions demo_profile demo_create [])) = ''runsc''"
    by (simp_all only: pe Options_policy) (simp_all add: demo_profile_def DefaultRuntime_def)
  show "mget (sp_Labels (newSpec (createOptions demo_profile demo_create []))) labelProfile = ''py''"
    using createOptions_spec(2) [OF l, of demo_profile] by (simp add: mget_def demo_create_def)
qed

lemma demo_served:
  "\<exists>a w' calls cc hc. run_state (serve demo_daemon demo_config False [] \<lparr> rq_Method = ''POST'', rq_Path = ''/sandboxes'',
       rq_Body = print_json (CreateRequest_json demo_create) \<rparr>) ([], []) = (a, (w', calls)) \<and>
     CCreate cc hc (containerName ''box'') \<in> set calls"
proof -
  let ?o = "createOptions demo_profile demo_create []"
  obtain cc hc where bc: "buildConfig (\<lambda>_. 0) 0 ''box'' (newSpec ?o) = (cc, hc)" by force
  have n: "cr_Name demo_create = ''box''" "cr_Profile demo_create = ''py''" "cr_Labels demo_create = []" by (simp_all add: demo_create_def)
  have p: "map_of (cf_Profiles demo_config) ''py'' = Some demo_profile" "pf_MaxSandboxes demo_profile = 0"
    by (simp_all add: demo_config_def demo_profile_def)
  show ?thesis
    by (simp add: serve_def demo_route dispatch_def handleCreate_def demo_decode n p demo_daemon_def dockerBackend_def
        Open_def existing_def reserve_def createUnder_def Create_unfold demo_options provision_def assertRuntime_def
        ensureImage_def logged_def lift_def mem_engine_def mem_find_def bc Let_def)
qed


section \<open>Properties\<close>

text \<open>
  C3: the daemon's callers cannot get out of the configured policies. Whatever request
  arrives (any method, path and body) and whatever Docker answers, every container the
  daemon asks for is hardened and has the image, user, runtime, network and limits of a
  profile of its configuration, and is recorded under that profile; and every exec it asks
  for runs as the sandbox's own user, the timestamp write apart.
\<close>

theorem served_within_policy:
  assumes "run_state (serve (dockerBackend (traced eng) b (\<lambda>r. lift (drain r))) cfg hijacked c rq) (w, []) = (a, (w', calls))"
  shows "(\<forall>cc hc n. CCreate cc hc n \<in> set calls \<longrightarrow>
      hardened cc hc \<and> (\<exists>pn p. (pn, p) \<in> set (cf_Profiles cfg) \<and> runs_under pn p cc hc)) \<and>
    (\<forall>i e. CExecCreate i e \<in> set calls \<longrightarrow> unprivileged e)"
proof -
  have "emits (daemon_call cfg) (serve (dockerBackend (traced eng) b (\<lambda>r. lift (drain r))) cfg hijacked c rq)"
    by (rule docker_daemon.serve_guarded) (auto simp: under_def)
  from emits_log [OF this assms] have "\<forall>c \<in> set calls. daemon_call cfg c" by (simp add: list_all_iff)
  then show ?thesis by fastforce
qed


theorem served_within_policy_witness:
  "\<exists>a w' calls cc hc. run_state (serve demo_daemon demo_config False [] \<lparr> rq_Method = ''POST'', rq_Path = ''/sandboxes'',
       rq_Body = print_json (CreateRequest_json demo_create) \<rparr>) ([], []) = (a, (w', calls)) \<and>
     CCreate cc hc (containerName ''box'') \<in> set calls \<and> hardened cc hc \<and> runs_under ''py'' demo_profile cc hc"
proof -
  obtain a w' calls cc hc where run: "run_state (serve demo_daemon demo_config False [] \<lparr> rq_Method = ''POST'', rq_Path = ''/sandboxes'',
       rq_Body = print_json (CreateRequest_json demo_create) \<rparr>) ([], []) = (a, (w', calls))"
    "CCreate cc hc (containerName ''box'') \<in> set calls" using demo_served by blast
  from served_within_policy [OF run(1) [unfolded demo_daemon_def]] run(2)
  have "hardened cc hc" "\<exists>pn p. (pn, p) \<in> set (cf_Profiles demo_config) \<and> runs_under pn p cc hc" by blast+
  with run show ?thesis by (auto simp: demo_config_def)
qed


text \<open>A small logic for what a handler answers.\<close>

named_theorems returns_intros \<open>what a program returns\<close>

lemma returns_return [returns_intros]: "Q a \<Longrightarrow> returns Q (State_Monad.return a)"
  by (simp add: returns_def)

lemma returns_bind [returns_intros]: "(\<And>a. returns Q (f a)) \<Longrightarrow> returns Q (State_Monad.bind m f)"
  by (simp add: returns_def split: prod.splits)

lemma returns_bind_returns: "returns R m \<Longrightarrow> (\<And>a. R a \<Longrightarrow> returns Q (f a)) \<Longrightarrow> returns Q (State_Monad.bind m f)"
  unfolding returns_def run_bind by (metis fst_conv prod.case prod.exhaust)

lemma returns_if [returns_intros]: "returns Q m \<Longrightarrow> returns Q n \<Longrightarrow> returns Q (if b then m else n)"
  by simp

lemma returns_case_option [returns_intros]:
  "returns Q m \<Longrightarrow> (\<And>a. returns Q (f a)) \<Longrightarrow> returns Q (case x of None \<Rightarrow> m | Some a \<Rightarrow> f a)"
  by (cases x) simp_all

lemma returns_case_sum [returns_intros]:
  "(\<And>e. returns Q (f e)) \<Longrightarrow> (\<And>a. returns Q (g a)) \<Longrightarrow> returns Q (case x of Inl e \<Rightarrow> f e | Inr a \<Rightarrow> g a)"
  by (cases x) simp_all

definition discreet :: "response \<Rightarrow> bool" where
  "discreet r \<longleftrightarrow> (\<forall>e. rs_Body r = BError e \<longrightarrow>
     we_Kind e = KindInternal \<and> rs_Status r = 500 \<and> we_Message e = MsgText ''internal error'' \<or>
     (\<exists>err s. s \<in> wire_sentinels \<and> errIs err s \<and> we_Message e = MsgOf err \<and> KindOf err = (we_Kind e, rs_Status r)))"

lemma KindOf_internal_status: "fst (KindOf err) = KindInternal \<Longrightarrow> KindOf err = (KindInternal, 500)"
  by (auto simp: KindOf_def kind_defs split: if_splits)

lemma fail_discreet [simp]: "discreet (fail err)"
proof (cases "fst (KindOf err) = KindInternal")
  case True
  then show ?thesis by (simp add: fail_def discreet_def respond_def KindOf_internal_status)
next
  case False
  with KindOf_internal [of err] obtain s where "s \<in> wire_sentinels" "errIs err s" by blast
  with False show ?thesis by (auto simp: fail_def discreet_def respond_def split: prod.splits)
qed

lemma respond_discreet [simp]: "(\<And>e. b \<noteq> BError e) \<Longrightarrow> discreet (respond st b)"
  by (simp add: discreet_def respond_def)

lemma noContent_discreet [simp]: "discreet (noContent err)"
  by (simp add: noContent_def split: option.splits)

definition discreet_answer :: "'c answer \<times> capacity \<Rightarrow> bool" where
  "discreet_answer a \<longleftrightarrow> (case fst a of Answer r \<Rightarrow> discreet r | Upgraded _ \<Rightarrow> True)"

lemma discreet_Answer [simp]: "discreet_answer (Answer r, c) \<longleftrightarrow> discreet r" "discreet_answer (Upgraded x, c)"
  by (simp_all add: discreet_answer_def)

lemma createUnder_discreet: "returns discreet (createUnder be profile req)"
  unfolding createUnder_def Let_def by (intro returns_intros) (auto split: sum.splits)

lemma handleCreate_discreet: "returns (\<lambda>(r, c). discreet r) (handleCreate be cfg c reqBody)"
proof -
  have cu: "returns (\<lambda>(r, c). discreet r) (State_Monad.bind (createUnder be profile req) (\<lambda>r. State_Monad.return (r, c')))"
    for profile req and c' :: capacity
    by (rule returns_bind_returns [OF createUnder_discreet]) (simp add: returns_return)
  show ?thesis
    unfolding handleCreate_def
    by (auto intro!: returns_intros cu split: prod.splits bool.splits)
qed

lemma serve_discreet: "returns discreet_answer (serve be cfg hijacked c rq)"
proof -
  have a: "returns discreet_answer (answering c m)" if "returns discreet m" for m :: "('w, response) state"
    unfolding answering_def using that by (rule returns_bind_returns) (simp add: returns_return)
  have k: "returns discreet_answer (State_Monad.bind (handleCreate be cfg c reqBody) (\<lambda>(r, c'). State_Monad.return (Answer r, c')))" for reqBody
    by (rule returns_bind_returns [OF handleCreate_discreet]) (auto intro: returns_return)
  have "returns (\<lambda>a. discreet_answer (a, c)) (handleDial be hijacked name port)" for name port
    unfolding handleDial_def by (intro returns_intros) (auto split: sum.splits)
  then have d: "returns discreet_answer (State_Monad.bind (handleDial be hijacked name port) (\<lambda>a. State_Monad.return (a, c)))" for name port
    by (rule returns_bind_returns) (rule returns_return)
  note defs = handleList_def handleGet_def handleDestroy_def handleStop_def handleExec_def
    handleWriteFile_def handleReadFile_def handleStartProcess_def handleProfiles_def
  have "returns discreet_answer (dispatch be cfg hijacked c e vs reqBody)" for e vs reqBody
    unfolding dispatch_def Let_def
    by (cases e) (auto simp: defs intro!: a k d returns_intros split: prod.splits sum.splits)
  then show ?thesis unfolding serve_def by (auto intro!: returns_intros split: routed.splits)
qed

text \<open>
  C22: an answer does not describe the host. Over any backend and for any request, an error
  answer carries the text of an error only if that error is of a kind the protocol names,
  and then with its kind and status; for every other error the body is the fixed text
  with kind internal and status 500.
\<close>

theorem errors_discreet:
  assumes "run_state (serve be cfg hijacked c rq) w = ((Answer r, c'), w')" "rs_Body r = BError e"
  shows "we_Kind e = KindInternal \<and> rs_Status r = 500 \<and> we_Message e = MsgText ''internal error'' \<or>
    (\<exists>err s. s \<in> wire_sentinels \<and> errIs err s \<and> we_Message e = MsgOf err \<and> KindOf err = (we_Kind e, rs_Status r))"
proof -
  have "discreet_answer (fst (run_state (serve be cfg hijacked c rq) w))"
    using serve_discreet [of be cfg hijacked c rq] unfolding returns_def by blast
  with assms show ?thesis by (auto simp: discreet_def)
qed


theorem errors_discreet_witness:
  "\<exists>r c' st' e. run_state (serve demo_daemon demo_config False [] \<lparr> rq_Method = ''GET'', rq_Path = ''/sandboxes/nope'', rq_Body = [] \<rparr>) ([], [])
      = ((Answer r, c'), st') \<and> rs_Body r = BError e \<and> rs_Status r = 404 \<and> we_Kind e = KindNotFound \<and>
     (\<exists>err s. s \<in> wire_sentinels \<and> errIs err s \<and> we_Message e = MsgOf err)"
proof -
  let ?rq = "\<lparr> rq_Method = ''GET'', rq_Path = ''/sandboxes/nope'', rq_Body = [] \<rparr>"
  have rt: "findHandler routes ''GET'' ''/sandboxes/nope'' = Routed EGet [''nope'']" by code_simp
  obtain r c' st' e where run: "run_state (serve demo_daemon demo_config False [] ?rq) ([], []) = ((Answer r, c'), st')"
    "rs_Body r = BError e" "rs_Status r = 404" "we_Kind e = KindNotFound"
    by (simp add: serve_def rt dispatch_def answering_def handleGet_def pathValue_def demo_daemon_def dockerBackend_def Open_def
        logged_def mem_engine_def mem_find_def fail_def respond_def KindOf_def kind_defs Let_def)
  with errors_discreet [OF run(1,2)] show ?thesis by (auto simp: kind_defs)
qed

section \<open>Unknown members\<close>

lemma fieldFor_None: "fieldFor fs k = None \<longleftrightarrow> (\<forall>f \<in> fst ` set fs. foldName f \<noteq> foldName k)"
proof -
  have "map_of fs k = None \<longleftrightarrow> k \<notin> fst ` set fs" by (rule map_of_eq_None_iff)
  then show ?thesis by (auto simp: fieldFor_def find_None_iff map_of_eq_None_iff image_iff split: if_splits)
qed

lemma fst_set_mput_known: "map_of fs f = Some v \<Longrightarrow> fst ` set (mput f new fs) = fst ` set fs"
  using fst_set_mput [of f new fs] by (auto dest: map_of_SomeD intro: rev_image_eqI)

lemma decodeMembers_unknown:
  "k \<in> fst ` set ms \<Longrightarrow> fieldFor fs k = None \<Longrightarrow> decodeMembers True fs ms = None"
proof (induction True fs ms rule: decodeMembers.induct)
  case (2 fs k' j ms)
  show ?case
  proof (cases "fieldFor fs k'")
    case (Some f)
    show ?thesis
    proof (cases "Option.bind (map_of fs f) (\<lambda>old. decodeInto old j)")
      case (Some new)
      then obtain old where old: "map_of fs f = Some old" by (cases "map_of fs f") auto
      have "k \<noteq> k'" using \<open>fieldFor fs k' = Some f\<close> 2(4) by auto
      then have "k \<in> fst ` set ms" using 2(3) by auto
      moreover have "fieldFor (mput f new fs) k = None"
        using 2(4) fst_set_mput_known [OF old, of new] by (simp add: fieldFor_None)
      ultimately show ?thesis using 2(2) \<open>fieldFor fs k' = Some f\<close> Some by simp
    qed (simp add: Some)
  qed simp
qed simp

text \<open>
  C21: a request field that must not exist is refused. When the body of a create request is
  an object with any member other than name, profile, env and labels (whatever the case of
  its letters), the answer is 400 of kind invalid; the backend is not called and nothing
  is reserved.
\<close>

theorem handleCreate_strict:
  assumes "readValue reqBody = Some (JObj ms, rest)" "k \<in> fst ` set ms"
    and "foldName k \<notin> {''NAME'', ''PROFILE'', ''ENV'', ''LABELS''}"
  shows "\<exists>e. run_state (handleCreate be cfg c reqBody) w = ((respond 400 (BError e), c), w) \<and> we_Kind e = KindInvalid"
proof -
  have "foldName ''name'' = ''NAME''" "foldName ''profile'' = ''PROFILE''" "foldName ''env'' = ''ENV''" "foldName ''labels'' = ''LABELS''"
    by code_simp+
  with assms(3) have "fieldFor [(''name'', FStr []), (''profile'', FStr []), (''env'', FStrs [] 0), (''labels'', FMap [])] k = None"
    by (auto simp: fieldFor_None)
  from decodeMembers_unknown [OF assms(2) this] have "CreateRequest_dec True (JObj ms) = None"
    by (simp add: CreateRequest_dec_def decodeStruct_def)
  with assms(1) have "\<exists>msg. decode CreateRequest_dec reqBody = Inl (wrapErr msg ErrInvalid)"
    by (cases "2 ^ 20 < length reqBody"; cases "ws rest = []") (simp_all add: decode_def)
  then obtain msg where "decode CreateRequest_dec reqBody = Inl (wrapErr msg ErrInvalid)" ..
  then show ?thesis by (auto simp: handleCreate_def fail_def KindOf_def kind_defs)
qed

theorem handleCreate_strict_witness:
  "\<exists>reqBody e. reqBody = print_json (JObj [(''name'', JStr ''a''), (''profile'', JStr ''p''), (''runtime'', JStr ''runc'')]) \<and>
     run_state (handleCreate demo_daemon demo_config [] reqBody) ([], []) = ((respond 400 (BError e), []), ([], [])) \<and> we_Kind e = KindInvalid"
proof -
  let ?j = "JObj [(''name'', JStr ''a''), (''profile'', JStr ''p''), (''runtime'', JStr ''runc'')]"
  have "readValue (print_json ?j @ []) = Some (coerce_json ?j, [])" by (rule readValue_print) simp_all
  moreover have "coerce_json ?j = ?j" by code_simp
  ultimately have rv: "readValue (print_json ?j) = Some (?j, [])" by simp
  have "foldName ''runtime'' = ''RUNTIME''" by code_simp
  then show ?thesis using handleCreate_strict [OF rv, of "''runtime''" demo_daemon demo_config "[]" "([], [])"] by simp
qed


section \<open>Creating\<close>

lemma fail_not_created: "rs_Status (fail err) \<noteq> 201"
  using KindOf_status [of err] by (auto simp: fail_def respond_def split: prod.splits)

definition created_answer :: "Config \<Rightarrow> string \<Rightarrow> response \<Rightarrow> bool" where
  "created_answer cfg reqBody r \<longleftrightarrow> (rs_Status r = 201 \<longrightarrow>
     (\<exists>req p info. decode CreateRequest_dec reqBody = Inr req \<and> map_of (cf_Profiles cfg) (cr_Profile req) = Some p \<and>
        mget (i_Labels info) labelProfile = cr_Profile req \<and> rs_Body r = BInfo (infoOf info (cr_Profile req))))"

lemma created_fail [simp]: "created_answer cfg reqBody (fail err)"
  by (simp add: created_answer_def fail_not_created)

lemma createUnder_created:
  assumes "decode CreateRequest_dec reqBody = Inr req" "map_of (cf_Profiles cfg) (cr_Profile req) = Some p"
  shows "returns (created_answer cfg reqBody) (createUnder be p req)"
  unfolding createUnder_def Let_def
  by (intro returns_intros) (use assms in \<open>auto simp: created_answer_def respond_def fail_not_created split: sum.splits\<close>)

lemma handleCreate_created: "returns (\<lambda>(r, c'). created_answer cfg reqBody r) (handleCreate be cfg c reqBody)"
proof (cases "decode CreateRequest_dec reqBody")
  case (Inr req)
  show ?thesis
  proof (cases "map_of (cf_Profiles cfg) (cr_Profile req)")
    case (Some p)
    have cu: "returns (\<lambda>(r, c'). created_answer cfg reqBody r)
        (State_Monad.bind (createUnder be p req) (\<lambda>r. State_Monad.return (r, c')))" for c' :: capacity
      by (rule returns_bind_returns [OF createUnder_created [where cfg = cfg, OF Inr Some]]) (simp add: returns_return)
    show ?thesis
      unfolding handleCreate_def Inr sum.case Some option.case
      by (auto intro!: returns_intros cu split: prod.splits bool.splits)
  qed (simp add: handleCreate_def Inr returns_return)
qed (simp add: handleCreate_def returns_return)


text \<open>What the caller sees of the labels it gave.\<close>

lemma callerLabels_created:
  assumes "labelOptions (cr_Labels req) = Inr lopts" "wf_map (cr_Labels req)"
    and "map_of ls = map_of (sp_Labels (newSpec (createOptions p req lopts)))"
  shows "map_of (callerLabels ls) = map_of (cr_Labels req)"
proof -
  note lo = labelOptions_Inr [OF assms(1)]
  have "sp_Labels (newSpec (createOptions p req lopts)) = fold (\<lambda>(k, v). mput k v) (cr_Labels req) [(labelProfile, cr_Profile req)]"
    unfolding lo [THEN conjunct1] by (simp add: createOptions_def newSpec_append fold_WithLabel Options_policy option_defs defaultSpec_def mput_def)
  then have "map_of ls = [labelProfile \<mapsto> cr_Profile req] ++ map_of (cr_Labels req)"
    using assms(2,3) by (simp add: map_of_fold_mput wf_map_def)
  moreover have "map_of (cr_Labels req) labelProfile = None" using lo by (simp add: map_of_eq_None_iff)
  ultimately show ?thesis
    by (auto simp: callerLabels_def map_of_filter_keys fun_eq_iff map_add_def split: option.splits)
qed

lemma createOptions_env: "sp_Env (newSpec (createOptions p req lopts)) = cr_Env req" if "labelOptions (cr_Labels req) = Inr lopts"
  unfolding labelOptions_Inr [OF that, THEN conjunct1]
  by (simp add: createOptions_def newSpec_append fold_WithLabel Options_policy option_defs defaultSpec_def)


lemma cc_Env_buildConfig: "cc_Env (fst (buildConfig oor now name spec)) = sp_Env spec"
  by (simp add: buildConfig_def)

lemma created_handle:
  assumes "buildConfig oor now name spec = (k_cfg k, k_host k)" "wf_map (sp_Labels spec)"
  shows "i_Name (ds_info (handle b k)) = name" "map_of (i_Labels (ds_info (handle b k))) = map_of (sp_Labels spec)"
    "i_State (ds_info (handle b k)) = stateFromStatus (k_status k)" "four_digit_year (i_CreatedAt (ds_info (handle b k)))"
    "wf_map (i_Labels (ds_info (handle b k)))"
proof -
  have "cc_Labels (k_cfg k) = createdLabels now name spec"
    using cc_Labels_buildConfig [of oor now name spec] assms(1) by simp
  then show "i_Name (ds_info (handle b k)) = name" "map_of (i_Labels (ds_info (handle b k))) = map_of (sp_Labels spec)"
    "i_State (ds_info (handle b k)) = stateFromStatus (k_status k)" "four_digit_year (i_CreatedAt (ds_info (handle b k)))"
    "wf_map (i_Labels (ds_info (handle b k)))"
    by (simp_all add: handle_def sandboxOf_def infoFrom_def inspected_def createdLabels_get [OF assms(2)]
        userLabels_created [OF assms(2)] parseTimeLabel_year wf_map_userLabels wf_createdLabels)
qed

lemma wf_map_callerLabels: "wf_map ls \<Longrightarrow> wf_map (callerLabels ls)"
  by (simp add: callerLabels_def wf_map_def distinct_map_filter)

text \<open>The options of a request under a valid profile build a spec that \<^verbatim>\<open>Create\<close> accepts.\<close>

lemma createOptions_ready:
  assumes "Profile_validate p = None" "sp_Runtime (newSpec (Options p)) \<in> rts" "labelProfile \<notin> fst ` set (cr_Labels req)"
  obtains lopts where "labelOptions (cr_Labels req) = Inr lopts"
    "Spec_Validate (newSpec (createOptions p req lopts)) = None" "sp_Image (newSpec (createOptions p req lopts)) \<noteq> []"
    "sp_Runtime (newSpec (createOptions p req lopts)) \<in> rts" "\<forall>opt \<in> set (createOptions p req lopts). lib_option opt"
    "wf_map (sp_Labels (newSpec (createOptions p req lopts)))"
proof -
  have "\<exists>lopts. labelOptions ls = Inr lopts" if "labelProfile \<notin> fst ` set ls" for ls
    using that by (induction ls) auto
  with assms(3) obtain lopts where lo: "labelOptions (cr_Labels req) = Inr lopts" by blast
  note cs = createOptions_spec [OF lo, of p] and pe = policy_eq [OF createOptions_spec(1) [OF lo, of p]]
  show thesis
  proof (rule that [OF lo _ _ _ cs(3)])
    show "wf_map (sp_Labels (newSpec (createOptions p req lopts)))"
      using newSpec_bounded_lib [OF cs(3)] by (simp add: bounded_spec_def)
  qed (use valid_profile_spec [OF assms(1)] assms(2) in \<open>simp_all add: Spec_Validate_None pe\<close>)
qed

text \<open>A container that is what the daemon keeps under a name and a profile.\<close>

definition kept :: "Backend \<Rightarrow> string \<Rightarrow> string \<Rightarrow> ctr \<Rightarrow> bool" where
  "kept b pn name k \<longleftrightarrow> managed k \<and> \<not> is_halted k \<and> i_Name (ds_info (handle b k)) = name \<and>
     four_digit_year (i_CreatedAt (ds_info (handle b k))) \<and> mget (i_Labels (ds_info (handle b k))) labelProfile = pn"

lemma created_kept:
  assumes "buildConfig oor now name spec = (k_cfg k, k_host k)" "wf_map (sp_Labels spec)" "k_status k = ''running''"
    and "mget (sp_Labels spec) labelProfile = pn"
  shows "kept b pn name k"
proof -
  note h = created_handle [OF assms(1,2), of b]
  have "managed k"
    using createdLabels_get(1) [OF assms(2)] cc_Labels_buildConfig [of oor now name spec] assms(1) by (simp add: managed_def)
  then show ?thesis using h assms(3,4) by (simp add: kept_def is_halted_def mget_def)
qed

lemma create_healthy:
  assumes "healthy eng view rts" "wf_registry (view w)"
    and "decode CreateRequest_dec reqBody = Inr req" "cr_Name req \<noteq> []"
    and "map_of (cf_Profiles cfg) (cr_Profile req) = Some p" "Profile_validate p = None"
    and "sp_Runtime (newSpec (Options p)) \<in> rts" "pf_MaxSandboxes p = 0"
    and "wf_map (cr_Labels req)" "labelProfile \<notin> fst ` set (cr_Labels req)"
    and "view w (containerName (cr_Name req)) = None"
  shows "\<exists>i w' k. run_state (handleCreate (dockerBackend eng b drain) cfg c reqBody) w = ((respond 201 (BInfo i), c), w') \<and>
    w_Name i = cr_Name req \<and> w_Profile i = cr_Profile req \<and> w_State i = StateRunning \<and> four_digit_year (w_CreatedAt i) \<and> wf_map (w_Labels i) \<and>
    map_of (w_Labels i) = map_of (cr_Labels req) \<and>
    view w' = (view w)(containerName (cr_Name req) \<mapsto> k) \<and> wf_registry (view w') \<and> kept b (cr_Profile req) (cr_Name req) k \<and>
    hardened (k_cfg k) (k_host k) \<and> runs_under (cr_Profile req) p (k_cfg k) (k_host k) \<and> cc_Env (k_cfg k) = cr_Env req"
proof -
  from createOptions_ready [OF assms(6,7,10)] obtain lopts where lo: "labelOptions (cr_Labels req) = Inr lopts"
    and sv: "Spec_Validate (newSpec (createOptions p req lopts)) = None" "sp_Image (newSpec (createOptions p req lopts)) \<noteq> []"
      "sp_Runtime (newSpec (createOptions p req lopts)) \<in> rts" "\<forall>opt \<in> set (createOptions p req lopts). lib_option opt"
    and wf: "wf_map (sp_Labels (newSpec (createOptions p req lopts)))" .
  let ?o = "createOptions p req lopts"
  obtain w1 where w1: "view w1 = view w" "run_state (Open eng b (cr_Name req)) w = (open_spec b (view w) (cr_Name req), w1)"
    using Open_healthy [OF assms(1,2)] .
  have "wf_registry (view w1)" "\<And>k. view w1 (containerName (cr_Name req)) = Some k \<Longrightarrow> managed k"
    using assms(2,11) w1(1) by simp_all
  from Create_healthy [OF assms(1) this(1) assms(4) sv this(2), of b] obtain now k w' where
    cr: "run_state (Create eng b (cr_Name req) ?o) w1 = (Inr (handle b k), w')"
      "view w' = (view w)(containerName (cr_Name req) \<mapsto> k)" "k_status k = ''running''"
      "buildConfig (floatOutOfRange eng) now (cr_Name req) (newSpec ?o) = (k_cfg k, k_host k)" "wf_registry (view w')"
    using assms(11) w1(1) by (auto simp: create_spec_def)
  note h = created_handle [OF cr(4) wf, of b]
  have lb: "mget (i_Labels (ds_info (handle b k))) labelProfile = cr_Profile req"
    by (simp add: mget_def h(2) createOptions_spec(2) [OF lo])
  let ?i = "infoOf (ds_info (handle b k)) (cr_Profile req)"
  have "run_state (handleCreate (dockerBackend eng b drain) cfg c reqBody) w = ((respond 201 (BInfo ?i), c), w')"
    using assms(8,11) lb
    by (simp add: handleCreate_def assms(3-5) dockerBackend_def w1(2) open_spec_def existing_def reserve_def createUnder_def lo cr(1))
  moreover have "w_Name ?i = cr_Name req" "w_Profile ?i = cr_Profile req" "w_State ?i = StateRunning" "four_digit_year (w_CreatedAt ?i)" "wf_map (w_Labels ?i)"
    "map_of (w_Labels ?i) = map_of (cr_Labels req)"
    using callerLabels_created [OF lo assms(9) h(2)] cr(3) by (simp_all add: infoOf_def h stateFromStatus_def wf_map_callerLabels)
  moreover have "cc_Env (k_cfg k) = cr_Env req" 
    using cc_Env_buildConfig [of "floatOutOfRange eng" now "cr_Name req" "newSpec ?o"] cr(4) createOptions_env [OF lo, of p] by simp
  moreover have "kept b (cr_Profile req) (cr_Name req) k"
    by (rule created_kept [OF cr(4) wf cr(3)]) (simp add: mget_def createOptions_spec(2) [OF lo])
  ultimately show ?thesis using cr(2,5) created_runs_under [OF lo sv(1) cr(4)] by blast
qed

text \<open>A live sandbox under the requested profile is handed back, and nothing changes.\<close>

lemma create_live:
  assumes "healthy eng view rts" "wf_registry (view w)"
    and "decode CreateRequest_dec reqBody = Inr req" "cr_Name req \<noteq> []"
    and "map_of (cf_Profiles cfg) (cr_Profile req) = Some p" "Profile_validate p = None"
    and "sp_Runtime (newSpec (Options p)) \<in> rts" "labelProfile \<notin> fst ` set (cr_Labels req)"
    and "view w (containerName (cr_Name req)) = Some k" "kept b (cr_Profile req) (cr_Name req) k"
  shows "\<exists>w'. run_state (handleCreate (dockerBackend eng b drain) cfg c reqBody) w =
      ((respond 201 (BInfo (infoOf (ds_info (handle b k)) (cr_Profile req))), c), w') \<and> view w' = view w"
proof -
  from createOptions_ready [OF assms(6,7,8)] obtain lopts where lo: "labelOptions (cr_Labels req) = Inr lopts"
    and sv: "Spec_Validate (newSpec (createOptions p req lopts)) = None" "sp_Image (newSpec (createOptions p req lopts)) \<noteq> []"
      "sp_Runtime (newSpec (createOptions p req lopts)) \<in> rts" "\<forall>opt \<in> set (createOptions p req lopts). lib_option opt" .
  obtain w1 where w1: "view w1 = view w" "run_state (Open eng b (cr_Name req)) w = (open_spec b (view w) (cr_Name req), w1)"
    using Open_healthy [OF assms(1,2)] .
  have "wf_registry (view w1)" "\<And>k. view w1 (containerName (cr_Name req)) = Some k \<Longrightarrow> managed k"
    using assms(2,9,10) w1(1) by (simp_all add: kept_def)
  from Create_healthy [OF assms(1) this(1) assms(4) sv this(2), of b] obtain w' where
    cr: "run_state (Create eng b (cr_Name req) (createOptions p req lopts)) w1 = (Inr (handle b k), w')" "view w' = view w"
    using assms(9,10) w1(1) by (auto simp: create_spec_def kept_def)
  have "run_state (handleCreate (dockerBackend eng b drain) cfg c reqBody) w =
      ((respond 201 (BInfo (infoOf (ds_info (handle b k)) (cr_Profile req))), c), w')"
    using assms(9,10)
    by (simp add: handleCreate_def assms(3-5) dockerBackend_def w1(2) open_spec_def existing_def createUnder_def lo cr(1) kept_def)
  with cr(2) show ?thesis by blast
qed


lemma demo_create_sel [simp]:
  "cr_Name demo_create = ''box''" "cr_Profile demo_create = ''py''" "cr_Env demo_create = []" "cr_Labels demo_create = []"
  by (simp_all add: demo_create_def)

lemma demo_profile_ok: "Profile_validate demo_profile = None" "pf_MaxSandboxes demo_profile = 0"
  "sp_Runtime (newSpec (Options demo_profile)) = ''runsc''" "map_of (cf_Profiles demo_config) ''py'' = Some demo_profile"
proof -
  have "demo_profile\<lparr>pf_DefaultTimeout := 0\<rparr> = demo_profile" by (simp add: demo_profile_def)
  then show "Profile_validate demo_profile = None" using demo_profile_valid [of 0] by simp
  show "pf_MaxSandboxes demo_profile = 0" "sp_Runtime (newSpec (Options demo_profile)) = ''runsc''"
    "map_of (cf_Profiles demo_config) ''py'' = Some demo_profile"
    by (simp_all only: Options_policy) (simp_all add: demo_profile_def demo_config_def DefaultRuntime_def)
qed



end
