(* ===== verification/Broker_Client.thy ===== *)
theory Broker_Client
  imports Daemon_Requests
begin

text \<open>
  Package \<^verbatim>\<open>pkg/brokerclient\<close>: the client of the daemon, which stands in for the Docker
  backend. Every operation is one request over a transport; the transport and the world it
  acts on are parameters, and \<open>daemonTransport\<close> is the one that ends in the daemon of this
  development. The redirects \<^verbatim>\<open>http.Client\<close> follows on its own are part of the model.
\<close>

section \<open>Transport\<close>

text \<open>
  A response as the client reads it; \<open>nr_Whole\<close> tells whether its body ends where the
  server ended it or breaks off. \<open>Switched\<close> is a connection handed over after status 101.
\<close>

record netResponse =
  nr_Status :: nat
  nr_Location :: string
  nr_Body :: string
  nr_Whole :: bool

datatype 'c reply = Response netResponse | Switched 'c

type_synonym ('w, 'c) transport = "request \<Rightarrow> ('w, 'c reply result) state"

text \<open>
  \<^verbatim>\<open>http.Client.Do\<close>: statuses 301, 302 and 303 are followed with a GET without a body
  (HEAD stays HEAD), 307 and 308 with the request as it was; nine times at most, ten requests in all.
\<close>

definition redirected :: "request \<Rightarrow> netResponse \<Rightarrow> request option" where
  "redirected rq r =
     (if nr_Location r = [] then None
      else if nr_Status r \<in> {301, 302, 303}
      then Some \<lparr> rq_Method = (if rq_Method rq = ''HEAD'' then ''HEAD'' else ''GET''), rq_Path = nr_Location r, rq_Body = [] \<rparr>
      else if nr_Status r \<in> {307, 308} then Some (rq\<lparr>rq_Path := nr_Location r\<rparr>)
      else None)"

fun httpDo :: "nat \<Rightarrow> ('w, 'c) transport \<Rightarrow> request \<Rightarrow> ('w, netResponse result) state" where
  "httpDo n tr rq = do {
     r \<leftarrow> tr rq;
     (case r of
        Inl err \<Rightarrow> State_Monad.return (Inl err)
      | Inr (Switched c) \<Rightarrow> State_Monad.return (Inr \<lparr> nr_Status = 101, nr_Location = [], nr_Body = [], nr_Whole = True \<rparr>)
      | Inr (Response resp) \<Rightarrow>
          (case redirected rq resp of
             None \<Rightarrow> State_Monad.return (Inr resp)
           | Some rq' \<Rightarrow>
               (case n of
                  0 \<Rightarrow> State_Monad.return (Inl (errorsNew ''stopped after 10 redirects''))
                | Suc m \<Rightarrow> httpDo m tr rq'))) }"

declare httpDo.simps [simp del]

section \<open>The client (client.go, options.go)\<close>

record Client =
  cl_target :: string
  cl_signer :: "Signer option"
  cl_previewBase :: string
  cl_previewHandler :: "Handler option"

type_synonym ClientOption = "Client \<Rightarrow> Client result"

definition client_WithPreviews :: "string \<Rightarrow> string \<Rightarrow> ClientOption" where
  "client_WithPreviews key baseURL = (\<lambda>c.
     case NewSigner key of
       Inl err \<Rightarrow> Inl err
     | Inr signer \<Rightarrow>
         if baseURL = [] then Inl (wrapErr ''%w: preview base URL is empty'' ErrInvalid)
         else Inr (c\<lparr>cl_signer := Some signer, cl_previewBase := baseURL, cl_previewHandler := Some (NewHandler signer)\<rparr>))"

fun applyClientOptions :: "ClientOption list \<Rightarrow> Client \<Rightarrow> Client result" where
  "applyClientOptions [] c = Inr c"
| "applyClientOptions (opt # opts) c =
     (case opt c of Inl err \<Rightarrow> Inl err | Inr c' \<Rightarrow> applyClientOptions opts c')"

definition newClient :: "string \<Rightarrow> ClientOption list \<Rightarrow> Client result" where
  "newClient target opts =
     applyClientOptions opts \<lparr> cl_target = target, cl_signer = None, cl_previewBase = [], cl_previewHandler = None \<rparr>"

definition NewClient :: "string \<Rightarrow> ClientOption list \<Rightarrow> Client result" where
  "NewClient socketPath opts =
     (if socketPath = [] then Inl (wrapErr ''%w: socket path is empty'' ErrInvalid) else newClient socketPath opts)"

definition client_PreviewHandler :: "Client \<Rightarrow> Handler option" where
  "client_PreviewHandler c = cl_previewHandler c"

definition profileLabel :: string where "profileLabel = ''brokerclient.profile''"

definition WithProfile :: "string \<Rightarrow> CreateOption" where
  "WithProfile name = WithLabel profileLabel name"

text \<open>Go's comparison of two \<^verbatim>\<open>Resources\<close> structs.\<close>

definition resources_eq :: "Resources \<Rightarrow> Resources \<Rightarrow> bool" where
  "resources_eq a b \<longleftrightarrow> f64_eq (CPUs a) (CPUs b) \<and> MemoryBytes a = MemoryBytes b \<and> DiskBytes a = DiskBytes b \<and>
     MaxProcesses a = MaxProcesses b"

definition policyFields :: "Spec \<Rightarrow> string list" where
  "policyFields spec =
     (let d = newSpec [] in
      (if sp_Image spec \<noteq> sp_Image d then [''image''] else [])
      @ (if sp_Runtime spec \<noteq> sp_Runtime d then [''runtime''] else [])
      @ (if sp_User spec \<noteq> sp_User d then [''user''] else [])
      @ (if sp_Egress spec \<noteq> sp_Egress d then [''egress''] else [])
      @ (if \<not> resources_eq (sp_Resources spec) (sp_Resources d) then [''resources''] else [])
      @ (if sp_Lifetime spec \<noteq> sp_Lifetime d then [''lifetime''] else [])
      @ (if sp_DefaultTimeout spec \<noteq> sp_DefaultTimeout d \<or> sp_MaxTimeout spec \<noteq> sp_MaxTimeout d then [''timeouts''] else []))"

definition plural :: "int \<Rightarrow> string" where
  "plural n = (if n = 1 then ''is'' else ''are'')"

text \<open>
  \<^verbatim>\<open>errorFrom\<close>. The message of the body becomes part of the text, which the model leaves out.
\<close>

definition errorFrom :: "netResponse \<Rightarrow> gerr" where
  "errorFrom resp =
     (case unmarshal (WireError_dec False) (nr_Body resp) of
        None \<Rightarrow> wrapErr ''%w: openbloxd returned status %d'' ErrInternal
      | Some e \<Rightarrow> Errorf ''%w: %s'' [ErrorFor (we_Kind e)])"

text \<open>
  \<^verbatim>\<open>do\<close>: the body is encoded, a status outside 200 to 299 is an error, and \<open>dec\<close> reads the body
  of the others. Neither encoding these bodies nor building the request fails.
\<close>

definition client_do ::
    "('w, 'c) transport \<Rightarrow> string \<Rightarrow> string \<Rightarrow> json option \<Rightarrow> (string \<Rightarrow> 'a option) \<Rightarrow> ('w, 'a result) state" where
  "client_do tr mth path reqBody dec = do {
     r \<leftarrow> httpDo 9 tr \<lparr> rq_Method = mth, rq_Path = path, rq_Body = (case reqBody of None \<Rightarrow> [] | Some j \<Rightarrow> print_json j) \<rparr>;
     State_Monad.return (case r of
       Inl err \<Rightarrow> Inl (Errorf ''openbloxd (%s): request failed: %w'' [err])
     | Inr resp \<Rightarrow>
         if nr_Status resp < 200 \<or> nr_Status resp \<ge> 300 then Inl (errorFrom resp)
         else case dec (nr_Body resp) of
                None \<Rightarrow> Inl (errorsNew ''decode response: %w'')
              | Some v \<Rightarrow> Inr v) }"

text \<open>No response body is wanted.\<close>

definition noBody :: "string \<Rightarrow> unit option" where
  "noBody s = Some ()"

definition errorOnly :: "unit result \<Rightarrow> gerr option" where
  "errorOnly r = (case r of Inl err \<Rightarrow> Some err | Inr _ \<Rightarrow> None)"

record brokerSandbox =
  bs_client :: Client
  bs_name :: string
  bs_info :: Info

definition wireInfoFrom :: "WireInfo \<Rightarrow> Info" where
  "wireInfoFrom i =
     \<lparr> i_Name = w_Name i, i_ID = w_ID i, i_Image = w_Image i, i_State = w_State i,
       i_CreatedAt = w_CreatedAt i, i_Labels = w_Labels i \<rparr>"

definition sandboxFrom :: "Client \<Rightarrow> WireInfo \<Rightarrow> brokerSandbox" where
  "sandboxFrom c info = \<lparr> bs_client = c, bs_name = w_Name info, bs_info = wireInfoFrom info \<rparr>"

definition sandboxPath :: "string \<Rightarrow> string" where
  "sandboxPath name = ''/sandboxes/'' @ pathEscape name"

definition createRequest :: "string \<Rightarrow> CreateOption list \<Rightarrow> CreateRequest" where
  "createRequest name opts =
     (let spec = newSpec opts in
      \<lparr> cr_Name = name, cr_Profile = mget (sp_Labels spec) profileLabel, cr_Env = sp_Env spec,
        cr_Labels = mdel profileLabel (sp_Labels spec) \<rparr>)"

definition client_Create ::
    "('w, 'c) transport \<Rightarrow> Client \<Rightarrow> string \<Rightarrow> CreateOption list \<Rightarrow> ('w, brokerSandbox result) state" where
  "client_Create tr c name opts =
     (let spec = newSpec opts; req = createRequest name opts in
      if cr_Profile req = [] then State_Monad.return (Inl (wrapErr ''%w: no profile; pass brokerclient.WithProfile'' ErrInvalid))
      else if policyFields spec \<noteq> []
      then State_Monad.return (Inl (wrapErr ''%w: %s %s daemon policy and cannot be set per-request; configure them in the profile'' ErrInvalid))
      else do {
        r \<leftarrow> client_do tr ''POST'' ''/sandboxes'' (Some (CreateRequest_json req)) (unmarshal (WireInfo_dec False));
        State_Monad.return (case r of Inl err \<Rightarrow> Inl err | Inr info \<Rightarrow> Inr (sandboxFrom c info)) })"

definition client_Open :: "('w, 'c) transport \<Rightarrow> Client \<Rightarrow> string \<Rightarrow> ('w, brokerSandbox result) state" where
  "client_Open tr c name = do {
     r \<leftarrow> client_do tr ''GET'' (sandboxPath name) None (unmarshal (WireInfo_dec False));
     State_Monad.return (case r of Inl err \<Rightarrow> Inl err | Inr info \<Rightarrow> Inr (sandboxFrom c info)) }"

definition client_List :: "('w, 'c) transport \<Rightarrow> ('w, Info list result) state" where
  "client_List tr = do {
     r \<leftarrow> client_do tr ''GET'' ''/sandboxes'' None (unmarshal (list_dec (WireInfo_dec False)));
     State_Monad.return (case r of Inl err \<Rightarrow> Inl err | Inr infos \<Rightarrow> Inr (map wireInfoFrom infos)) }"

definition client_Destroy :: "('w, 'c) transport \<Rightarrow> string \<Rightarrow> ('w, gerr option) state" where
  "client_Destroy tr name = do {
     r \<leftarrow> client_do tr ''DELETE'' (sandboxPath name) None noBody;
     State_Monad.return (errorOnly r) }"

definition client_Profiles :: "('w, 'c) transport \<Rightarrow> ('w, ProfileInfo list result) state" where
  "client_Profiles tr = client_do tr ''GET'' ''/profiles'' None (unmarshal (list_dec (ProfileInfo_dec False)))"

section \<open>Handles (sandbox.go)\<close>

definition route_of :: "brokerSandbox \<Rightarrow> string \<Rightarrow> string" where
  "route_of s suffix = sandboxPath (bs_name s) @ suffix"

definition filesRoute :: "brokerSandbox \<Rightarrow> string \<Rightarrow> string" where
  "filesRoute s dest = route_of s ''/files/'' @ pathEscape dest"

definition client_Exec :: "('w, 'c) transport \<Rightarrow> brokerSandbox \<Rightarrow> Command \<Rightarrow> ('w, Result result) state" where
  "client_Exec tr s cmd =
     (case Command_Validate cmd of
        Some err \<Rightarrow> State_Monad.return (Inl err)
      | None \<Rightarrow>
          if c_Stdin cmd \<noteq> None
          then State_Monad.return (Inl (wrapErr ''%w: exec stdin is not supported over the broker'' ErrInvalid))
          else do {
            r \<leftarrow> client_do tr ''POST'' (route_of s ''/exec'')
              (Some (ExecRequest_json
                \<lparr> er_Argv = c_Argv cmd, er_Env = c_Env cmd, er_Dir = c_Dir cmd,
                  er_Timeout = (if c_Timeout cmd > 0 then durString (c_Timeout cmd) else []) \<rparr>))
              (unmarshal (ExecResponse_dec False));
            State_Monad.return (case r of
              Inl err \<Rightarrow> Inl err
            | Inr resp \<Rightarrow>
                Inr \<lparr> r_Stdout = x_Stdout resp, r_Stderr = x_Stderr resp, r_ExitCode = x_ExitCode resp,
                      r_Truncated = x_Truncated resp, r_Stopped = x_Stopped resp, r_OOMKilled = x_OOMKilled resp \<rparr>) })"

definition client_WriteFile ::
    "('w, 'c) transport \<Rightarrow> brokerSandbox \<Rightarrow> string \<Rightarrow> nat \<Rightarrow> string \<Rightarrow> ('w, gerr option) state" where
  "client_WriteFile tr s dest mode src =
     (if \<not> isAbs dest then State_Monad.return (Some (wrapErr ''%w: path %q is not absolute'' ErrInvalid))
      else do {
        r \<leftarrow> httpDo 9 tr \<lparr> rq_Method = ''PUT'', rq_Path = filesRoute s dest, rq_Body = src \<rparr>;
        State_Monad.return (case r of
          Inl err \<Rightarrow> Some (Errorf ''openbloxd: request failed: %w'' [err])
        | Inr resp \<Rightarrow> if nr_Status resp < 200 \<or> nr_Status resp \<ge> 300 then Some (errorFrom resp) else None) })"

text \<open>The reader \<^verbatim>\<open>ReadFile\<close> returns is the body of the response.\<close>

definition client_ReadFile :: "('w, 'c) transport \<Rightarrow> brokerSandbox \<Rightarrow> string \<Rightarrow> ('w, netResponse result) state" where
  "client_ReadFile tr s dest =
     (if \<not> isAbs dest then State_Monad.return (Inl (wrapErr ''%w: path %q is not absolute'' ErrInvalid))
      else do {
        r \<leftarrow> httpDo 9 tr \<lparr> rq_Method = ''GET'', rq_Path = filesRoute s dest, rq_Body = [] \<rparr>;
        State_Monad.return (case r of
          Inl err \<Rightarrow> Inl (Errorf ''openbloxd: request failed: %w'' [err])
        | Inr resp \<Rightarrow> if nr_Status resp \<noteq> 200 then Inl (errorFrom resp) else Inr resp) })"

definition client_StartProcess :: "('w, 'c) transport \<Rightarrow> brokerSandbox \<Rightarrow> string \<Rightarrow> Command \<Rightarrow> ('w, gerr option) state" where
  "client_StartProcess tr s name cmd =
     (if c_Stdin cmd \<noteq> None
      then State_Monad.return (Some (wrapErr ''%w: process stdin is not supported over the broker'' ErrInvalid))
      else do {
        r \<leftarrow> client_do tr ''POST'' (route_of s ''/processes'')
          (Some (ProcessRequest_json \<lparr> pr_Name = name, pr_Argv = c_Argv cmd, pr_Env = c_Env cmd, pr_Dir = c_Dir cmd \<rparr>)) noBody;
        State_Monad.return (errorOnly r) })"

definition client_Stop :: "('w, 'c) transport \<Rightarrow> brokerSandbox \<Rightarrow> ('w, gerr option) state" where
  "client_Stop tr s = do {
     r \<leftarrow> client_do tr ''POST'' (route_of s ''/stop'') None noBody;
     State_Monad.return (errorOnly r) }"

definition client_DefaultPreviewTTL :: duration where "client_DefaultPreviewTTL = minutes 10"

text \<open>\<^verbatim>\<open>Expose\<close> reads the clock and draws a nonce, and calls nobody.\<close>

definition client_Expose :: "instant \<Rightarrow> string option \<Rightarrow> brokerSandbox \<Rightarrow> int \<Rightarrow> duration \<Rightarrow> Preview result" where
  "client_Expose now nonce s port ttl =
     (case cl_signer (bs_client s) of
        None \<Rightarrow> Inl (wrapErr ''%w: previews are not configured; pass brokerclient.WithPreviews to New'' ErrInvalid)
      | Some signer \<Rightarrow>
          if port < 1 \<or> port > 65535 then Inl (wrapErr ''%w: port %d is out of range'' ErrInvalid)
          else
            let expiresAt = now + ClampTTL ttl client_DefaultPreviewTTL
            in case Sign signer (bs_name s) port expiresAt nonce of
                 Inl err \<Rightarrow> Inl (Errorf ''%w: %w'' [Sentinel ErrInvalid, err])
               | Inr token \<Rightarrow>
                   Inr \<lparr> p_URL = URL (cl_previewBase (bs_client s)) (bs_name s) port, p_Token = token, p_Port = port,
                         p_ExpiresAt = expiresAt \<rparr>)"

definition client_Revoke :: "brokerSandbox \<Rightarrow> int \<Rightarrow> string \<Rightarrow> instant \<Rightarrow> Handler \<Rightarrow> gerr option \<times> Handler" where
  "client_Revoke s port token now handler =
     (case cl_signer (bs_client s) of
        None \<Rightarrow> (Some (wrapErr ''%w: previews are not configured'' ErrInvalid), handler)
      | Some signer \<Rightarrow>
          (case Verify signer token (bs_name s) port now of
             Some err \<Rightarrow> (Some (Errorf ''%w: %w'' [Sentinel ErrInvalid, err]), handler)
           | None \<Rightarrow> (None, Revoke handler token now)))"

section \<open>Dialling (dial.go)\<close>

text \<open>The handshake goes over one connection of its own and follows no redirect.\<close>

definition client_DialPort :: "('w, 'c) transport \<Rightarrow> string \<Rightarrow> int \<Rightarrow> ('w, 'c result) state" where
  "client_DialPort tr name port =
     (if port < 1 \<or> port > 65535 then State_Monad.return (Inl (wrapErr ''%w: port %d is out of range'' ErrInvalid))
      else do {
        r \<leftarrow> tr \<lparr> rq_Method = ''GET'', rq_Path = sandboxPath name @ ''/dial/'' @ itoa port, rq_Body = [] \<rparr>;
        State_Monad.return (case r of
          Inl err \<Rightarrow> Inl (Errorf ''dial port %d in %q: %w'' [err])
        | Inr (Switched c) \<Rightarrow> Inr c
        | Inr (Response resp) \<Rightarrow> Inl (errorFrom resp)) })"

section \<open>Over the network (remote.go)\<close>

record TLSFiles =
  tf_CertFile :: string
  tf_KeyFile :: string
  tf_CAFile :: string
  tf_ServerName :: string

text \<open>What the dialler verifies the daemon with; there is no field to switch verification off.\<close>

record clientTLS =
  ct_MinVersion :: nat
  ct_Certificate :: string
  ct_RootCAs :: string
  ct_ServerName :: string

text \<open>
  Loading a key pair, reading a file and finding certificates in a PEM file are the standard
  library's work on files and stand as parameters.
\<close>

definition TLSFiles_config ::
    "(string \<Rightarrow> string \<Rightarrow> string result) \<Rightarrow> (string \<Rightarrow> string result) \<Rightarrow> (string \<Rightarrow> bool) \<Rightarrow> TLSFiles \<Rightarrow> clientTLS result" where
  "TLSFiles_config loadKeyPair readFile hasCert f =
     (if tf_CertFile f = [] \<or> tf_KeyFile f = [] \<or> tf_CAFile f = []
      then Inl (wrapErr ''%w: cert, key and CA files are all required to reach openbloxd over a network'' ErrInvalid)
      else case loadKeyPair (tf_CertFile f) (tf_KeyFile f) of
        Inl err \<Rightarrow> Inl (Errorf ''load client keypair: %w'' [err])
      | Inr cert \<Rightarrow>
          (case readFile (tf_CAFile f) of
             Inl err \<Rightarrow> Inl (Errorf ''read CA %q: %w'' [err])
           | Inr caPEM \<Rightarrow>
               if \<not> hasCert caPEM then Inl (wrapErr ''%w: CA %q contains no certificate'' ErrInvalid)
               else Inr \<lparr> ct_MinVersion = VersionTLS13, ct_Certificate = cert, ct_RootCAs = caPEM,
                          ct_ServerName = tf_ServerName f \<rparr>))"

definition NewRemote ::
    "(string \<Rightarrow> string \<Rightarrow> string result) \<Rightarrow> (string \<Rightarrow> string result) \<Rightarrow> (string \<Rightarrow> bool) \<Rightarrow>
       string \<Rightarrow> TLSFiles \<Rightarrow> ClientOption list \<Rightarrow> (Client \<times> clientTLS) result" where
  "NewRemote loadKeyPair readFile hasCert address files opts =
     (if address = [] then Inl (wrapErr ''%w: address is empty'' ErrInvalid)
      else case TLSFiles_config loadKeyPair readFile hasCert files of
        Inl err \<Rightarrow> Inl err
      | Inr cfg \<Rightarrow> (case newClient address opts of Inl err \<Rightarrow> Inl err | Inr c \<Rightarrow> Inr (c, cfg)))"

section \<open>The daemon at the other end\<close>

text \<open>
  A request carried to the daemon: the world is the backend's together with the daemon's
  reservations. A redirect names its target, a broken stream is noticed.
\<close>

definition wireResponse :: "(gerr \<Rightarrow> string) \<Rightarrow> response \<Rightarrow> netResponse" where
  "wireResponse render r =
     \<lparr> nr_Status = rs_Status r,
       nr_Location = (case rs_Body r of BText loc \<Rightarrow> if rs_Status r = 301 then loc else [] | _ \<Rightarrow> []),
       nr_Body = encodeBody render (rs_Body r),
       nr_Whole = (case rs_Body r of BStream _ whole \<Rightarrow> whole | _ \<Rightarrow> True) \<rparr>"

definition daemonTransport ::
    "(gerr \<Rightarrow> string) \<Rightarrow> ('w, 'h, 'r, 'c) daemonBackend \<Rightarrow> Config \<Rightarrow> ('w \<times> capacity, 'c) transport" where
  "daemonTransport render be cfg rq = State (\<lambda>(w, c).
     case run_state (serve be cfg True c rq) w of
       ((Answer r, c'), w') \<Rightarrow> (Inr (Response (wireResponse render r)), (w', c'))
     | ((Upgraded x, c'), w') \<Rightarrow> (Inr (Switched x), (w', c')))"


section \<open>Routing\<close>

text \<open>The names whose path reaches a handler.\<close>

definition routable :: "string \<Rightarrow> bool" where
  "routable name \<longleftrightarrow> name \<notin> {[], ''.'', ''..'', ''/''}"

lemma sandboxPath_slashed: "sandboxPath name = slashed [''sandboxes'', pathEscape name]"
  by (simp add: sandboxPath_def)

lemma plain_literals [simp]:
  "plain_seg ''sandboxes''" "plain_seg ''stop''" "plain_seg ''exec''" "plain_seg ''files''" "plain_seg ''processes''" "plain_seg ''dial''"
  by (simp_all add: plain_seg_def)

lemma unescape_literals [simp]:
  "unescapeOr ''sandboxes'' = ''sandboxes''" "unescapeOr ''stop'' = ''stop''" "unescapeOr ''exec'' = ''exec''"
  "unescapeOr ''files'' = ''files''" "unescapeOr ''processes'' = ''processes''" "unescapeOr ''dial'' = ''dial''"
  by (simp_all add: plain_seg_literal)

lemma routable_plain: "routable name \<Longrightarrow> plain_seg (pathEscape name) \<and> name \<noteq> ''/''"
  by (auto simp: routable_def plain_seg_pathEscape)

lemma findHandler_plain:
  "ss \<noteq> [] \<Longrightarrow> \<forall>s \<in> set ss. plain_seg s \<Longrightarrow> map_option snd (matchIn t mth (slashed ss)) = Some (h, vs) \<Longrightarrow>
     findHandler t mth (slashed ss) = Routed h vs"
  using findHandler_slashed by (auto simp: map_option_case split: option.splits)

lemma routes_name:
  assumes "routable name"
  shows "findHandler routes ''GET'' (sandboxPath name) = Routed EGet [name]"
    "findHandler routes ''DELETE'' (sandboxPath name) = Routed EDestroy [name]"
  unfolding sandboxPath_slashed
  by (rule findHandler_plain;
      use routable_plain [OF assms] in \<open>simp add: routes_def matchPath_slashed del: slashed_simps matchPath.simps\<close>)+

lemma route_of_slashed: "route_of s (CHR ''/'' # suffix) = slashed [''sandboxes'', pathEscape (bs_name s), suffix]"
  by (simp add: route_of_def sandboxPath_def)

lemma routes_suffix:
  assumes "routable (bs_name s)"
  shows "findHandler routes ''POST'' (route_of s ''/exec'') = Routed EExec [bs_name s]"
    "findHandler routes ''POST'' (route_of s ''/stop'') = Routed EStop [bs_name s]"
    "findHandler routes ''POST'' (route_of s ''/processes'') = Routed EStartProcess [bs_name s]"
  unfolding route_of_slashed
  by (rule findHandler_plain;
      use routable_plain [OF assms] in \<open>simp add: routes_def matchPath_slashed del: slashed_simps matchPath.simps\<close>)+

lemma routes_files:
  assumes "routable (bs_name s)" "isAbs dest"
  shows "findHandler routes ''PUT'' (filesRoute s dest) = Routed EWriteFile [bs_name s, dest]"
    "findHandler routes ''GET'' (filesRoute s dest) = Routed EReadFile [bs_name s, dest]"
proof -
  have f: "filesRoute s dest = slashed [''sandboxes'', pathEscape (bs_name s), ''files'', pathEscape dest]"
    by (simp add: filesRoute_def route_of_def sandboxPath_def)
  have d: "plain_seg (pathEscape dest)" using assms(2) by (auto simp: plain_seg_pathEscape isAbs_def)
  show "findHandler routes ''PUT'' (filesRoute s dest) = Routed EWriteFile [bs_name s, dest]"
    "findHandler routes ''GET'' (filesRoute s dest) = Routed EReadFile [bs_name s, dest]"
    unfolding f
    by (rule findHandler_plain;
        use routable_plain [OF assms(1)] d in \<open>simp add: routes_def matchPath_slashed del: slashed_simps matchPath.simps\<close>; simp)+
qed

lemma itoa_plain: "plain_seg (itoa n)" "unescapeOr (itoa n) = itoa n" "itoa n \<noteq> ''/''"
proof -
  have c: "c \<in> set (itoa n) \<Longrightarrow> c \<noteq> CHR ''/'' \<and> c \<noteq> CHR ''.'' \<and> c \<noteq> CHR ''%''" for c
    by (auto simp: is_digit_def digit_val_def dest!: itoa_chars)
  obtain a u where "itoa n = a # u" using itoa_head [of n] by blast
  with c show p: "plain_seg (itoa n)" "itoa n \<noteq> ''/''" by (fastforce simp: plain_seg_def)+
  show "unescapeOr (itoa n) = itoa n" using plain_seg_literal [OF p(1)] c by blast
qed

lemma routes_dial:
  assumes "routable name"
  shows "findHandler routes ''GET'' (sandboxPath name @ ''/dial/'' @ itoa port) = Routed EDial [name, itoa port]"
proof -
  have f: "sandboxPath name @ ''/dial/'' @ itoa port = slashed [''sandboxes'', pathEscape name, ''dial'', itoa port]"
    by (simp add: sandboxPath_def)
  show ?thesis
    unfolding f
    by (rule findHandler_plain;
        use routable_plain [OF assms] itoa_plain [of port] in \<open>simp add: routes_def matchPath_slashed del: slashed_simps matchPath.simps\<close>)
qed


section \<open>One request through the daemon\<close>

lemma httpDo_answer:
  assumes "run_state (tr rq) s = (Inr (Response resp), s')" "nr_Location resp = []"
  shows "run_state (httpDo n tr rq) s = (Inr resp, s')"
  using assms by (simp add: httpDo.simps redirected_def)

lemma transport_routed:
  assumes "findHandler routes (rq_Method rq) (rq_Path rq) = Routed e vs"
    and "run_state (dispatch be cfg True c e vs (rq_Body rq)) w = ((Answer r, c'), w')"
  shows "run_state (daemonTransport render be cfg rq) (w, c) = (Inr (Response (wireResponse render r)), (w', c'))"
  using assms by (simp add: daemonTransport_def serve_def)

lemma http_routed:
  assumes "findHandler routes (rq_Method rq) (rq_Path rq) = Routed e vs"
    and "run_state (dispatch be cfg True c e vs (rq_Body rq)) w = ((Answer r, c'), w')" "\<And>t. rs_Body r \<noteq> BText t"
  shows "run_state (httpDo n (daemonTransport render be cfg) rq) (w, c) = (Inr (wireResponse render r), (w', c'))"
  by (rule httpDo_answer, rule transport_routed [OF assms(1,2)]) (use assms(3) in \<open>auto simp: wireResponse_def split: body.splits\<close>)

text \<open>What a handler's answer becomes for the caller of \<^verbatim>\<open>do\<close>.\<close>

definition receive :: "(gerr \<Rightarrow> string) \<Rightarrow> (string \<Rightarrow> 'a option) \<Rightarrow> response \<Rightarrow> 'a result" where
  "receive render dec r =
     (if rs_Status r < 200 \<or> rs_Status r \<ge> 300 then Inl (errorFrom (wireResponse render r))
      else case dec (encodeBody render (rs_Body r)) of
             None \<Rightarrow> Inl (errorsNew ''decode response: %w'')
           | Some v \<Rightarrow> Inr v)"

lemma do_routed:
  assumes "findHandler routes mth path = Routed e vs"
    and "run_state (dispatch be cfg True c e vs (case reqBody of None \<Rightarrow> [] | Some j \<Rightarrow> print_json j)) w = ((Answer r, c'), w')"
    and "\<And>t. rs_Body r \<noteq> BText t"
  shows "run_state (client_do (daemonTransport render be cfg) mth path reqBody dec) (w, c) = (receive render dec r, (w', c'))"
proof -
  have "run_state (httpDo 9 (daemonTransport render be cfg) \<lparr> rq_Method = mth, rq_Path = path,
      rq_Body = (case reqBody of None \<Rightarrow> [] | Some j \<Rightarrow> print_json j) \<rparr>) (w, c) = (Inr (wireResponse render r), (w', c'))"
    by (rule http_routed) (use assms in simp_all)
  then show ?thesis by (simp add: client_do_def receive_def wireResponse_def)
qed

text \<open>An error that crossed the wire.\<close>

definition wireErr :: "gerr \<Rightarrow> gerr" where
  "wireErr err = Errorf ''%w: %s'' [ErrorFor (fst (KindOf err))]"

lemma kinds_utf8: "coerceUTF8 (fst (KindOf err)) = fst (KindOf err)"
proof -
  have "\<forall>c \<in> set (fst (KindOf err)). byte c < 128" by (simp add: KindOf_def kind_defs)
  then show ?thesis by (rule coerceUTF8_ascii)
qed

lemma errorFrom_fail [simp]: "errorFrom (wireResponse render (fail err)) = wireErr err"
  using error_wire.unmarshal_enc [of nl False render] kinds_utf8 [of err]
  by (auto simp: errorFrom_def wireResponse_def fail_def respond_def encodeBody_def wireErr_def WireError_received_def split: prod.splits)

lemma fail_status: "rs_Status (fail err) < 200 \<or> rs_Status (fail err) \<ge> 300"
  using KindOf_status [of err] by (auto simp: fail_def respond_def split: prod.splits)

lemma receive_fail [simp]: "receive render dec (fail err) = Inl (wireErr err)"
  using fail_status [of err] by (simp add: receive_def)

lemma receive_noContent [simp]: "receive render noBody (noContent err) = (case err of None \<Rightarrow> Inr () | Some e \<Rightarrow> Inl (wireErr e))"
proof (cases err)
  case None
  then show ?thesis by (simp add: noContent_def receive_def respond_def noBody_def)
qed (simp add: noContent_def)

lemma receive_info:
  "four_digit_year (w_CreatedAt i) \<Longrightarrow> st = 200 \<or> st = 201 \<Longrightarrow>
     receive render (unmarshal (WireInfo_dec False)) (respond st (BInfo i)) = Inr (WireInfo_received i)"
  using info_wire.unmarshal_enc [of i nl False] by (auto simp: receive_def respond_def encodeBody_def)

lemma receive_infos:
  "\<forall>i \<in> set is. four_digit_year (w_CreatedAt i) \<Longrightarrow>
     receive render (unmarshal (list_dec (WireInfo_dec False))) (respond 200 (BInfos is)) = Inr (map WireInfo_received is)"
  using info_wire.unmarshal_list [of "is" nl False]
  by (simp add: receive_def respond_def encodeBody_def list_all_iff del: print_json.simps)

lemma receive_exec:
  "in_int64 (x_ExitCode x) \<Longrightarrow> receive render (unmarshal (ExecResponse_dec False)) (respond 200 (BExec x)) = Inr x"
  using result_wire.unmarshal_enc [of x nl False] by (simp add: receive_def respond_def encodeBody_def)

lemma no_text [simp]: "rs_Body (fail err) \<noteq> BText t" "rs_Body (noContent oe) \<noteq> BText t"
  by (auto simp: fail_def noContent_def respond_def split: prod.splits option.splits)


section \<open>The operations through the daemon\<close>

lemma dispatch_plain:
  "dispatch be cfg hijacked c EGet [name] b = answering c (handleGet be name)"
  "dispatch be cfg hijacked c EDestroy [name] b = answering c (handleDestroy be name)"
  "dispatch be cfg hijacked c EStop [name] b = answering c (handleStop be name)"
  "dispatch be cfg hijacked c EExec [name] b = answering c (handleExec be name b)"
  "dispatch be cfg hijacked c EStartProcess [name] b = answering c (handleStartProcess be name b)"
  "dispatch be cfg hijacked c EWriteFile [name, path] b = answering c (handleWriteFile be name path b)"
  "dispatch be cfg hijacked c EReadFile [name, path] b = answering c (handleReadFile be name path)"
  "dispatch be cfg hijacked c EList [] b = answering c (handleList be)"
  "dispatch be cfg hijacked c EDial [name, arg] b = State_Monad.bind (handleDial be hijacked name arg) (\<lambda>a. State_Monad.return (a, c))"
  by (simp_all add: dispatch_def pathValue_def)

text \<open>What a client sees of a sandbox.\<close>

definition seen :: "Info \<Rightarrow> Info" where
  "seen i = wireInfoFrom (WireInfo_received (infoOf i (mget (i_Labels i) labelProfile)))"

definition seenSandbox :: "Client \<Rightarrow> Info \<Rightarrow> brokerSandbox" where
  "seenSandbox cl i = \<lparr> bs_client = cl, bs_name = i_Name (seen i), bs_info = seen i \<rparr>"

lemma sandboxFrom_seen: "sandboxFrom cl (WireInfo_received (infoOf i (mget (i_Labels i) labelProfile))) = seenSandbox cl i"
  by (simp add: sandboxFrom_def seenSandbox_def seen_def wireInfoFrom_def)

lemma client_Open_run:
  assumes "routable name" "run_state (bk_Open be name) w = (r, w')"
    and "\<And>sb. r = Inr sb \<Longrightarrow> four_digit_year (i_CreatedAt (sb_Info be sb))"
  shows "run_state (client_Open (daemonTransport render be cfg) cl name) (w, c) =
    (case r of Inl err \<Rightarrow> Inl (wireErr err) | Inr sb \<Rightarrow> Inr (seenSandbox cl (sb_Info be sb)), (w', c))"
proof (cases r)
  case (Inl err)
  have "run_state (client_do (daemonTransport render be cfg) ''GET'' (sandboxPath name) None (unmarshal (WireInfo_dec False))) (w, c) =
      (receive render (unmarshal (WireInfo_dec False)) (fail err), (w', c))"
    by (rule do_routed [OF routes_name(1) [OF assms(1)]]) (simp_all add: dispatch_plain answering_def handleGet_def assms(2) Inl)
  then show ?thesis by (simp add: client_Open_def Inl)
next
  case (Inr sb)
  let ?i = "infoOf (sb_Info be sb) (mget (i_Labels (sb_Info be sb)) labelProfile)"
  have "run_state (client_do (daemonTransport render be cfg) ''GET'' (sandboxPath name) None (unmarshal (WireInfo_dec False))) (w, c) =
      (receive render (unmarshal (WireInfo_dec False)) (respond 200 (BInfo ?i)), (w', c))"
    by (rule do_routed [OF routes_name(1) [OF assms(1)]]) (simp_all add: dispatch_plain answering_def handleGet_def assms(2) Inr respond_def)
  moreover have "four_digit_year (w_CreatedAt ?i)" using assms(3) [OF Inr] by (simp add: infoOf_def)
  ultimately show ?thesis by (simp add: client_Open_def Inr receive_info sandboxFrom_seen)
qed

lemma client_Destroy_run:
  assumes "routable name" "run_state (bk_Destroy be name) w = (r, w')"
  shows "run_state (client_Destroy (daemonTransport render be cfg) name) (w, c) = (map_option wireErr r, (w', c))"
proof -
  have "run_state (client_do (daemonTransport render be cfg) ''DELETE'' (sandboxPath name) None noBody) (w, c) =
      (receive render noBody (noContent r), (w', c))"
    by (rule do_routed [OF routes_name(2) [OF assms(1)]]) (simp_all add: dispatch_plain answering_def handleDestroy_def assms(2))
  then show ?thesis by (cases r) (simp_all add: client_Destroy_def errorOnly_def)
qed

lemma route_list: "findHandler routes ''GET'' ''/sandboxes'' = Routed EList []"
  by code_simp

lemma client_List_run:
  assumes "run_state (bk_List be) w = (r, w')" "\<And>infos i. r = Inr infos \<Longrightarrow> i \<in> set infos \<Longrightarrow> four_digit_year (i_CreatedAt i)"
  shows "run_state (client_List (daemonTransport render be cfg)) (w, c) =
    (case r of Inl err \<Rightarrow> Inl (wireErr err) | Inr infos \<Rightarrow> Inr (map seen infos), (w', c))"
proof (cases r)
  case (Inl err)
  have "run_state (client_do (daemonTransport render be cfg) ''GET'' ''/sandboxes'' None (unmarshal (list_dec (WireInfo_dec False)))) (w, c) =
      (receive render (unmarshal (list_dec (WireInfo_dec False))) (fail err), (w', c))"
    by (rule do_routed [OF route_list]) (simp_all add: dispatch_plain answering_def handleList_def assms(1) Inl)
  then show ?thesis by (simp add: client_List_def Inl)
next
  case (Inr infos)
  let ?is = "map (\<lambda>i. infoOf i (mget (i_Labels i) labelProfile)) infos"
  have "run_state (client_do (daemonTransport render be cfg) ''GET'' ''/sandboxes'' None (unmarshal (list_dec (WireInfo_dec False)))) (w, c) =
      (receive render (unmarshal (list_dec (WireInfo_dec False))) (respond 200 (BInfos ?is)), (w', c))"
    by (rule do_routed [OF route_list]) (simp_all add: dispatch_plain answering_def handleList_def assms(1) Inr respond_def)
  moreover have "\<forall>i \<in> set ?is. four_digit_year (w_CreatedAt i)" using assms(2) [OF Inr] by (auto simp: infoOf_def)
  ultimately show ?thesis by (simp add: client_List_def Inr receive_infos seen_def comp_def)
qed


lemma client_Stop_run:
  assumes "routable (bs_name s)" "run_state (bk_Open be (bs_name s)) w = (Inr sb, w1)" "run_state (sb_Stop be sb) w1 = (r, w2)"
  shows "run_state (client_Stop (daemonTransport render be cfg) s) (w, c) = (map_option wireErr r, (w2, c))"
proof -
  have "run_state (client_do (daemonTransport render be cfg) ''POST'' (route_of s ''/stop'') None noBody) (w, c) =
      (receive render noBody (noContent r), (w2, c))"
    by (rule do_routed [OF routes_suffix(2) [OF assms(1)]]) (simp_all add: dispatch_plain answering_def handleStop_def assms(2,3))
  then show ?thesis by (cases r) (simp_all add: client_Stop_def errorOnly_def)
qed

text \<open>The command as the daemon receives it.\<close>

definition sent :: "Command \<Rightarrow> Command" where
  "sent cmd = \<lparr> c_Argv = map coerceUTF8 (c_Argv cmd), c_Env = map coerceUTF8 (c_Env cmd), c_Dir = coerceUTF8 (c_Dir cmd),
                c_Stdin = None, c_Timeout = (if c_Timeout cmd > 0 then c_Timeout cmd else 0) \<rparr>"

definition execBody :: "Command \<Rightarrow> json" where
  "execBody cmd = ExecRequest_json
     \<lparr> er_Argv = c_Argv cmd, er_Env = c_Env cmd, er_Dir = c_Dir cmd,
       er_Timeout = (if c_Timeout cmd > 0 then durString (c_Timeout cmd) else []) \<rparr>"

lemma coerceUTF8_ascii_append: "\<forall>c \<in> set a. byte c < 128 \<Longrightarrow> coerceUTF8 (a @ s) = a @ coerceUTF8 s"
  by (induction a) (auto simp: coerceUTF8.simps(2))


lemma fmtFrac_ascii: "c \<in> set (fmtFrac k q) \<Longrightarrow> byte c < 128"
  using pad_digits [of c k q] by (auto simp: fmtFrac_def strip_zeros_def digit_ascii dest: set_dropWhileD split: if_splits)

lemma dec_nat_ascii: "c \<in> set (dec_nat n) \<Longrightarrow> byte c < 128"
  by (auto dest: dec_nat_digits digit_ascii)

lemma coerceUTF8_durString: "coerceUTF8 (durString d) = durString d"
proof -
  have "rune_bytes micro_sign" by code_simp
  then have m: "coerceUTF8 (micro_sign @ ''s'') = micro_sign @ ''s''"
    by (simp only: coerceUTF8_rune) (simp add: coerceUTF8_ascii)
  have "coerceUTF8 (dur_body u) = dur_body u" for u
  proof (cases "microsecond \<le> u \<and> u < millisecond")
    case True
    then have "dur_body u = dec_nat (u div microsecond) @ fmtFrac 3 (u mod microsecond) @ micro_sign @ ''s''"
      by (auto simp: dur_body_def)
    then show ?thesis by (simp only: coerceUTF8_ascii_append dec_nat_ascii fmtFrac_ascii ball_simps m) (simp add: coerceUTF8_ascii_append dec_nat_ascii fmtFrac_ascii m)
  next
    case False
    then have "\<forall>c \<in> set (dur_body u). byte c < 128"
      by (auto simp: dur_body_def Let_def dest: dec_nat_ascii fmtFrac_ascii)
    then show ?thesis by (rule coerceUTF8_ascii)
  qed
  then show ?thesis by (auto simp: durString_def coerceUTF8.simps(2))
qed

lemma exec_decoded:
  assumes "length (print_json (execBody cmd)) \<le> 2 ^ 20"
  shows "decode ExecRequest_dec (print_json (execBody cmd)) = Inr
    \<lparr> er_Argv = c_Argv (sent cmd), er_Env = c_Env (sent cmd), er_Dir = c_Dir (sent cmd),
      er_Timeout = (if c_Timeout cmd > 0 then durString (c_Timeout cmd) else []) \<rparr>"
  using exec_wire.decode_enc [OF TrueI assms [unfolded execBody_def]]
  by (simp add: execBody_def ExecRequest_received_def sent_def coerceUTF8_durString)

lemma client_Exec_run:
  assumes "routable (bs_name s)" "Command_Validate cmd = None" "c_Stdin cmd = None" "in_int64 (c_Timeout cmd)"
    and "length (print_json (execBody cmd)) \<le> 2 ^ 20"
    and "run_state (bk_Open be (bs_name s)) w = (Inr sb, w1)" "run_state (sb_Exec be sb (sent cmd)) w1 = (r, w2)"
    and "\<And>res. r = Inr res \<Longrightarrow> in_int64 (r_ExitCode res)"
  shows "run_state (client_Exec (daemonTransport render be cfg) s cmd) (w, c) =
    (case r of Inl err \<Rightarrow> Inl (wireErr err) | Inr res \<Rightarrow> Inr res, (w2, c))"
proof -
  let ?ans = "case r of Inl err \<Rightarrow> fail err | Inr res \<Rightarrow> respond 200 (BExec
    \<lparr> x_Stdout = r_Stdout res, x_Stderr = r_Stderr res, x_ExitCode = r_ExitCode res,
      x_Truncated = r_Truncated res, x_Stopped = r_Stopped res, x_OOMKilled = r_OOMKilled res \<rparr>)"
  have t: "durString (c_Timeout cmd) \<noteq> []"
    "parseDuration (durString (c_Timeout cmd)) = Some (c_Timeout cmd)"
    using parseDuration_durString [OF assms(4)] by (auto simp: durString_def dur_body_def Let_def)
  have "run_state (handleExec be (bs_name s) (print_json (execBody cmd))) w = (?ans, w2)"
    using assms(7)
    by (cases "c_Timeout cmd > 0") (simp_all add: handleExec_def exec_decoded [OF assms(5)] t assms(6) sent_def)
  then have "run_state (client_do (daemonTransport render be cfg) ''POST'' (route_of s ''/exec'') (Some (execBody cmd))
      (unmarshal (ExecResponse_dec False))) (w, c) = (receive render (unmarshal (ExecResponse_dec False)) ?ans, (w2, c))"
    by (intro do_routed [OF routes_suffix(1) [OF assms(1)]])
      (simp_all add: dispatch_plain answering_def respond_def split: sum.splits)
  then show ?thesis
    using assms(8) by (cases r) (simp_all add: client_Exec_def assms(2,3) execBody_def receive_exec)
qed


lemma wireResponse_status [simp]: "nr_Status (wireResponse render r) = rs_Status r"
  by (simp add: wireResponse_def)

lemma client_WriteFile_run:
  assumes "routable (bs_name s)" "isAbs dest"
    and "run_state (bk_Open be (bs_name s)) w = (Inr sb, w1)" "run_state (sb_WriteFile be sb dest filePerm src) w1 = (r, w2)"
  shows "run_state (client_WriteFile (daemonTransport render be cfg) s dest mode src) (w, c) = (map_option wireErr r, (w2, c))"
proof -
  let ?rq = "\<lparr> rq_Method = ''PUT'', rq_Path = filesRoute s dest, rq_Body = src \<rparr>"
  have "run_state (httpDo 9 (daemonTransport render be cfg) ?rq) (w, c) = (Inr (wireResponse render (noContent r)), (w2, c))"
    by (rule http_routed [where e = EWriteFile and vs = "[bs_name s, dest]"])
      (simp_all add: routes_files [OF assms(1,2)] dispatch_plain answering_def handleWriteFile_def assms filePath_def)
  moreover have "rs_Status (noContent None) = 204" by (simp add: noContent_def respond_def)
  ultimately show ?thesis
    using fail_status by (cases r) (auto simp: client_WriteFile_def assms(2) noContent_def [of "Some _"])
qed

lemma client_ReadFile_run:
  assumes "routable (bs_name s)" "isAbs dest"
    and "run_state (bk_Open be (bs_name s)) w = (Inr sb, w1)" "run_state (sb_ReadFile be sb dest) w1 = (Inr rd, w2)"
    and "run_state (rd_Copy be rd) w2 = ((content, whole), w3)"
  shows "\<exists>resp. run_state (client_ReadFile (daemonTransport render be cfg) s dest) (w, c) = (Inr resp, (w3, c)) \<and>
    nr_Body resp = content \<and> nr_Whole resp = whole"
proof -
  let ?rq = "\<lparr> rq_Method = ''GET'', rq_Path = filesRoute s dest, rq_Body = [] \<rparr>"
  have "run_state (httpDo 9 (daemonTransport render be cfg) ?rq) (w, c) =
      (Inr (wireResponse render (respond 200 (BStream content whole))), (w3, c))"
    by (rule http_routed [where e = EReadFile and vs = "[bs_name s, dest]"])
      (simp_all add: routes_files [OF assms(1,2)] dispatch_plain answering_def handleReadFile_def assms filePath_def respond_def)
  then show ?thesis by (simp add: client_ReadFile_def assms(2) wireResponse_def respond_def encodeBody_def)
qed

lemma client_DialPort_run:
  assumes "routable name" "1 \<le> port" "port \<le> 65535" "run_state (bk_DialPort be name port) w = (r, w')"
  shows "run_state (client_DialPort (daemonTransport render be cfg) name port) (w, c) =
    (case r of Inl err \<Rightarrow> Inl (wireErr err) | Inr x \<Rightarrow> Inr x, (w', c))"
proof -
  have a: "atoi (itoa port) = Some port" using assms(2,3) by (simp add: atoi_def parseInt64_itoa in_int64_def)
  have "findHandler routes ''GET'' (sandboxPath name @ ''/dial/'' @ itoa port) = Routed EDial [name, itoa port]"
    by (rule routes_dial [OF assms(1)])
  with a assms show ?thesis
    by (cases r) (simp_all add: client_DialPort_def daemonTransport_def serve_def dispatch_plain handleDial_def)
qed

lemma route_create: "findHandler routes ''POST'' ''/sandboxes'' = Routed ECreate []"
  by (rule demo_route)

lemma client_Create_run:
  assumes "req = createRequest name opts" "cr_Profile req \<noteq> []" "policyFields (newSpec opts) = []"
    and "run_state (handleCreate be cfg c (print_json (CreateRequest_json req))) w = ((respond 201 (BInfo i), c'), w')"
    and "four_digit_year (w_CreatedAt i)"
  shows "run_state (client_Create (daemonTransport render be cfg) cl name opts) (w, c) = (Inr (sandboxFrom cl (WireInfo_received i)), (w', c'))"
proof -
  have "run_state (client_do (daemonTransport render be cfg) ''POST'' ''/sandboxes'' (Some (CreateRequest_json req))
      (unmarshal (WireInfo_dec False))) (w, c) = (receive render (unmarshal (WireInfo_dec False)) (respond 201 (BInfo i)), (w', c'))"
    by (rule do_routed [OF route_create]) (simp_all add: dispatch_def assms(4) respond_def [of 201])
  then show ?thesis using assms(1-3) by (simp add: client_Create_def Let_def receive_info [OF assms(5)])
qed

end
