(* ===== verification/Broker_Transparent.thy ===== *)
theory Broker_Transparent
  imports Broker_Client
begin

text \<open>
  The broker seen from its caller: what the client and the daemon together promise. The
  theorems compose the client, the JSON wire, the route table, the handlers and the Docker
  backend. The contract of \<^verbatim>\<open>sandbox.Backend\<close> is an interface, which the Docker backend and
  the client of a daemon on top of it both implement.
\<close>

section \<open>Errors\<close>

text \<open>
  C23: an error means the same on both sides of the wire. The error a caller receives
  matches exactly one sentinel. When the daemon's error matches a sentinel that has a wire
  kind, it is one of those; when it matches exactly one, it is that one; and every other
  error arrives as \<^verbatim>\<open>ErrInternal\<close>.
\<close>

theorem errors_cross_wire:
  "\<exists>s. (\<forall>t. errIs (errorFrom (wireResponse render (fail err))) t \<longleftrightarrow> t = s) \<and>
     (if \<exists>t. t \<in> wire_sentinels \<and> errIs err t then s \<in> wire_sentinels \<and> errIs err s else s = ErrInternal)"
proof -
  have "\<exists>s. ErrorFor (fst (KindOf err)) = Sentinel s \<and>
      (if \<exists>t. t \<in> wire_sentinels \<and> errIs err t then s \<in> wire_sentinels \<and> errIs err s else s = ErrInternal)"
    by (rule ErrorFor_KindOf_cases [of err]) auto
  then obtain s where s: "ErrorFor (fst (KindOf err)) = Sentinel s"
    "if \<exists>t. t \<in> wire_sentinels \<and> errIs err t then s \<in> wire_sentinels \<and> errIs err s else s = ErrInternal"
    by blast
  have "\<forall>t. errIs (errorFrom (wireResponse render (fail err))) t \<longleftrightarrow> t = s" by (auto simp: wireErr_def s(1))
  with s(2) show ?thesis by blast
qed

section \<open>Policy\<close>

lemma policyFields_Nil: "policyFields s = [] \<longleftrightarrow> policy s = policy (newSpec [])"
proof -
  have cpu: "f64_eq x (CPUs (sp_Resources (newSpec []))) \<longleftrightarrow> x = CPUs (sp_Resources (newSpec []))" for x
    by (cases x) (simp_all add: newSpec_def defaultSpec_def DefaultCPUs_def)
  have eq: "resources_eq r (sp_Resources (newSpec [])) \<longleftrightarrow> r = sp_Resources (newSpec [])" for r
    by (cases r; cases "sp_Resources (newSpec [])") (use cpu in \<open>auto simp: resources_eq_def\<close>)
  show ?thesis
    by (cases s; cases "newSpec []") (use eq in \<open>auto simp: policyFields_def Let_def policy_def\<close>)
qed


definition demo_client :: Client where
  "demo_client = \<lparr> cl_target = ''/run/openblox.sock'', cl_signer = None, cl_previewBase = [], cl_previewHandler = None \<rparr>"


section \<open>Names\<close>

text \<open>
  C36: a destruction can go astray. The name \<^verbatim>\<open>.\<close> is not escaped, the mux cleans it off the
  path and answers with a redirect, and the client follows it with a GET of the listing:
  \<^verbatim>\<open>Destroy\<close> reports success whenever the listing succeeds, and destroys nothing.
\<close>

theorem client_Destroy_dot:
  assumes "run_state (bk_List be) w = (Inr infos, w')"
  shows "run_state (client_Destroy (daemonTransport render be cfg) ''.'') (w, c) = (None, (w', c))"
proof -
  let ?tr = "daemonTransport render be cfg"
  let ?del = "\<lparr> rq_Method = ''DELETE'', rq_Path = ''/sandboxes/.'', rq_Body = [] \<rparr>"
  let ?get = "\<lparr> rq_Method = ''GET'', rq_Path = ''/sandboxes'', rq_Body = [] \<rparr>"
  let ?is = "map (\<lambda>i. infoOf i (mget (i_Labels i) labelProfile)) infos"
  have p: "sandboxPath ''.'' = ''/sandboxes/.''" by code_simp
  have r: "findHandler routes ''DELETE'' ''/sandboxes/.'' = Redirected ''/sandboxes''" by code_simp
  have "run_state (httpDo 8 ?tr ?get) (w, c) = (Inr (wireResponse render (respond 200 (BInfos ?is))), (w', c))"
    by (rule http_routed [where e = EList and vs = "[]"])
      (simp_all add: route_list dispatch_plain answering_def handleList_def assms respond_def)
  then have "run_state (httpDo 9 ?tr ?del) (w, c) = (Inr (wireResponse render (respond 200 (BInfos ?is))), (w', c))"
    by (simp add: httpDo.simps [of 9] daemonTransport_def [of _ _ _ ?del] serve_def r respond_def wireResponse_def [of _ "\<lparr>rs_Status = 301, rs_Body = _\<rparr>"] redirected_def)
  then show ?thesis by (simp add: client_Destroy_def client_do_def p noBody_def errorOnly_def respond_def)
qed

section \<open>Creation, from the client to the container\<close>

text \<open>The requests JSON carries unharmed: UTF-8 throughout, no reserved label, at most a megabyte.\<close>

definition portable :: "CreateRequest \<Rightarrow> bool" where
  "portable r \<longleftrightarrow> cr_Name r \<noteq> [] \<and> cr_Profile r \<noteq> [] \<and> valid_utf8 (cr_Name r) \<and> valid_utf8 (cr_Profile r) \<and>
     wf_map (cr_Labels r) \<and> (\<forall>(k, v) \<in> set (cr_Labels r). valid_utf8 k \<and> valid_utf8 v) \<and>
     labelProfile \<notin> fst ` set (cr_Labels r) \<and> length (print_json (CreateRequest_json r)) \<le> 2 ^ 20"

lemma wf_map_received: "wf_map (map_received m)"
proof -
  have "wf_map (fold (\<lambda>(k, v). mput (coerceUTF8 k) (coerceUTF8 v)) ls a)" if "wf_map a" for ls and a :: gomap
    using that by (induction ls arbitrary: a) auto
  then show ?thesis by (simp add: map_received_def)
qed

lemma portable_received:
  assumes "portable r"
  shows "decode CreateRequest_dec (print_json (CreateRequest_json r)) = Inr (CreateRequest_received r)"
    "cr_Name (CreateRequest_received r) = cr_Name r" "cr_Profile (CreateRequest_received r) = cr_Profile r"
    "map_of (cr_Labels (CreateRequest_received r)) = map_of (cr_Labels r)" "wf_map (cr_Labels (CreateRequest_received r))"
    "labelProfile \<notin> fst ` set (cr_Labels (CreateRequest_received r))"
proof -
  show "decode CreateRequest_dec (print_json (CreateRequest_json r)) = Inr (CreateRequest_received r)"
    by (rule create_wire.decode_enc) (use assms in \<open>simp_all add: portable_def\<close>)
  show m: "map_of (cr_Labels (CreateRequest_received r)) = map_of (cr_Labels r)"
    using map_received_utf8 [of "cr_Labels r"] assms by (auto simp: CreateRequest_received_def portable_def)
  have "map_of (cr_Labels r) labelProfile = None" using assms by (simp add: portable_def map_of_eq_None_iff)
  then show "labelProfile \<notin> fst ` set (cr_Labels (CreateRequest_received r))"
    unfolding m [symmetric] by (simp add: map_of_eq_None_iff)
qed (use assms in \<open>simp_all add: portable_def CreateRequest_received_def valid_utf8_def wf_map_received\<close>)

text \<open>A daemon on a healthy Docker host that admits a profile without a limit.\<close>

definition daemon_ready :: "'w engine \<Rightarrow> ('w \<Rightarrow> registry) \<Rightarrow> string set \<Rightarrow> Config \<Rightarrow> string \<Rightarrow> Profile \<Rightarrow> bool" where
  "daemon_ready eng view rts cfg pn p \<longleftrightarrow> healthy eng view rts \<and> map_of (cf_Profiles cfg) pn = Some p \<and>
     Profile_validate p = None \<and> sp_Runtime (newSpec (Options p)) \<in> rts \<and> pf_MaxSandboxes p = 0"

lemma client_Create_absent:
  assumes "daemon_ready eng view rts cfg (cr_Profile (createRequest name opts)) p" "wf_registry (view w)"
    and "portable (createRequest name opts)" "policy (newSpec opts) = policy (newSpec [])"
    and "view w (containerName name) = None"
  shows "\<exists>sb w' k. run_state (client_Create (daemonTransport render (dockerBackend eng b drain) cfg) cl name opts) (w, c) = (Inr sb, (w', c)) \<and>
    bs_name sb = name \<and> i_State (bs_info sb) = StateRunning \<and>
    map_of (i_Labels (bs_info sb)) = map_of (cr_Labels (createRequest name opts)) \<and>
    view w' = (view w)(containerName name \<mapsto> k) \<and> wf_registry (view w') \<and> kept b (cr_Profile (createRequest name opts)) name k \<and>
    hardened (k_cfg k) (k_host k) \<and> runs_under (cr_Profile (createRequest name opts)) p (k_cfg k) (k_host k)"
proof -
  let ?r = "createRequest name opts"
  note rc = portable_received [OF assms(3)]
  have nm: "cr_Name ?r = name" by (simp add: createRequest_def Let_def)
  obtain i w' k where
    run: "run_state (handleCreate (dockerBackend eng b drain) cfg c (print_json (CreateRequest_json ?r))) w = ((respond 201 (BInfo i), c), w')"
    and i: "w_Name i = name" "w_State i = StateRunning" "four_digit_year (w_CreatedAt i)" "wf_map (w_Labels i)"
      "map_of (w_Labels i) = map_of (cr_Labels ?r)"
    and k: "view w' = (view w)(containerName name \<mapsto> k)" "wf_registry (view w')" "kept b (cr_Profile ?r) name k" "hardened (k_cfg k) (k_host k)" "runs_under (cr_Profile ?r) p (k_cfg k) (k_host k)"
    using create_healthy [of eng view rts w _ "CreateRequest_received ?r" cfg p b drain c, OF _ assms(2) rc(1)] assms(1,3,5)
    by (auto simp: rc nm daemon_ready_def portable_def)
  have "\<forall>(k, v) \<in> set (w_Labels i). valid_utf8 k \<and> valid_utf8 v"
  proof clarify
    fix l v assume "(l, v) \<in> set (w_Labels i)"
    then have "map_of (cr_Labels ?r) l = Some v" using i(4,5) by (metis map_of_is_SomeI wf_map_def)
    then show "valid_utf8 l \<and> valid_utf8 v" using assms(3) by (auto simp: portable_def dest: map_of_SomeD)
  qed
  then have "map_of (map_received (w_Labels i)) = map_of (cr_Labels ?r)"
    using map_received_utf8 [OF i(4)] i(5) by auto
  moreover have "coerceUTF8 name = name" using assms(3) by (simp add: portable_def nm valid_utf8_def)
  moreover have "coerceUTF8 StateRunning = StateRunning" by code_simp
  moreover have "run_state (client_Create (daemonTransport render (dockerBackend eng b drain) cfg) cl name opts) (w, c) =
      (Inr (sandboxFrom cl (WireInfo_received i)), (w', c))"
    by (rule client_Create_run [OF refl _ _ run i(3)]) (use assms(3,4) in \<open>simp_all add: portable_def policyFields_Nil\<close>)
  ultimately show ?thesis using i k by (auto simp: sandboxFrom_def wireInfoFrom_def WireInfo_received_def)
qed

lemma client_Create_live:
  assumes "daemon_ready eng view rts cfg (cr_Profile (createRequest name opts)) p" "wf_registry (view w)"
    and "portable (createRequest name opts)" "policy (newSpec opts) = policy (newSpec [])"
    and "view w (containerName name) = Some k" "kept b (cr_Profile (createRequest name opts)) name k"
  shows "\<exists>sb w'. run_state (client_Create (daemonTransport render (dockerBackend eng b drain) cfg) cl name opts) (w, c) = (Inr sb, (w', c)) \<and>
    bs_name sb = name \<and> view w' = view w"
proof -
  let ?r = "createRequest name opts"
  let ?i = "infoOf (ds_info (handle b k)) (cr_Profile ?r)"
  note rc = portable_received [OF assms(3)]
  have nm: "cr_Name ?r = name" by (simp add: createRequest_def Let_def)
  obtain w' where
    run: "run_state (handleCreate (dockerBackend eng b drain) cfg c (print_json (CreateRequest_json ?r))) w = ((respond 201 (BInfo ?i), c), w')"
    and v: "view w' = view w"
    using create_live [of eng view rts w _ "CreateRequest_received ?r" cfg p k b drain c, OF _ assms(2) rc(1)] assms(1,3,5,6)
    by (auto simp: rc nm daemon_ready_def portable_def)
  have "w_Name ?i = name" "four_digit_year (w_CreatedAt ?i)" using assms(6) by (simp_all add: kept_def infoOf_def)
  moreover have "coerceUTF8 name = name" using assms(3) by (simp add: portable_def nm valid_utf8_def)
  moreover have "run_state (client_Create (daemonTransport render (dockerBackend eng b drain) cfg) cl name opts) (w, c) =
      (Inr (sandboxFrom cl (WireInfo_received ?i)), (w', c))"
    by (rule client_Create_run [OF refl _ _ run calculation(2)]) (use assms(3,4) in \<open>simp_all add: portable_def policyFields_Nil\<close>)
  ultimately show ?thesis using v by (auto simp: sandboxFrom_def WireInfo_received_def)
qed

section \<open>The contract of a backend\<close>

text \<open>What a caller of \<^verbatim>\<open>sandbox.Backend\<close> does with names, and what it sees.\<close>

datatype registry_op = OpCreate string | OpOpen string | OpDestroy string

datatype outcome = Handle string | Missing | Removed | Failed

fun op_name :: "registry_op \<Rightarrow> string" where
  "op_name (OpCreate n) = n"
| "op_name (OpOpen n) = n"
| "op_name (OpDestroy n) = n"

text \<open>The specification: a set of names.\<close>

fun spec_op :: "registry_op \<Rightarrow> string set \<Rightarrow> outcome \<times> string set" where
  "spec_op (OpCreate n) N = (Handle n, insert n N)"
| "spec_op (OpOpen n) N = (if n \<in> N then Handle n else Missing, N)"
| "spec_op (OpDestroy n) N = (Removed, N - {n})"

fun spec_ops :: "registry_op list \<Rightarrow> string set \<Rightarrow> outcome list \<times> string set" where
  "spec_ops [] N = ([], N)"
| "spec_ops (op # ops) N = (case spec_op op N of (x, N') \<Rightarrow> case spec_ops ops N' of (xs, N'') \<Rightarrow> (x # xs, N''))"

text \<open>An implementation, by its three operations and the name of a handle.\<close>

definition handled :: "('h \<Rightarrow> string) \<Rightarrow> 'h result \<Rightarrow> outcome" where
  "handled nameOf r =
     (case r of Inr h \<Rightarrow> Handle (nameOf h) | Inl err \<Rightarrow> if errIs err ErrNotFound then Missing else Failed)"

fun run_op ::
    "(string \<Rightarrow> ('w, 'h result) state) \<Rightarrow> (string \<Rightarrow> ('w, 'h result) state) \<Rightarrow> (string \<Rightarrow> ('w, gerr option) state) \<Rightarrow>
       ('h \<Rightarrow> string) \<Rightarrow> registry_op \<Rightarrow> ('w, outcome) state" where
  "run_op createOp openOp destroyOp nameOf (OpCreate n) = State_Monad.bind (createOp n) (\<lambda>r. State_Monad.return (handled nameOf r))"
| "run_op createOp openOp destroyOp nameOf (OpOpen n) = State_Monad.bind (openOp n) (\<lambda>r. State_Monad.return (handled nameOf r))"
| "run_op createOp openOp destroyOp nameOf (OpDestroy n) =
     State_Monad.bind (destroyOp n) (\<lambda>r. State_Monad.return (if r = None then Removed else Failed))"

fun run_ops ::
    "(string \<Rightarrow> ('w, 'h result) state) \<Rightarrow> (string \<Rightarrow> ('w, 'h result) state) \<Rightarrow> (string \<Rightarrow> ('w, gerr option) state) \<Rightarrow>
       ('h \<Rightarrow> string) \<Rightarrow> registry_op list \<Rightarrow> ('w, outcome list) state" where
  "run_ops createOp openOp destroyOp nameOf [] = State_Monad.return []"
| "run_ops createOp openOp destroyOp nameOf (op # ops) =
     State_Monad.bind (run_op createOp openOp destroyOp nameOf op) (\<lambda>x.
     State_Monad.bind (run_ops createOp openOp destroyOp nameOf ops) (\<lambda>xs. State_Monad.return (x # xs)))"

locale sandbox_backend =
  fixes createOp :: "string \<Rightarrow> ('w, 'h result) state" and openOp :: "string \<Rightarrow> ('w, 'h result) state"
    and destroyOp :: "string \<Rightarrow> ('w, gerr option) state" and nameOf :: "'h \<Rightarrow> string"
    and held :: "'w \<Rightarrow> string set" and ok :: "'w \<Rightarrow> bool" and names :: "string \<Rightarrow> bool"
  assumes create_law: "ok w \<Longrightarrow> names n \<Longrightarrow>
      \<exists>h w'. run_state (createOp n) w = (Inr h, w') \<and> nameOf h = n \<and> held w' = insert n (held w) \<and> ok w'"
    and open_present: "ok w \<Longrightarrow> names n \<Longrightarrow> n \<in> held w \<Longrightarrow>
      \<exists>h w'. run_state (openOp n) w = (Inr h, w') \<and> nameOf h = n \<and> held w' = held w \<and> ok w'"
    and open_absent: "ok w \<Longrightarrow> names n \<Longrightarrow> n \<notin> held w \<Longrightarrow>
      \<exists>err w'. run_state (openOp n) w = (Inl err, w') \<and> errIs err ErrNotFound \<and> held w' = held w \<and> ok w'"
    and destroy_law: "ok w \<Longrightarrow> names n \<Longrightarrow>
      \<exists>w'. run_state (destroyOp n) w = (None, w') \<and> held w' = held w - {n} \<and> ok w'"
begin

lemma op_refines:
  assumes "ok w" "names (op_name op)"
  shows "\<exists>w'. run_state (run_op createOp openOp destroyOp nameOf op) w = (fst (spec_op op (held w)), w') \<and>
    held w' = snd (spec_op op (held w)) \<and> ok w'"
proof (cases op)
  case (OpCreate n)
  with create_law [of w n] assms show ?thesis by (auto simp: handled_def)
next
  case (OpOpen n)
  with open_present [of w n] open_absent [of w n] assms show ?thesis
    by (cases "n \<in> held w") (auto simp: handled_def)
next
  case (OpDestroy n)
  with destroy_law [of w n] assms show ?thesis by auto
qed

lemma ops_refine:
  assumes "ok w" "\<forall>op \<in> set ops. names (op_name op)"
  shows "\<exists>w'. run_state (run_ops createOp openOp destroyOp nameOf ops) w = (fst (spec_ops ops (held w)), w') \<and>
    held w' = snd (spec_ops ops (held w)) \<and> ok w'"
  using assms
proof (induction ops arbitrary: w)
  case (Cons op ops)
  from Cons.prems op_refines [of w op] obtain w1 where
    w1: "run_state (run_op createOp openOp destroyOp nameOf op) w = (fst (spec_op op (held w)), w1)"
      "held w1 = snd (spec_op op (held w))" "ok w1" by auto
  moreover from Cons.IH [OF w1(3)] Cons.prems obtain w2 where
    "run_state (run_ops createOp openOp destroyOp nameOf ops) w1 = (fst (spec_ops ops (held w1)), w2)"
    "held w2 = snd (spec_ops ops (held w1))" "ok w2" by auto
  ultimately show ?case by (simp split: prod.splits)
qed simp

end

section \<open>Both implementations\<close>

text \<open>
  A container is found under a hash of its sandbox's name. \<open>U\<close> is a set of names without a
  collision, those a caller uses.
\<close>

definition names_in :: "string set \<Rightarrow> registry \<Rightarrow> string set" where
  "names_in U V = {n \<in> U. V (containerName n) \<noteq> None}"

definition sane :: "Backend \<Rightarrow> string \<Rightarrow> string set \<Rightarrow> registry \<Rightarrow> bool" where
  "sane b pn U V \<longleftrightarrow> inj_on containerName U \<and> wf_registry V \<and> (\<forall>n \<in> U. \<forall>k. V (containerName n) = Some k \<longrightarrow> kept b pn n k)"

lemma sane_update:
  assumes "sane b pn U V" "n \<in> U" "wf_registry (V(containerName n \<mapsto> k))" "kept b pn n k"
  shows "sane b pn U (V(containerName n \<mapsto> k))" "names_in U (V(containerName n \<mapsto> k)) = insert n (names_in U V)"
  using assms by (auto simp: sane_def names_in_def dest: inj_onD)

lemma sane_remove:
  assumes "sane b pn U V" "n \<in> U"
  shows "sane b pn U (V(containerName n := None))" "names_in U (V(containerName n := None)) = names_in U V - {n}"
  using assms by (auto simp: sane_def names_in_def wf_registry_remove dest: inj_onD)

lemma open_sane:
  assumes "sane b pn U V" "n \<in> U"
  shows "n \<in> names_in U V \<Longrightarrow> \<exists>k. open_spec b V n = Inr (handle b k) \<and> kept b pn n k"
    "n \<notin> names_in U V \<Longrightarrow> open_spec b V n = Inl (wrapErr ''%w: %q'' ErrNotFound)"
  using assms by (auto simp: names_in_def sane_def open_spec_def kept_def)

text \<open>The library on a healthy host, with options \<^verbatim>\<open>Create\<close> accepts.\<close>

definition library_ready :: "'w engine \<Rightarrow> ('w \<Rightarrow> registry) \<Rightarrow> string set \<Rightarrow> CreateOption list \<Rightarrow> string \<Rightarrow> bool" where
  "library_ready eng view rts opts pn \<longleftrightarrow> healthy eng view rts \<and> Spec_Validate (newSpec opts) = None \<and> sp_Image (newSpec opts) \<noteq> [] \<and>
     sp_Runtime (newSpec opts) \<in> rts \<and> (\<forall>opt \<in> set opts. lib_option opt) \<and> mget (sp_Labels (newSpec opts)) labelProfile = pn"

lemma library_Create:
  assumes "library_ready eng view rts opts pn" "sane b pn U (view w)" "n \<noteq> []" "n \<in> U"
  shows "\<exists>h w'. run_state (Create eng b n opts) w = (Inr h, w') \<and> i_Name (ds_info h) = n \<and>
    names_in U (view w') = insert n (names_in U (view w)) \<and> sane b pn U (view w')"
proof -
  have "\<And>k. view w (containerName n) = Some k \<Longrightarrow> managed k" using assms(2,4) by (auto simp: sane_def kept_def)
  with assms obtain now new k w' where c: "run_state (Create eng b n opts) w = (Inr (handle b k), w')"
    "view w' = create_spec (view w) (containerName n) new" "view w' (containerName n) = Some k" "wf_registry (view w')"
    "k_status new = ''running''" "buildConfig (floatOutOfRange eng) now n (newSpec opts) = (k_cfg new, k_host new)"
    using Create_healthy [of eng view rts w n opts b] by (auto simp: library_ready_def sane_def)
  have "wf_map (sp_Labels (newSpec opts))"
    using assms(1) newSpec_bounded_lib [of opts] by (simp add: library_ready_def bounded_spec_def)
  with c assms(1) have "kept b pn n new" by (intro created_kept) (auto simp: library_ready_def)
  show ?thesis
  proof (cases "view w (containerName n)")
    case None
    with c \<open>kept b pn n new\<close> assms(2,4) have "sane b pn U (view w')" "i_Name (ds_info (handle b k)) = n" "names_in U (view w') = insert n (names_in U (view w))"
      using sane_update [of b pn U "view w" n new] by (auto simp: create_spec_def kept_def)
    with c(1) show ?thesis by blast
  next
    case (Some l)
    then have "kept b pn n l" "n \<in> names_in U (view w)" using assms(2,4) by (auto simp: sane_def names_in_def)
    moreover from this Some c(2,3) have "view w' = view w" "k = l" by (auto simp: create_spec_def kept_def)
    ultimately show ?thesis using c(1) assms(2) by (auto simp: kept_def)
  qed
qed

interpretation library: sandbox_backend "\<lambda>n. Create eng b n opts" "Open eng b" "Destroy eng" "\<lambda>h. i_Name (ds_info h)"
    "\<lambda>w. names_in U (view w)" "\<lambda>w. library_ready eng view rts opts pn \<and> sane b pn U (view w)" "\<lambda>n. n \<noteq> [] \<and> n \<in> U"
  for eng :: "'w engine" and b opts view rts pn U
proof unfold_locales
  fix w :: 'w and n :: string
  assume ok: "library_ready eng view rts opts pn \<and> sane b pn U (view w)" and n: "n \<noteq> [] \<and> n \<in> U"
  then have h: "healthy eng view rts" "wf_registry (view w)" and sn: "sane b pn U (view w)" by (auto simp: library_ready_def sane_def)
  obtain w1 where w1: "view w1 = view w" "run_state (Open eng b n) w = (open_spec b (view w) n, w1)" using Open_healthy [OF h] .
  obtain w2 where w2: "run_state (Destroy eng n) w = (None, w2)" "view w2 = (view w)(containerName n := None)" using Destroy_healthy [OF h] .
  show "\<exists>h w'. run_state (Create eng b n opts) w = (Inr h, w') \<and> i_Name (ds_info h) = n \<and>
      names_in U (view w') = insert n (names_in U (view w)) \<and> library_ready eng view rts opts pn \<and> sane b pn U (view w')"
    using library_Create [of eng view rts opts pn b U w n] ok n by blast
  show "\<exists>h w'. run_state (Open eng b n) w = (Inr h, w') \<and> i_Name (ds_info h) = n \<and>
      names_in U (view w') = names_in U (view w) \<and> library_ready eng view rts opts pn \<and> sane b pn U (view w')" if "n \<in> names_in U (view w)"
    using open_sane(1) [OF sn _ that] w1 ok n by (auto simp: kept_def)
  show "\<exists>err w'. run_state (Open eng b n) w = (Inl err, w') \<and> errIs err ErrNotFound \<and>
      names_in U (view w') = names_in U (view w) \<and> library_ready eng view rts opts pn \<and> sane b pn U (view w')" if "n \<notin> names_in U (view w)"
    using open_sane(2) [OF sn _ that] w1 ok n by auto
  show "\<exists>w'. run_state (Destroy eng n) w = (None, w') \<and> names_in U (view w') = names_in U (view w) - {n} \<and>
      library_ready eng view rts opts pn \<and> sane b pn U (view w')"
    using w2 ok sane_remove [OF sn, of n] n by auto
qed

text \<open>The broker: a client with options that set no policy, over a daemon on a healthy host.\<close>

definition broker_ready :: "'w engine \<Rightarrow> ('w \<Rightarrow> registry) \<Rightarrow> string set \<Rightarrow> Config \<Rightarrow> Profile \<Rightarrow> CreateOption list \<Rightarrow> string \<Rightarrow> bool" where
  "broker_ready eng view rts cfg p opts pn \<longleftrightarrow> daemon_ready eng view rts cfg pn p \<and> policy (newSpec opts) = policy (newSpec []) \<and>
     mget (sp_Labels (newSpec opts)) profileLabel = pn"

interpretation broker: sandbox_backend "\<lambda>n. client_Create (daemonTransport render (dockerBackend eng b drain) cfg) cl n opts"
    "client_Open (daemonTransport render (dockerBackend eng b drain) cfg) cl" "client_Destroy (daemonTransport render (dockerBackend eng b drain) cfg)" bs_name
    "\<lambda>(w, c). names_in U (view w)" "\<lambda>(w, c). broker_ready eng view rts cfg p opts pn \<and> sane b pn U (view w)"
    "\<lambda>n. routable n \<and> portable (createRequest n opts) \<and> n \<in> U"
  for eng :: "'w engine" and b drain cfg render cl opts view rts pn p U
proof unfold_locales
  let ?be = "dockerBackend eng b drain"
  let ?tr = "daemonTransport render ?be cfg"
  fix wc :: "'w \<times> capacity" and n :: string
  obtain w c where wc: "wc = (w, c)" by force
  assume ok': "case wc of (w, c) \<Rightarrow> broker_ready eng view rts cfg p opts pn \<and> sane b pn U (view w)"
    and n: "routable n \<and> portable (createRequest n opts) \<and> n \<in> U"
  from ok' have ok: "broker_ready eng view rts cfg p opts pn" and sn: "sane b pn U (view w)" by (simp_all add: wc)
  have h: "healthy eng view rts" "wf_registry (view w)" using ok sn by (auto simp: broker_ready_def daemon_ready_def sane_def)
  have pn: "cr_Profile (createRequest n opts) = pn" "cr_Name (createRequest n opts) = n"
    using ok by (simp_all add: broker_ready_def createRequest_def Let_def)
  have dr: "daemon_ready eng view rts cfg (cr_Profile (createRequest n opts)) p" "policy (newSpec opts) = policy (newSpec [])"
    using ok by (simp_all add: broker_ready_def pn)
  have u: "coerceUTF8 n = n" using n pn(2) by (auto simp: portable_def valid_utf8_def)
  obtain w1 where w1: "view w1 = view w" "run_state (bk_Open ?be n) w = (open_spec b (view w) n, w1)"
    using Open_healthy [OF h, of b n] by (auto simp: dockerBackend_def)
  obtain w2 where w2: "run_state (bk_Destroy ?be n) w = (None, w2)" "view w2 = (view w)(containerName n := None)"
    using Destroy_healthy [OF h, of n] by (auto simp: dockerBackend_def)
  show "\<exists>h w'. run_state (client_Create ?tr cl n opts) wc = (Inr h, w') \<and> bs_name h = n \<and>
      (case w' of (w, c) \<Rightarrow> names_in U (view w)) = insert n (case wc of (w, c) \<Rightarrow> names_in U (view w)) \<and>
      (case w' of (w, c) \<Rightarrow> broker_ready eng view rts cfg p opts pn \<and> sane b pn U (view w))"
  proof (cases "view w (containerName n)")
    case None
    with client_Create_absent [OF dr(1) h(2) _ dr(2), of render b drain cl c] n obtain sb w' k where
      "run_state (client_Create ?tr cl n opts) (w, c) = (Inr sb, (w', c))" "bs_name sb = n"
      "view w' = (view w)(containerName n \<mapsto> k)" "wf_registry (view w')" "kept b pn n k" by (auto simp: pn)
    then show ?thesis using sane_update [OF sn, of n k] n ok by (auto simp: wc)
  next
    case (Some k)
    then have "kept b pn n k" "n \<in> names_in U (view w)" using sn n by (auto simp: sane_def names_in_def)
    with Some client_Create_live [OF dr(1) h(2) _ dr(2), of k b render drain cl c] n show ?thesis
      using ok sn by (auto simp: wc pn)
  qed
  show "\<exists>h w'. run_state (client_Open ?tr cl n) wc = (Inr h, w') \<and> bs_name h = n \<and>
      (case w' of (w, c) \<Rightarrow> names_in U (view w)) = (case wc of (w, c) \<Rightarrow> names_in U (view w)) \<and>
      (case w' of (w, c) \<Rightarrow> broker_ready eng view rts cfg p opts pn \<and> sane b pn U (view w))" if "n \<in> (case wc of (w, c) \<Rightarrow> names_in U (view w))"
  proof -
    from that n open_sane(1) [OF sn, of n] obtain k where k: "open_spec b (view w) n = Inr (handle b k)" "kept b pn n k" by (auto simp: wc)
    have "run_state (client_Open ?tr cl n) (w, c) = (Inr (seenSandbox cl (ds_info (handle b k))), (w1, c))"
      using client_Open_run [of n ?be w "Inr (handle b k)" w1 render cfg cl c] n w1 k by (simp add: dockerBackend_def kept_def)
    then show ?thesis using k(2) w1(1) ok sn by (simp add: wc seenSandbox_def seen_def wireInfoFrom_def WireInfo_received_def infoOf_def kept_def u)
  qed
  show "\<exists>err w'. run_state (client_Open ?tr cl n) wc = (Inl err, w') \<and> errIs err ErrNotFound \<and>
      (case w' of (w, c) \<Rightarrow> names_in U (view w)) = (case wc of (w, c) \<Rightarrow> names_in U (view w)) \<and>
      (case w' of (w, c) \<Rightarrow> broker_ready eng view rts cfg p opts pn \<and> sane b pn U (view w))" if "n \<notin> (case wc of (w, c) \<Rightarrow> names_in U (view w))"
    using client_Open_run [of n ?be w "Inl (wrapErr ''%w: %q'' ErrNotFound)" w1 render cfg cl c] open_sane(2) [OF sn, of n] that n w1 ok sn
    by (simp add: wc wireErr_def KindOf_def)
  show "\<exists>w'. run_state (client_Destroy ?tr n) wc = (None, w') \<and>
      (case w' of (w, c) \<Rightarrow> names_in U (view w)) = (case wc of (w, c) \<Rightarrow> names_in U (view w)) - {n} \<and>
      (case w' of (w, c) \<Rightarrow> broker_ready eng view rts cfg p opts pn \<and> sane b pn U (view w))"
    using client_Destroy_run [of n ?be w None w2 render cfg c] n w2 ok sane_remove [OF sn, of n] by (simp add: wc)
qed

section \<open>Properties of the broker\<close>


definition no_drain :: "string \<Rightarrow> ('w, string \<times> bool) state" where
  "no_drain r = State (\<lambda>w. (([], True), w))"

definition broker_tr :: "(mem \<times> capacity, execConn) transport" where
  "broker_tr = daemonTransport (\<lambda>_. ''error'') (dockerBackend mem_engine demo_backend no_drain) demo_config"

lemma demo_request: "createRequest ''box'' [WithProfile ''py''] = demo_create"
  by (simp add: createRequest_def Let_def demo_create_def WithProfile_def option_defs newSpec_def defaultSpec_def mput_def mdel_def mget_def)

lemma demo_portable: "portable demo_create"
proof -
  have "length (print_json (CreateRequest_json demo_create)) = 29" by code_simp
  then show ?thesis by (simp add: portable_def valid_utf8_def coerceUTF8_ascii)
qed

lemma demo_policy: "policy (newSpec [WithProfile ''py'']) = policy (newSpec [])"
  "mget (sp_Labels (newSpec [WithProfile ''py''])) profileLabel = ''py''"
  by (simp_all add: WithProfile_def option_defs newSpec_def defaultSpec_def policy_def mput_def mget_def)

lemma demo_daemon_ready: "daemon_ready mem_engine map_of {''runc'', ''runsc''} demo_config ''py'' demo_profile"
  using healthy_mem_engine by (simp add: daemon_ready_def demo_profile_ok)

lemma demo_broker_ready: "broker_ready mem_engine map_of {''runc'', ''runsc''} demo_config demo_profile [WithProfile ''py''] ''py''"
  using demo_daemon_ready demo_policy by (simp add: broker_ready_def)

lemma demo_library_ready: "library_ready mem_engine map_of {''runc'', ''runsc''} (createOptions demo_profile demo_create []) ''py''"
  using healthy_mem_engine demo_options createOptions_spec [of demo_create "[]" demo_profile]
  by (auto simp: library_ready_def mget_def)




text \<open>
  C17: a command runs as it was given. What a client's \<^verbatim>\<open>Exec\<close> returns is what the backend's
  \<^verbatim>\<open>Exec\<close> returns for the same arguments, environment, directory and timeout: output,
  exit code and flags byte by byte, an error with its sentinel. Arguments that are not
  UTF-8 are what JSON changes.
\<close>

theorem client_Exec_transparent:
  assumes "routable (bs_name s)" "Command_Validate cmd = None" "c_Stdin cmd = None" "in_int64 (c_Timeout cmd)"
    and "length (print_json (execBody cmd)) \<le> 2 ^ 20"
    and "\<forall>a. a \<in> set (c_Argv cmd) \<union> set (c_Env cmd) \<union> {c_Dir cmd} \<longrightarrow> valid_utf8 a"
    and "run_state (bk_Open be (bs_name s)) w = (Inr sb, w1)" "run_state (sb_Exec be sb cmd) w1 = (r, w2)"
    and "\<And>res. r = Inr res \<Longrightarrow> in_int64 (r_ExitCode res)"
  shows "run_state (client_Exec (daemonTransport render be cfg) s cmd) (w, c) =
    (case r of Inl err \<Rightarrow> Inl (wireErr err) | Inr res \<Rightarrow> Inr res, (w2, c))"
proof -
  have "map coerceUTF8 as = as" if "\<forall>a. a \<in> set as \<longrightarrow> valid_utf8 a" for as :: "string list"
    using that by (induction as) (auto simp: valid_utf8_def)
  moreover have "0 \<le> c_Timeout cmd" using assms(2) by (auto simp: Command_Validate_def split: if_splits)
  ultimately have "sent cmd = cmd" using assms(3,6) by (cases cmd) (auto simp: sent_def valid_utf8_def)
  then show ?thesis using client_Exec_run [OF assms(1-5,7)] assms(8,9) by simp
qed

text \<open>A backend that always opens one sandbox of the in-memory host.\<close>

definition open_daemon :: "(mem, dockerSandbox, string, execConn) daemonBackend" where
  "open_daemon = (dockerBackend mem_engine demo_backend no_drain)\<lparr>bk_Open := \<lambda>_. State_Monad.return (Inr demo_sandbox)\<rparr>"

lemma mem_exec: "Command_Validate cmd = None \<Longrightarrow> run_state (exec mem_engine s cmd u pf) m = (Inr (resultOf [(Stdout, ''out'')] 0), m)"
  by (simp add: exec_def exec_with_wrapped attach_def mem_engine_def mayHaveDied_def exitLostWait_def exitKilled_def)

lemma mem_Exec: "run_state (Exec mem_engine demo_sandbox (plain [''ls''])) [] = (Inr (resultOf [(Stdout, ''out'')] 0), [])"
proof -
  have "Command_Validate (plain [''ls'']) = None" "Command_Validate (touchCommand t) = None" for t
    by (simp_all add: Command_Validate_None plain_def touchCommand_def touchTimeout_def seconds_def)
  then show ?thesis by (simp add: Exec_def touch_def mem_exec newPIDFile_def) (simp add: mem_engine_def)
qed

theorem client_Exec_transparent_witness:
  "fst (run_state (client_Exec (daemonTransport (\<lambda>_. ''error'') open_daemon demo_config)
       \<lparr> bs_client = demo_client, bs_name = ''box'', bs_info = seen (ds_info demo_sandbox) \<rparr> (plain [''ls''])) ([], [])) = Inr (resultOf [(Stdout, ''out'')] 0)"
proof -
  have "Command_Validate (plain [''ls'']) = None" by (simp add: Command_Validate_None plain_def)
  moreover have "length (print_json (execBody (plain [''ls'']))) = 15" by code_simp
  moreover have "in_int64 (r_ExitCode (resultOf [(Stdout, ''out'')] 0))" by (simp add: resultOf_def stdCopy_streams in_int64_def)
  moreover have "run_state (bk_Open open_daemon ''box'') [] = (Inr demo_sandbox, [])" by (simp add: open_daemon_def)
  moreover have "run_state (sb_Exec open_daemon demo_sandbox (plain [''ls''])) [] = (Inr (resultOf [(Stdout, ''out'')] 0), [])"
    by (simp add: open_daemon_def dockerBackend_def mem_Exec)
  ultimately show ?thesis
    using client_Exec_transparent [of "\<lparr> bs_client = demo_client, bs_name = ''box'', bs_info = seen (ds_info demo_sandbox) \<rparr>" "plain [''ls'']"
        open_daemon "[]" demo_sandbox "[]" "Inr (resultOf [(Stdout, ''out'')] 0)" "[]"]
    by (simp add: routable_def plain_def valid_utf8_def coerceUTF8_ascii in_int64_def)
qed

text \<open>A sandbox named \<^verbatim>\<open>.\<close> on the in-memory host.\<close>

definition dot_host :: mem where
  "dot_host = (case buildConfig (\<lambda>_. 0) 0 ''.'' (newSpec (createOptions demo_profile demo_create [])) of
     (cc, hc) \<Rightarrow> [(containerName ''.'', \<lparr> k_id = ''id'', k_cfg = cc, k_host = hc, k_status = ''running'' \<rparr>)])"

theorem client_Destroy_dot_witness:
  "run_state (client_Destroy broker_tr ''.'') (dot_host, []) = (None, (dot_host, [])) \<and> map_of dot_host (containerName ''.'') \<noteq> None"
proof
  have "\<exists>infos. run_state (bk_List (dockerBackend mem_engine demo_backend no_drain)) dot_host = (Inr infos, dot_host)"
    by (simp add: dockerBackend_def ListSandboxes_def mem_engine_def)
  then obtain infos where "run_state (bk_List (dockerBackend mem_engine demo_backend no_drain)) dot_host = (Inr infos, dot_host)" ..
  then show "run_state (client_Destroy broker_tr ''.'') (dot_host, []) = (None, (dot_host, []))"
    unfolding broker_tr_def by (rule client_Destroy_dot)
  show "map_of dot_host (containerName ''.'') \<noteq> None" by (simp add: dot_host_def case_prod_beta)
qed

end
