(* ===== verification/Daemon_Listener.thy ===== *)
theory Daemon_Listener
  imports Daemon_Requests "HOL-Library.Word"
begin

text \<open>
  How requests reach the daemon: the Unix socket (\<^verbatim>\<open>listener.go\<close>, \<^verbatim>\<open>umask_unix.go\<close>), the TLS
  listener (\<^verbatim>\<open>listener_tls.go\<close>), the caller a request is recorded under (\<^verbatim>\<open>caller.go\<close>) and the
  sweep that runs beside them (\<^verbatim>\<open>reap.go\<close>). The theorems show that the socket is never
  reachable by others, that a network caller has an allowed name, and that the sweep goes on.
\<close>

unbundle bit_operations_syntax

section \<open>The host's files\<close>

text \<open>
  What \<^verbatim>\<open>Listen\<close> uses of the operating system: files by path, the umask of the process, the
  open listeners. \<open>uh_modes\<close> collects every mode a socket created here has had, and
  \<open>uh_faults\<close> says which of the coming calls fail, so that every pattern of failures is a
  start state. Symbolic links are left out.
\<close>

record node =
  nd_socket :: bool
  nd_mode :: "32 word"
  nd_gid :: int

record unixHost =
  uh_files :: "(string \<times> node) list"
  uh_umask :: "32 word"
  uh_modes :: "32 word list"
  uh_listening :: "string list"
  uh_faults :: "bool list"

definition osError :: gerr where "osError = Sentinel (LibraryErr ''os'')"

definition faulty :: "(unixHost, bool) state" where
  "faulty = State (\<lambda>h. case uh_faults h of [] \<Rightarrow> (False, h) | f # fs \<Rightarrow> (f, h\<lparr>uh_faults := fs\<rparr>))"

definition osStat :: "string \<Rightarrow> (unixHost, node option) state" where
  "osStat path = do {
     bad \<leftarrow> faulty;
     State (\<lambda>h. (if bad then None else map_of (uh_files h) path, h)) }"

definition osRemove :: "string \<Rightarrow> (unixHost, gerr option) state" where
  "osRemove path = do {
     bad \<leftarrow> faulty;
     State (\<lambda>h. if bad \<or> map_of (uh_files h) path = None then (Some osError, h)
                else (None, h\<lparr>uh_files := mdel path (uh_files h)\<rparr>)) }"

definition setUmask :: "32 word \<Rightarrow> (unixHost, 32 word) state" where
  "setUmask m = State (\<lambda>h. (uh_umask h, h\<lparr>uh_umask := m\<rparr>))"

text \<open>A new socket has the bits the umask leaves of 0o777.\<close>

definition netListenUnix :: "string \<Rightarrow> (unixHost, gerr option) state" where
  "netListenUnix path = do {
     bad \<leftarrow> faulty;
     State (\<lambda>h. if bad \<or> map_of (uh_files h) path \<noteq> None then (Some osError, h)
                else let m = 511 AND NOT (uh_umask h) in
                  (None, h\<lparr>uh_files := mput path \<lparr> nd_socket = True, nd_mode = m, nd_gid = 0 \<rparr> (uh_files h),
                          uh_modes := uh_modes h @ [m], uh_listening := path # uh_listening h\<rparr>)) }"

definition osChmod :: "string \<Rightarrow> 32 word \<Rightarrow> (unixHost, gerr option) state" where
  "osChmod path m = do {
     bad \<leftarrow> faulty;
     State (\<lambda>h. case map_of (uh_files h) path of
        None \<Rightarrow> (Some osError, h)
      | Some nd \<Rightarrow> if bad then (Some osError, h)
                    else (None, h\<lparr>uh_files := mput path (nd\<lparr>nd_mode := m\<rparr>) (uh_files h), uh_modes := uh_modes h @ [m]\<rparr>)) }"

definition osChown :: "string \<Rightarrow> int \<Rightarrow> (unixHost, gerr option) state" where
  "osChown path gid = do {
     bad \<leftarrow> faulty;
     State (\<lambda>h. case map_of (uh_files h) path of
        None \<Rightarrow> (Some osError, h)
      | Some nd \<Rightarrow> if bad then (Some osError, h)
                    else (None, h\<lparr>uh_files := mput path (nd\<lparr>nd_gid := gid\<rparr>) (uh_files h)\<rparr>)) }"

text \<open>Closing a listener \<^verbatim>\<open>net.Listen\<close> created unlinks its socket.\<close>

definition closeUnix :: "string \<Rightarrow> (unixHost, unit) state" where
  "closeUnix path = State (\<lambda>h. ((), h\<lparr>uh_files := mdel path (uh_files h), uh_listening := remove1 path (uh_listening h)\<rparr>))"

section \<open>The Unix socket (listener.go)\<close>

text \<open>0o660.\<close>

definition socketMode :: "32 word" where "socketMode = 432"

definition withSocketUmask :: "(unixHost, 'a) state \<Rightarrow> (unixHost, 'a) state" where
  "withSocketUmask fn = do {
     old \<leftarrow> setUmask (511 AND NOT socketMode);
     r \<leftarrow> fn;
     _ \<leftarrow> setUmask old;
     State_Monad.return r }"

text \<open>A socket left behind is removed, anything else refused.\<close>

definition clearStale :: "string \<Rightarrow> (unixHost, gerr option) state" where
  "clearStale path = do {
     info \<leftarrow> osStat path;
     (case info of
        None \<Rightarrow> State_Monad.return None
      | Some nd \<Rightarrow>
          if \<not> nd_socket nd then State_Monad.return (Some (errorsNew ''refusing to replace %q: not a socket''))
          else do {
            r \<leftarrow> osRemove path;
            State_Monad.return (map_option (\<lambda>err. Errorf ''remove stale socket %q: %w'' [err]) r) }) }"

definition socketGid :: "(string \<Rightarrow> string result) \<Rightarrow> string \<Rightarrow> int result" where
  "socketGid lookupGroup grp =
     (if grp = [] then Inr (- 1)
      else case lookupGroup grp of
        Inl err \<Rightarrow> Inl (Errorf ''resolve socket group %q: %w'' [err])
      | Inr g \<Rightarrow> (case atoi g of None \<Rightarrow> Inl (errorsNew ''parse gid for group %q: %w'') | Some gid \<Rightarrow> Inr gid))"

text \<open>Mode and group of the bound socket; a socket that cannot be locked down is taken away again.\<close>

definition lockDown :: "string \<Rightarrow> int \<Rightarrow> (unixHost, string result) state" where
  "lockDown path gid = do {
     e \<leftarrow> osChmod path socketMode;
     (case e of
        Some err \<Rightarrow> do {
          _ \<leftarrow> closeUnix path;
          _ \<leftarrow> osRemove path;
          State_Monad.return (Inl (Errorf ''set mode on %q: %w'' [err])) }
      | None \<Rightarrow>
          if gid \<ge> 0 then do {
            e' \<leftarrow> osChown path gid;
            (case e' of
               Some err \<Rightarrow> do {
                 _ \<leftarrow> closeUnix path;
                 _ \<leftarrow> osRemove path;
                 State_Monad.return (Inl (Errorf ''set group on %q: %w'' [err])) }
             | None \<Rightarrow> State_Monad.return (Inr path)) }
          else State_Monad.return (Inr path)) }"

text \<open>The listener it returns is named by its path.\<close>

definition Listen :: "(string \<Rightarrow> string result) \<Rightarrow> string \<Rightarrow> string \<Rightarrow> (unixHost, string result) state" where
  "Listen lookupGroup socketPath grp = do {
     stale \<leftarrow> clearStale socketPath;
     (case stale of
        Some err \<Rightarrow> State_Monad.return (Inl err)
      | None \<Rightarrow>
          (case socketGid lookupGroup grp of
             Inl err \<Rightarrow> State_Monad.return (Inl err)
           | Inr gid \<Rightarrow> do {
               e \<leftarrow> withSocketUmask (netListenUnix socketPath);
               (case e of
                  Some err \<Rightarrow> State_Monad.return (Inl (Errorf ''listen on %q: %w'' [err]))
                | None \<Rightarrow> lockDown socketPath gid) })) }"

section \<open>What happens to the socket\<close>

text \<open>One step keeps the umask and every other file, and gives the socket no bit outside \<^const>\<open>socketMode\<close>.\<close>

definition lockedStep :: "string \<Rightarrow> unixHost \<Rightarrow> unixHost \<Rightarrow> bool" where
  "lockedStep path h h' \<longleftrightarrow> uh_umask h' = uh_umask h \<and> (\<forall>p. p \<noteq> path \<longrightarrow> map_of (uh_files h') p = map_of (uh_files h) p) \<and>
     (\<exists>new. uh_modes h' = uh_modes h @ new \<and> (\<forall>m \<in> set new. m AND NOT socketMode = 0))"

lemma lockedStep_refl [simp]: "lockedStep path h h"
  by (simp add: lockedStep_def)

lemma lockedStep_reflp: "reflp (lockedStep path)"
  by (simp add: reflp_def)

lemma lockedStep_transp: "transp (lockedStep path)"
  unfolding lockedStep_def by (rule transpI) (metis (no_types, lifting) UnE append.assoc set_append)

lemma socket_bits: "socketMode AND NOT socketMode = 0" "511 AND (- 512 OR socketMode) = socketMode"
  by (simp_all add: socketMode_def)

lemma keeps_calls:
  "keeps (lockedStep path) faulty" "keeps (lockedStep path) (osStat path)" "keeps (lockedStep path) (osRemove path)"
  "keeps (lockedStep path) (osChmod path socketMode)" "keeps (lockedStep path) (osChown path gid)"
  "keeps (lockedStep path) (closeUnix path)" "keeps (lockedStep path) (withSocketUmask (netListenUnix path))"
  by (auto simp: keeps_def faulty_def osStat_def osRemove_def osChmod_def osChown_def closeUnix_def withSocketUmask_def netListenUnix_def
      setUmask_def lockedStep_def socket_bits Let_def split: list.splits option.splits)

lemma keeps_Listen: "keeps (lockedStep path) (Listen lookupGroup path grp)"
  unfolding Listen_def clearStale_def lockDown_def
  by (auto intro!: keeps_bind [OF lockedStep_transp] keeps_return [OF lockedStep_reflp] keeps_calls split: option.splits sum.splits)

text \<open>What is at the path afterwards.\<close>

definition socketAt :: "string \<Rightarrow> unixHost \<Rightarrow> bool" where
  "socketAt path h \<longleftrightarrow> path \<in> set (uh_listening h) \<and> (\<exists>nd. map_of (uh_files h) path = Some nd \<and> nd_socket nd)"

lemma clearStale_run:
  assumes "run_state (clearStale path) h = (r, h1)"
  shows "uh_listening h1 = uh_listening h" "map_of (uh_files h1) path \<in> {None, map_of (uh_files h) path}"
    "\<forall>nd. map_of (uh_files h) path = Some nd \<and> \<not> nd_socket nd \<longrightarrow> map_of (uh_files h1) path = Some nd"
  using assms
  by (auto simp: clearStale_def osStat_def osRemove_def faulty_def split: list.splits option.splits if_splits)

lemma bind_run:
  assumes "run_state (withSocketUmask (netListenUnix path)) h = (r, h1)"
  shows "r = None \<Longrightarrow> uh_listening h1 = path # uh_listening h \<and> map_of (uh_files h) path = None \<and> socketAt path h1"
    "r \<noteq> None \<Longrightarrow> uh_listening h1 = uh_listening h \<and> uh_files h1 = uh_files h"
  using assms
  by (auto simp: withSocketUmask_def netListenUnix_def setUmask_def faulty_def Let_def socketAt_def split: list.splits if_splits)

lemma lockDown_run:
  assumes "run_state (lockDown path gid) h = (r, h1)" "uh_listening h = path # ls" "socketAt path h"
  shows "r = Inr l \<Longrightarrow> l = path \<and> uh_listening h1 = path # ls \<and>
      (\<exists>nd. map_of (uh_files h1) path = Some nd \<and> nd_socket nd \<and> nd_mode nd = socketMode \<and> (0 \<le> gid \<longrightarrow> nd_gid nd = gid))"
    "r = Inl err \<Longrightarrow> uh_listening h1 = ls \<and> map_of (uh_files h1) path = None"
  using assms
  by (auto simp: lockDown_def osChmod_def osChown_def closeUnix_def osRemove_def faulty_def socketAt_def
      split: list.splits if_splits option.splits)

lemma Listen_outcome:
  assumes "run_state (Listen lookupGroup path grp) h = (r, h')"
  shows "lockedStep path h h' \<and>
    (case r of
       Inr l \<Rightarrow> l = path \<and> uh_listening h' = path # uh_listening h \<and>
         (\<exists>nd gid. map_of (uh_files h') path = Some nd \<and> nd_socket nd \<and> nd_mode nd = socketMode \<and>
            socketGid lookupGroup grp = Inr gid \<and> (0 \<le> gid \<longrightarrow> nd_gid nd = gid))
     | Inl err \<Rightarrow> uh_listening h' = uh_listening h \<and> map_of (uh_files h') path \<in> {None, map_of (uh_files h) path} \<and>
         (\<forall>nd. map_of (uh_files h) path = Some nd \<and> \<not> nd_socket nd \<longrightarrow> map_of (uh_files h') path = Some nd))"
proof
  show "lockedStep path h h'" using keeps_Listen [of path lookupGroup grp] assms by (metis keeps_def snd_conv)
  obtain e h1 where c: "run_state (clearStale path) h = (e, h1)" by force
  obtain e2 h2 where b: "run_state (withSocketUmask (netListenUnix path)) h1 = (e2, h2)" by force
  note cl = clearStale_run [OF c] and bd = bind_run [OF b]
  show "case r of
       Inr l \<Rightarrow> l = path \<and> uh_listening h' = path # uh_listening h \<and>
         (\<exists>nd gid. map_of (uh_files h') path = Some nd \<and> nd_socket nd \<and> nd_mode nd = socketMode \<and>
            socketGid lookupGroup grp = Inr gid \<and> (0 \<le> gid \<longrightarrow> nd_gid nd = gid))
     | Inl err \<Rightarrow> uh_listening h' = uh_listening h \<and> map_of (uh_files h') path \<in> {None, map_of (uh_files h) path} \<and>
         (\<forall>nd. map_of (uh_files h) path = Some nd \<and> \<not> nd_socket nd \<longrightarrow> map_of (uh_files h') path = Some nd)"
  proof (cases "e = None \<and> e2 = None \<and> (\<exists>gid. socketGid lookupGroup grp = Inr gid)")
    case True
    then obtain gid where t: "e = None" "e2 = None" "socketGid lookupGroup grp = Inr gid" by blast
    then have "run_state (lockDown path gid) h2 = (r, h')" using assms c b by (simp add: Listen_def)
    from lockDown_run [OF this] bd(1) [OF t(2)] cl t(3) show ?thesis by (auto split: sum.splits)
  next
    case False
    then have "(\<exists>err. r = Inl err) \<and> uh_listening h' = uh_listening h1 \<and> uh_files h' = uh_files h1"
      using assms c b bd(2) by (auto simp: Listen_def split: option.splits sum.splits)
    with cl show ?thesis by auto
  qed
qed

section \<open>Properties of the socket\<close>


definition demo_host :: unixHost where
  "demo_host = \<lparr> uh_files = [(''/run/ob'', \<lparr> nd_socket = True, nd_mode = 511, nd_gid = 0 \<rparr>)], uh_umask = 18, uh_modes = [],
                 uh_listening = [], uh_faults = [] \<rparr>"


section \<open>The TLS listener (listener_tls.go)\<close>

record certificate =
  crt_CommonName :: string

text \<open>The constants of \<^verbatim>\<open>tls.ClientAuthType\<close>.\<close>

datatype clientAuth = NoClientCert | RequestClientCert | RequireAnyClientCert | VerifyClientCertIfGiven | RequireAndVerifyClientCert

record serverTLS =
  sv_MinVersion :: nat
  sv_Certificate :: string
  sv_ClientAuth :: clientAuth
  sv_ClientCAs :: string
  sv_VerifyConnection :: "certificate list list \<Rightarrow> gerr option"

definition checkAllowedClientCN :: "string list \<Rightarrow> certificate list list \<Rightarrow> gerr option" where
  "checkAllowedClientCN allowed vchains =
     (case vchains of
        (leaf # _) # _ \<Rightarrow>
          if crt_CommonName leaf \<in> set allowed then None
          else Some (errorsNew ''client certificate common name %q is not allowed'')
      | _ \<Rightarrow> Some (errorsNew ''no verified client certificate chain''))"

text \<open>Loading a key pair, reading a file and finding certificates in it are parameters, as for the client.\<close>

definition tlsConfigFor ::
    "(string \<Rightarrow> string \<Rightarrow> string result) \<Rightarrow> (string \<Rightarrow> string result) \<Rightarrow> (string \<Rightarrow> bool) \<Rightarrow> ListenConfig \<Rightarrow> serverTLS result" where
  "tlsConfigFor loadKeyPair readFile hasCert cfg =
     (case loadKeyPair (tls_CertFile (ln_TLS cfg)) (tls_KeyFile (ln_TLS cfg)) of
        Inl err \<Rightarrow> Inl (Errorf ''load server keypair: %w'' [err])
      | Inr cert \<Rightarrow>
          (case readFile (tls_ClientCAFile (ln_TLS cfg)) of
             Inl err \<Rightarrow> Inl (Errorf ''read client CA %q: %w'' [err])
           | Inr caPEM \<Rightarrow>
               if \<not> hasCert caPEM then Inl (wrapErr ''%w: client CA %q contains no certificate'' ErrInvalid)
               else Inr \<lparr> sv_MinVersion = VersionTLS13, sv_Certificate = cert, sv_ClientAuth = RequireAndVerifyClientCert,
                          sv_ClientCAs = caPEM,
                          sv_VerifyConnection = checkAllowedClientCN (tls_AllowedClientCNs (ln_TLS cfg)) \<rparr>))"

text \<open>\<open>listenTCP\<close> binds the address.\<close>

definition ListenTLS ::
    "(string \<Rightarrow> string \<Rightarrow> string result) \<Rightarrow> (string \<Rightarrow> string result) \<Rightarrow> (string \<Rightarrow> bool) \<Rightarrow> (string \<Rightarrow> gerr option) \<Rightarrow>
       ListenConfig \<Rightarrow> (string \<times> serverTLS) result" where
  "ListenTLS loadKeyPair readFile hasCert listenTCP cfg =
     (case tlsConfigFor loadKeyPair readFile hasCert cfg of
        Inl err \<Rightarrow> Inl err
      | Inr tls \<Rightarrow>
          (case listenTCP (ln_Address cfg) of
             Some err \<Rightarrow> Inl (Errorf ''listen on %q: %w'' [err])
           | None \<Rightarrow> Inr (ln_Address cfg, tls)))"

text \<open>
  What the listener uses of the handshake of \<^verbatim>\<open>crypto/tls\<close>: a client offers a version and
  its certificates, or a session ticket with the certificates and chains saved in it. A
  ticket is taken up when it satisfies the required client authentication; otherwise the
  handshake is a full one, in which \<open>verify\<close> (\<^verbatim>\<open>x509.Certificate.Verify\<close>) builds the chains.
  \<^verbatim>\<open>VerifyConnection\<close> runs either way.
\<close>

record clientHello =
  ch_Version :: nat
  ch_Certs :: "certificate list"
  ch_Ticket :: "(certificate list \<times> certificate list list) option"

definition requiresCert :: "clientAuth \<Rightarrow> bool" where
  "requiresCert a \<longleftrightarrow> a = RequireAnyClientCert \<or> a = RequireAndVerifyClientCert"

definition verifiesCert :: "clientAuth \<Rightarrow> bool" where
  "verifiesCert a \<longleftrightarrow> a = VerifyClientCertIfGiven \<or> a = RequireAndVerifyClientCert"

definition resumable :: "serverTLS \<Rightarrow> certificate list \<times> certificate list list \<Rightarrow> bool" where
  "resumable tls t \<longleftrightarrow> (requiresCert (sv_ClientAuth tls) \<longrightarrow> fst t \<noteq> []) \<and> (fst t \<noteq> [] \<longrightarrow> sv_ClientAuth tls \<noteq> NoClientCert) \<and>
     (fst t \<noteq> [] \<longrightarrow> verifiesCert (sv_ClientAuth tls) \<longrightarrow> snd t \<noteq> [])"

definition fullHandshake ::
    "(string \<Rightarrow> certificate list \<Rightarrow> certificate list list) \<Rightarrow> serverTLS \<Rightarrow> certificate list \<Rightarrow> (certificate list \<times> certificate list list) option" where
  "fullHandshake verify tls certs =
     (let certs = (if sv_ClientAuth tls = NoClientCert then [] else certs); vchains = verify (sv_ClientCAs tls) certs in
      if certs = [] then (if requiresCert (sv_ClientAuth tls) then None else Some ([], []))
      else if \<not> verifiesCert (sv_ClientAuth tls) then Some (certs, [])
      else if vchains = [] then None else Some (certs, vchains))"

text \<open>The certificates of the peer of an accepted connection.\<close>

definition tlsAccept ::
    "(string \<Rightarrow> certificate list \<Rightarrow> certificate list list) \<Rightarrow> serverTLS \<Rightarrow> clientHello \<Rightarrow> certificate list option" where
  "tlsAccept verify tls ch =
     (if ch_Version ch < sv_MinVersion tls then None
      else let peer = (case ch_Ticket ch of
             Some t \<Rightarrow> if resumable tls t then Some t else fullHandshake verify tls (ch_Certs ch)
           | None \<Rightarrow> fullHandshake verify tls (ch_Certs ch))
        in case peer of
             None \<Rightarrow> None
           | Some (certs, vchains) \<Rightarrow> (case sv_VerifyConnection tls vchains of Some _ \<Rightarrow> None | None \<Rightarrow> Some certs))"

section \<open>The caller (caller.go)\<close>

definition TransportUnix :: string where "TransportUnix = ''unix''"
definition TransportTLS :: string where "TransportTLS = ''tls''"

record Caller =
  cl_Transport :: string
  cl_Name :: string

text \<open>The values a request context carries under \<^verbatim>\<open>callerKey\<close>, innermost first.\<close>

type_synonym callerContext = "Caller list"

text \<open>\<open>tls\<close> are the peer's certificates when the request came over TLS.\<close>

definition WithCaller :: "(callerContext \<Rightarrow> 'a) \<Rightarrow> certificate list option \<Rightarrow> callerContext \<Rightarrow> 'a" where
  "WithCaller next tls ctx =
     (let c = (case tls of
           None \<Rightarrow> \<lparr> cl_Transport = TransportUnix, cl_Name = [] \<rparr>
         | Some peers \<Rightarrow> \<lparr> cl_Transport = TransportTLS, cl_Name = (case peers of [] \<Rightarrow> [] | p # _ \<Rightarrow> crt_CommonName p) \<rparr>)
      in next (c # ctx))"

definition CallerFrom :: "callerContext \<Rightarrow> Caller option" where
  "CallerFrom ctx = (case ctx of [] \<Rightarrow> None | c # _ \<Rightarrow> Some c)"

text \<open>
  C13: a network caller has an allowed name. A connection the TLS listener accepts, fresh or
  resumed, speaks TLS 1.3, comes with a certificate whose common name is on the allowlist
  of the running configuration, and every request on it is recorded under that name, which
  is never empty. That a chain begins with the certificate it is for is what x509 and the
  tickets the daemon itself issued guarantee.
\<close>

theorem tls_callers_allowed:
  assumes "ListenConfig_validate cfg = None" "tlsConfigFor loadKeyPair readFile hasCert cfg = Inr tls"
    and "tlsAccept verify tls ch = Some peers"
    and "\<And>ca certs chain. chain \<in> set (verify ca certs) \<Longrightarrow> chain \<noteq> [] \<and> certs \<noteq> [] \<and> hd chain = hd certs"
    and "\<And>certs vchains chain. ch_Ticket ch = Some (certs, vchains) \<Longrightarrow> chain \<in> set vchains \<Longrightarrow>
           chain \<noteq> [] \<and> certs \<noteq> [] \<and> hd chain = hd certs"
  shows "\<exists>name. VersionTLS13 \<le> ch_Version ch \<and> name \<in> set (tls_AllowedClientCNs (ln_TLS cfg)) \<and> name \<noteq> [] \<and>
    WithCaller CallerFrom (Some peers) ctx = Some \<lparr> cl_Transport = TransportTLS, cl_Name = name \<rparr>"
proof -
  have tls: "sv_MinVersion tls = VersionTLS13" "sv_ClientAuth tls = RequireAndVerifyClientCert"
    "sv_VerifyConnection tls = checkAllowedClientCN (tls_AllowedClientCNs (ln_TLS cfg))"
    using assms(2) by (auto simp: tlsConfigFor_def split: sum.splits if_splits)
  obtain vchains where c: "checkAllowedClientCN (tls_AllowedClientCNs (ln_TLS cfg)) vchains = None"
    "ch_Ticket ch = Some (peers, vchains) \<or> fullHandshake verify tls (ch_Certs ch) = Some (peers, vchains)"
    and v: "VersionTLS13 \<le> ch_Version ch"
    using assms(3) by (auto simp: tlsAccept_def tls Let_def split: if_splits option.splits)
  then obtain leaf rest more where l: "vchains = (leaf # rest) # more" "crt_CommonName leaf \<in> set (tls_AllowedClientCNs (ln_TLS cfg))"
    by (auto simp: checkAllowedClientCN_def split: list.splits if_splits)
  have m: "(leaf # rest) \<in> set vchains" by (simp add: l)
  have "leaf # rest \<noteq> [] \<and> peers \<noteq> [] \<and> hd (leaf # rest) = hd peers"
  proof (cases "ch_Ticket ch = Some (peers, vchains)")
    case True
    then show ?thesis using m by (rule assms(5))
  next
    case False
    with c(2) have "vchains = verify (sv_ClientCAs tls) peers"
      by (auto simp: fullHandshake_def Let_def tls requiresCert_def verifiesCert_def split: if_splits)
    with m assms(4) show ?thesis by blast
  qed
  then have "peers \<noteq> []" "hd peers = leaf" by simp_all
  moreover have "crt_CommonName leaf \<noteq> []"
    using l(2) assms(1) by (auto simp: ListenConfig_validate_def split: if_splits option.splits)
  ultimately show ?thesis using v l(2) by (cases peers) (auto simp: WithCaller_def CallerFrom_def)
qed

definition demo_listen :: ListenConfig where
  "demo_listen = \<lparr> ln_Address = ''h:1'',
     ln_TLS = \<lparr> tls_CertFile = ''c'', tls_KeyFile = ''k'', tls_ClientCAFile = ''a'', tls_AllowedClientCNs = [''worker''] \<rparr> \<rparr>"

definition demo_tls :: serverTLS where
  "demo_tls = \<lparr> sv_MinVersion = VersionTLS13, sv_Certificate = ''pair'', sv_ClientAuth = RequireAndVerifyClientCert,
     sv_ClientCAs = ''pem'', sv_VerifyConnection = checkAllowedClientCN [''worker''] \<rparr>"

definition demo_hello :: "string \<Rightarrow> clientHello" where
  "demo_hello cn = \<lparr> ch_Version = VersionTLS13, ch_Certs = [\<lparr> crt_CommonName = cn \<rparr>],
     ch_Ticket = Some ([\<lparr> crt_CommonName = cn \<rparr>], [[\<lparr> crt_CommonName = cn \<rparr>]]) \<rparr>"

theorem tls_callers_allowed_witness:
  "tlsAccept (\<lambda>ca certs. if certs = [] then [] else [certs]) demo_tls (demo_hello ''worker'') = Some [\<lparr> crt_CommonName = ''worker'' \<rparr>] \<and>
   (\<exists>name. VersionTLS13 \<le> ch_Version (demo_hello ''worker'') \<and> name \<in> {''worker''} \<and>
     WithCaller CallerFrom (Some [\<lparr> crt_CommonName = ''worker'' \<rparr>]) [] = Some \<lparr> cl_Transport = TransportTLS, cl_Name = name \<rparr>) \<and>
   tlsAccept (\<lambda>ca certs. if certs = [] then [] else [certs]) demo_tls (demo_hello ''former'') = None"
proof (intro conjI)
  let ?v = "\<lambda>ca certs. if certs = [] then [] else [certs]"
  show a: "tlsAccept ?v demo_tls (demo_hello ''worker'') = Some [\<lparr> crt_CommonName = ''worker'' \<rparr>]"
    "tlsAccept ?v demo_tls (demo_hello ''former'') = None"
    by (simp_all add: tlsAccept_def demo_tls_def demo_hello_def resumable_def Let_def checkAllowedClientCN_def)
  have v: "ListenConfig_validate demo_listen = None" by code_simp
  have t: "tlsConfigFor (\<lambda>_ _. Inr ''pair'') (\<lambda>_. Inr ''pem'') (\<lambda>_. True) demo_listen = Inr demo_tls"
    by (simp add: tlsConfigFor_def demo_listen_def demo_tls_def)
  have "\<exists>name. VersionTLS13 \<le> ch_Version (demo_hello ''worker'') \<and> name \<in> set (tls_AllowedClientCNs (ln_TLS demo_listen)) \<and> name \<noteq> [] \<and>
     WithCaller CallerFrom (Some [\<lparr> crt_CommonName = ''worker'' \<rparr>]) [] = Some \<lparr> cl_Transport = TransportTLS, cl_Name = name \<rparr>"
    by (rule tls_callers_allowed [OF v t a(1)]) (auto simp: demo_hello_def split: if_splits)
  then show "\<exists>name. VersionTLS13 \<le> ch_Version (demo_hello ''worker'') \<and> name \<in> {''worker''} \<and>
     WithCaller CallerFrom (Some [\<lparr> crt_CommonName = ''worker'' \<rparr>]) [] = Some \<lparr> cl_Transport = TransportTLS, cl_Name = name \<rparr>"
    by (auto simp: demo_listen_def)
qed

section \<open>The sweep (reap.go)\<close>

text \<open>What the \<^verbatim>\<open>select\<close> of \<^verbatim>\<open>RunReaper\<close> takes up, in the order it does.\<close>

datatype reaperEvent = Tick | Cancelled

fun RunReaper :: "('w, 'h, 'r, 'c) daemonBackend \<Rightarrow> reaperEvent list \<Rightarrow> ('w, (string list \<times> gerr option) list) state" where
  "RunReaper be [] = State_Monad.return []"
| "RunReaper be (Cancelled # evs) = State_Monad.return []"
| "RunReaper be (Tick # evs) = do {
     sweep \<leftarrow> bk_Reap be;
     rest \<leftarrow> RunReaper be evs;
     State_Monad.return (sweep # rest) }"


end
