(* ===== verification/Spec2Isabelle.thy ===== *)
theory Spec2Isabelle
  imports Daemon_Capacity Broker_Transparent Daemon_Main
begin

text \<open>
  \<^bold>\<open>Verification of openblox.\<close>

  openblox runs untrusted commands in hardened Docker containers. The library \<^verbatim>\<open>pkg/docker\<close>
  creates, finds, uses and destroys sandboxes through a Docker client; \<^verbatim>\<open>pkg/sandbox\<close> is the
  contract it implements; \<^verbatim>\<open>pkg/preview\<close> issues signed tokens for ports inside sandboxes and
  proxies to them. The daemon \<^verbatim>\<open>cmd/openbloxd\<close> (\<^verbatim>\<open>internal/daemon\<close>) owns the Docker connection
  and serves a restricted HTTP interface (\<^verbatim>\<open>pkg/brokerapi\<close>) under profiles read from its
  configuration; \<^verbatim>\<open>pkg/brokerclient\<close> is its client and implements the same contract again.

  \<^bold>\<open>How the program is modelled.\<close> Go strings are lists of bytes, \<^verbatim>\<open>int64\<close> is \<^typ>\<open>int\<close> with the
  wrap-around written out where the code can reach it, \<^verbatim>\<open>float64\<close> is a datatype with the
  infinities and NaN, an instant is a number of nanoseconds, a Go map is an association
  list, file modes are 32-bit words. Errors are values that carry the sentinels they wrap,
  and \<^verbatim>\<open>errors.Is\<close> is a function on them. Every operation that talks to the outside is a state
  transformer over a world the model does not look into. The Docker client is a record of
  such transformers, an argument of everything in \<^verbatim>\<open>pkg/docker\<close>; theorems either hold for every
  such record, whatever it answers, or name the laws of Docker they need (\<open>healthy\<close>,
  \<open>list_law\<close>, \<open>activity_law\<close>, \<open>clock_laws\<close>), which an in-memory host satisfies. Random bytes,
  the clock, files and certificates come in the same way.

  \<^bold>\<open>Theories.\<close>

  \<^item> \<open>Ob_Prelude\<close>, \<open>Ob_Errors\<close>: maps, lists, the interfaces \<open>codec\<close>, \<open>sep_codec\<close> and
    \<open>inductive_system\<close>; errors and effects.
  \<^item> \<open>Go_Strings\<close>, \<open>Go_Encoding\<close>, \<open>Go_Float\<close>, \<open>Go_Time\<close>, \<open>Go_Calendar\<close>, \<open>Go_Crypto\<close>, \<open>Go_Net\<close>,
    \<open>Go_Utf8\<close>, \<open>Go_Json\<close>, \<open>Go_Decode\<close>, \<open>Go_Mux\<close>: what the program uses of Go's library, with
    the round trips it relies on: decimal numbers, base64, path escaping, durations, RFC
    3339 times, JSON with its treatment of bytes that are not UTF-8, decoding into structs,
    the patterns and redirects of \<^verbatim>\<open>http.ServeMux\<close>. SHA-256 and HMAC are defined in full.
  \<^item> \<open>Sandbox_Contract\<close>: \<^verbatim>\<open>pkg/sandbox\<close>. Specs, options and defaults, validation, timeouts.
  \<^item> \<open>Broker_Api\<close>, \<open>Broker_Wire\<close>: \<^verbatim>\<open>pkg/brokerapi\<close>. Bodies, error kinds, and for every body the
    contract \<open>wire\<close> between its encoder and its decoder.
  \<^item> \<open>Preview_Token\<close>, \<open>Preview_Proxy\<close>: \<^verbatim>\<open>pkg/preview\<close>. Tokens, routing, authorisation,
    revocation, the pool of upstream connections.
  \<^item> \<open>Docker_Engine\<close>: the Docker client as a parameter, the record of the calls made to it and
    the calculus in which a bound on those calls is proved. \<open>Docker_Backend\<close>,
    \<open>Docker_Registry\<close>, \<open>Docker_Sandbox\<close>, \<open>Docker_Reap\<close>: \<^verbatim>\<open>pkg/docker\<close>.
  \<^item> \<open>Daemon_Config\<close>, \<open>Daemon_Server\<close>, \<open>Daemon_Requests\<close>, \<open>Daemon_Capacity\<close>,
    \<open>Daemon_Listener\<close>, \<open>Daemon_Main\<close>: \<^verbatim>\<open>internal/daemon\<close> and \<^verbatim>\<open>cmd/openbloxd\<close>. The handlers run
    over an arbitrary backend (interface \<open>guarded_backend\<close>), the Docker backend is one.
  \<^item> \<open>Broker_Client\<close>, \<open>Broker_Transparent\<close>: \<^verbatim>\<open>pkg/brokerclient\<close> over an arbitrary transport, and
    over the transport that ends in the daemon. The contract of \<^verbatim>\<open>sandbox.Backend\<close> is the
    interface \<open>sandbox_backend\<close>, which the library and the broker both implement.

  \<^bold>\<open>What the theorems show.\<close> Isolation: every container the library or the daemon ever asks
  for is hardened and has the policy of its options or profile, every exec stays in its
  sandbox and is unprivileged, whatever Docker answers. Contracts: on a healthy host
  \<^verbatim>\<open>Create\<close>, \<^verbatim>\<open>Open\<close>, \<^verbatim>\<open>Destroy\<close> and \<^verbatim>\<open>Reap\<close> implement simple functions on the set of containers,
  and a caller sees the same through the broker. Access: previews are proxied only with a
  token for exactly that sandbox and port; the socket is never open to others; a network
  caller has an allowed name; errors reveal only what the protocol names. Bounds: limits and
  timeouts are always set, output is capped, the cap on sandboxes holds in every
  interleaving but one. Round trips: tokens, labels, URLs, every JSON body, errors.

  \<^bold>\<open>Loops and fuel.\<close> Loops over data are structural recursion. \<open>killLoop\<close> retries until a
  deadline and runs on fuel; \<open>killGroup_ends\<close> shows that the fuel chosen is never used up when
  the clock is not turned back. \<open>httpDo\<close> follows nine redirects as \<^verbatim>\<open>net/http\<close> does. Tickers
  and schedules are lists of events, over all of which the theorems quantify.

  \<^bold>\<open>Not modelled.\<close> Copying bytes between connections, the HTTP and TLS byte formats, shell
  scripts (opaque text handed to the sandbox), logging, the YAML reader, the texts of error
  messages beyond their formats, the relay connection after it is opened; the test helper
  \<^verbatim>\<open>internal/testpki\<close>; the conformance suite \<^verbatim>\<open>pkg/conformance\<close>, which is a library of tests run
  against a real host.
\<close>

end
